(* ===== verification/Prelude.thy ===== *)
theory Prelude
  imports Main "HOL-Library.Sublist" "HOL-Library.Word"
begin

text \<open>
  Shared vocabulary of the development: the result type of fallible Go functions, Go's
  integer operators, and the functions of the packages \<open>strings\<close>, \<open>bytes\<close> and \<open>strconv\<close>
  that the sources call, with the facts the component theories need of them.

  A Go \<open>string\<close> and a \<open>[]byte\<close> are both a list of bytes, so both are \<open>string\<close> here (a
  \<open>char\<close> is one byte). \<open>TrimSpace\<close> and \<open>ToLower\<close> are modelled on the ASCII range: the
  sources apply them to flags, sysfs attributes and host names. A Go \<open>int\<close> is an \<open>int\<close>;
  where the code depends on the 64-bit bounds they are written out
  (\<open>int_max\<close>, \<open>int_min\<close>).
\<close>

section \<open>Results\<close>

type_synonym ('e, 'a) result = "'e + 'a"

named_theorems go_simps \<open>equations of the modelled Go library functions\<close>

definition is_ok :: "('e, 'a) result \<Rightarrow> bool" where
  "is_ok r = (case r of Inl _ \<Rightarrow> False | Inr _ \<Rightarrow> True)"

lemma is_ok_simps [simp]:
  "is_ok (Inr a)"
  "\<not> is_ok (Inl e)"
  by (simp_all add: is_ok_def)

lemma is_ok_iff: "is_ok r \<longleftrightarrow> (\<exists>a. r = Inr a)"
  by (cases r) auto

section \<open>Integers\<close>

definition int_max :: int where
  "int_max = 9223372036854775807"

definition int_min :: int where
  "int_min = - 9223372036854775808"

text \<open>The value a Go \<open>int\<close> takes when the exact result of an operation is \<open>x\<close>.\<close>

definition wrap_int :: "int \<Rightarrow> int" where
  "wrap_int x = (x + 9223372036854775808) mod 18446744073709551616 - 9223372036854775808"

lemma wrap_int_id [simp]: "int_min \<le> x \<Longrightarrow> x \<le> int_max \<Longrightarrow> wrap_int x = x"
  by (simp add: wrap_int_def int_min_def int_max_def)

text \<open>Go's \<open>%\<close> truncates towards zero: the sign of the result is that of the dividend.\<close>

definition go_mod :: "int \<Rightarrow> int \<Rightarrow> int" where
  "go_mod a b = sgn a * (\<bar>a\<bar> mod \<bar>b\<bar>)"

lemma go_mod_nonneg [simp]: "0 \<le> a \<Longrightarrow> 0 < b \<Longrightarrow> go_mod a b = a mod b"
  by (cases "a = 0") (simp_all add: go_mod_def)

lemma go_mod_bounds:
  assumes "0 < b"
  shows "- b < go_mod a b" and "go_mod a b < b"
proof -
  have m: "0 \<le> \<bar>a\<bar> mod \<bar>b\<bar>" "\<bar>a\<bar> mod \<bar>b\<bar> < b"
    using assms by simp_all
  have "go_mod a b = \<bar>a\<bar> mod \<bar>b\<bar> \<or> go_mod a b = - (\<bar>a\<bar> mod \<bar>b\<bar>) \<or> go_mod a b = 0"
    unfolding go_mod_def sgn_if by simp
  with m assms show "- b < go_mod a b" and "go_mod a b < b"
    by linarith+
qed

lemma go_mod_cong: "0 < b \<Longrightarrow> go_mod a b mod b = a mod b"
proof (cases "0 \<le> a")
  case False
  assume "0 < b"
  with False have "go_mod a b = - ((- a) mod b)"
    by (simp add: go_mod_def sgn_if)
  then show ?thesis by (simp add: mod_minus_eq)
qed simp

section \<open>Strings\<close>

definition go_space :: "char \<Rightarrow> bool" where
  "go_space c = (of_char c \<in> {9, 10, 11, 12, 13, 32 :: nat})"

definition TrimLeft_space :: "string \<Rightarrow> string" where
  "TrimLeft_space s = dropWhile go_space s"

definition TrimSpace :: "string \<Rightarrow> string" where
  "TrimSpace s = rev (dropWhile go_space (rev (dropWhile go_space s)))"

definition lower_char :: "char \<Rightarrow> char" where
  "lower_char c =
     (let n = of_char c :: nat in if 65 \<le> n \<and> n \<le> 90 then char_of (n + 32) else c)"

definition ToLower :: "string \<Rightarrow> string" where
  "ToLower s = map lower_char s"

definition HasPrefix :: "string \<Rightarrow> string \<Rightarrow> bool" where
  "HasPrefix s p = prefix p s"

definition HasSuffix :: "string \<Rightarrow> string \<Rightarrow> bool" where
  "HasSuffix s p = suffix p s"

definition TrimPrefix :: "string \<Rightarrow> string \<Rightarrow> string" where
  "TrimPrefix s p = (if HasPrefix s p then drop (length p) s else s)"

definition TrimSuffix :: "string \<Rightarrow> string \<Rightarrow> string" where
  "TrimSuffix s p = (if HasSuffix s p then take (length s - length p) s else s)"

definition Contains :: "string \<Rightarrow> string \<Rightarrow> bool" where
  "Contains s p = sublist p s"

definition ContainsAny :: "string \<Rightarrow> string \<Rightarrow> bool" where
  "ContainsAny s cs = (\<exists>c \<in> set s. c \<in> set cs)"

text \<open>\<open>strings.Split\<close> with a one-byte separator: always at least one part.\<close>

fun Split :: "char \<Rightarrow> string \<Rightarrow> string list" where
  "Split c [] = [[]]"
| "Split c (x # xs) =
     (if x = c then [] # Split c xs
      else (case Split c xs of [] \<Rightarrow> [[x]] | p # ps \<Rightarrow> (x # p) # ps))"

fun Join :: "string \<Rightarrow> string list \<Rightarrow> string" where
  "Join sep [] = []"
| "Join sep [p] = p"
| "Join sep (p # ps) = p @ sep @ Join sep ps"

text \<open>\<open>strings.Cut\<close> at a one-byte separator: before, after, found.\<close>

definition Cut :: "char \<Rightarrow> string \<Rightarrow> string \<times> string \<times> bool" where
  "Cut c s =
     (if c \<in> set s
      then (takeWhile (\<lambda>x. x \<noteq> c) s, drop 1 (dropWhile (\<lambda>x. x \<noteq> c) s), True)
      else (s, [], False))"

text \<open>\<open>strings.Fields\<close>: the maximal runs of non-space bytes.\<close>

fun fields_aux :: "string \<Rightarrow> string \<Rightarrow> string list" where
  "fields_aux cur [] = (if cur = [] then [] else [rev cur])"
| "fields_aux cur (c # cs) =
     (if go_space c then (if cur = [] then fields_aux [] cs else rev cur # fields_aux [] cs)
      else fields_aux (c # cur) cs)"

definition Fields :: "string \<Rightarrow> string list" where
  "Fields s = fields_aux [] s"

lemma fields_aux_word:
  "\<forall>c \<in> set p. \<not> go_space c \<Longrightarrow> fields_aux cur (p @ rest) = fields_aux (rev p @ cur) rest"
  by (induction p arbitrary: cur) auto

lemma fields_aux_Join:
  assumes "\<forall>p \<in> set ps. p \<noteq> [] \<and> (\<forall>c \<in> set p. \<not> go_space c)"
  shows "fields_aux [] (Join '' '' ps) = ps"
  using assms
proof (induction "'' ''" ps rule: Join.induct)
  case (2 p)
  then show ?case using fields_aux_word [of p "[]" "[]"] by simp
next
  case (3 p q ps)
  have "go_space CHR '' ''" by (simp add: go_space_def)
  with 3 show ?case by (simp add: fields_aux_word)
qed simp

lemma Fields_Join:
  "\<forall>p \<in> set ps. p \<noteq> [] \<and> (\<forall>c \<in> set p. \<not> go_space c) \<Longrightarrow> Fields (Join '' '' ps) = ps"
  by (simp add: Fields_def fields_aux_Join)

lemma Split_not_Nil [simp]: "Split c s \<noteq> []"
  by (induction s) (auto split: list.splits)

lemma Join_Split [simp]: "Join [c] (Split c s) = s"
proof (induction s)
  case (Cons x xs)
  obtain p ps where "Split c xs = p # ps"
    by (cases "Split c xs") auto
  with Cons show ?case
    by (cases ps) auto
qed simp

lemma Split_no_sep: "p \<in> set (Split c s) \<Longrightarrow> c \<notin> set p"
  by (induction s arbitrary: p) (fastforce split: list.splits if_splits)+

lemma Split_absent [simp]: "c \<notin> set s \<Longrightarrow> Split c s = [s]"
  by (induction s) auto

lemma Split_append_sep:
  "c \<notin> set p \<Longrightarrow> Split c (p @ c # s) = p # Split c s"
  by (induction p) auto

lemma Split_Join:
  "ps \<noteq> [] \<Longrightarrow> \<forall>p \<in> set ps. c \<notin> set p \<Longrightarrow> Split c (Join [c] ps) = ps"
proof (induction "[c]" ps rule: Join.induct)
  case (3 p q ps)
  then show ?case by (simp add: Split_append_sep)
qed simp_all

lemma set_Split: "x \<in> set s \<Longrightarrow> x \<noteq> c \<Longrightarrow> \<exists>p \<in> set (Split c s). x \<in> set p"
proof (induction s)
  case (Cons y ys)
  obtain p ps where "Split c ys = p # ps" by (cases "Split c ys") auto
  with Cons show ?case by (cases "x = y") auto
qed simp

lemma Cut_append [simp]:
  "c \<notin> set p \<Longrightarrow> Cut c (p @ c # s) = (p, s, True)"
  by (auto simp: Cut_def takeWhile_append dropWhile_append)

lemma Cut_absent [simp]: "c \<notin> set s \<Longrightarrow> Cut c s = (s, [], False)"
  by (simp add: Cut_def)

lemma TrimPrefix_append [simp]: "TrimPrefix (p @ s) p = s"
  by (simp add: TrimPrefix_def HasPrefix_def)

lemma TrimSuffix_append [simp]: "TrimSuffix (s @ p) p = s"
  by (simp add: TrimSuffix_def HasSuffix_def suffix_def)

lemma HasPrefix_append [simp]: "HasPrefix (p @ s) p"
  by (simp add: HasPrefix_def)

lemma HasSuffix_append [simp]: "HasSuffix (s @ p) p"
  by (simp add: HasSuffix_def suffix_def)

lemma HasSuffixE:
  assumes "HasSuffix s p"
  obtains q where "s = q @ p"
  using assms by (auto simp: HasSuffix_def suffix_def)

lemma TrimSuffix_eq_self: "p \<noteq> [] \<Longrightarrow> TrimSuffix s p = s \<longleftrightarrow> \<not> HasSuffix s p"
proof -
  assume "p \<noteq> []"
  have "HasSuffix s p \<Longrightarrow> take (length s - length p) s \<noteq> s"
    using \<open>p \<noteq> []\<close> by (auto elim!: HasSuffixE)
  then show ?thesis by (auto simp: TrimSuffix_def)
qed

lemma length_TrimSpace_le [simp]: "length (TrimSpace s) \<le> length s"
proof -
  have "length (TrimSpace s) \<le> length (dropWhile go_space s)"
    unfolding TrimSpace_def
    by (metis length_dropWhile_le length_rev)
  also have "\<dots> \<le> length s" by (rule length_dropWhile_le)
  finally show ?thesis .
qed

lemma dropWhile_hd: "\<not> P (hd s) \<Longrightarrow> dropWhile P s = s"
  by (cases s) auto

lemma TrimSpace_id: "s = [] \<or> (\<not> go_space (hd s) \<and> \<not> go_space (last s)) \<Longrightarrow> TrimSpace s = s"
  by (cases "s = []") (auto simp: TrimSpace_def dropWhile_hd hd_rev)

lemma TrimSpace_no_space: "\<forall>c \<in> set s. \<not> go_space c \<Longrightarrow> TrimSpace s = s"
  by (rule TrimSpace_id) (cases "s = []"; simp)

lemma TrimSpace_hd: "TrimSpace s \<noteq> [] \<Longrightarrow> \<not> go_space (hd (TrimSpace s))"
  and TrimSpace_last: "TrimSpace s \<noteq> [] \<Longrightarrow> \<not> go_space (last (TrimSpace s))"
proof -
  define t where "t = dropWhile go_space s"
  define u where "u = dropWhile go_space (rev t)"
  assume ne: "TrimSpace s \<noteq> []"
  then have u: "u \<noteq> []" by (simp add: TrimSpace_def t_def u_def)
  then have "\<not> go_space (hd u)" unfolding u_def using hd_dropWhile by blast
  with u show "\<not> go_space (last (TrimSpace s))"
    by (simp add: TrimSpace_def t_def [symmetric] u_def [symmetric] last_rev)
  have "t \<noteq> []" using u unfolding u_def by auto
  then have ht: "\<not> go_space (hd t)" unfolding t_def using hd_dropWhile by blast
  have "suffix u (rev t)" unfolding u_def by (rule suffix_dropWhile)
  then obtain v where "rev t = v @ u" unfolding suffix_def by auto
  then have "t = rev u @ rev v" by (metis rev_append rev_rev_ident)
  with u have "hd t = hd (rev u)" by simp
  with ht show "\<not> go_space (hd (TrimSpace s))"
    by (simp add: TrimSpace_def t_def [symmetric] u_def [symmetric])
qed

lemma TrimSpace_idem [simp]: "TrimSpace (TrimSpace s) = TrimSpace s"
  by (rule TrimSpace_id) (use TrimSpace_hd TrimSpace_last in blast)

lemma TrimSpace_newline:
  "s \<noteq> [] \<Longrightarrow> \<forall>c \<in> set s. \<not> go_space c \<Longrightarrow> TrimSpace (s @ [char_of (10::nat)]) = s"
proof -
  assume ne: "s \<noteq> []" and ns: "\<forall>c \<in> set s. \<not> go_space c"
  have nl: "go_space (char_of (10::nat))" by (simp add: go_space_def)
  have "dropWhile go_space (s @ [char_of (10::nat)]) = s @ [char_of (10::nat)]"
    using ne ns by (cases s) auto
  moreover have "dropWhile go_space (rev s) = rev s"
    using ne ns by (simp add: dropWhile_eq_self_iff hd_rev)
  ultimately show ?thesis using nl by (simp add: TrimSpace_def)
qed

lemma length_ToLower [simp]: "length (ToLower s) = length s"
  by (simp add: ToLower_def)

lemma lower_char_idem [simp]: "lower_char (lower_char c) = lower_char c"
  by (auto simp: lower_char_def Let_def)

lemma ToLower_idem [simp]: "ToLower (ToLower s) = ToLower s"
  by (simp add: ToLower_def)

lemma ToLower_append [simp]: "ToLower (s @ t) = ToLower s @ ToLower t"
  by (simp add: ToLower_def)

section \<open>Numbers in strings\<close>

definition is_digit :: "char \<Rightarrow> bool" where
  "is_digit c = (let n = of_char c :: nat in 48 \<le> n \<and> n \<le> 57)"

definition digit_val :: "char \<Rightarrow> nat" where
  "digit_val c = of_char c - 48"

fun digits_val :: "nat \<Rightarrow> string \<Rightarrow> nat" where
  "digits_val acc [] = acc"
| "digits_val acc (c # cs) = digits_val (acc * 10 + digit_val c) cs"

text \<open>The unsigned decimal numeral \<open>s\<close>: at least one digit and nothing else.\<close>

definition parse_decimal :: "string \<Rightarrow> nat option" where
  "parse_decimal s = (if s \<noteq> [] \<and> list_all is_digit s then Some (digits_val 0 s) else None)"

text \<open>\<open>strconv.Atoi\<close>: an optional sign, decimal digits, and the range of a 64-bit \<open>int\<close>.\<close>

definition Atoi :: "string \<Rightarrow> int option" where
  "Atoi s =
     (let (neg, body) =
        (case s of
           c # cs \<Rightarrow> if c = CHR ''-'' then (True, cs) else if c = CHR ''+'' then (False, cs) else (False, s)
         | [] \<Rightarrow> (False, []))
      in case parse_decimal body of
           None \<Rightarrow> None
         | Some n \<Rightarrow>
             (let v = if neg then - int n else int n
              in if int_min \<le> v \<and> v \<le> int_max then Some v else None))"

text \<open>\<open>strconv.ParseUint (s, 10, 32)\<close>.\<close>

definition ParseUint32 :: "string \<Rightarrow> nat option" where
  "ParseUint32 s =
     (case parse_decimal s of None \<Rightarrow> None | Some n \<Rightarrow> if n < 2 ^ 32 then Some n else None)"

fun Utoa :: "nat \<Rightarrow> string" where
  "Utoa n =
     (if n < 10 then [char_of (48 + n)] else Utoa (n div 10) @ [char_of (48 + n mod 10)])"

declare Utoa.simps [simp del]

definition Itoa :: "int \<Rightarrow> string" where
  "Itoa i = (if i < 0 then CHR ''-'' # Utoa (nat (- i)) else Utoa (nat i))"

lemma digits_val_append: "digits_val acc (s @ t) = digits_val (digits_val acc s) t"
  by (induction s arbitrary: acc) auto

lemma of_char_digit [simp]:
  "(d::nat) < 10 \<Longrightarrow> of_char (char_of (48 + d) :: char) = 48 + d"
  by (simp add: of_char_of)

lemma is_digit_char_of [simp]: "(d::nat) < 10 \<Longrightarrow> is_digit (char_of (48 + d))"
  by (simp add: is_digit_def)

lemma Utoa_not_Nil [simp]: "Utoa n \<noteq> []"
  by (subst Utoa.simps) simp

lemma list_all_digit_Utoa [simp]: "list_all is_digit (Utoa n)"
proof (induction n rule: Utoa.induct)
  case (1 n)
  then show ?case
    by (subst Utoa.simps) simp
qed

lemma digits_val_Utoa [simp]: "digits_val 0 (Utoa n) = n"
proof (induction n rule: Utoa.induct)
  case (1 n)
  show ?case
  proof (cases "n < 10")
    case True
    then show ?thesis by (subst Utoa.simps) (simp add: digit_val_def)
  next
    case False
    then have "digits_val 0 (Utoa n) = digits_val 0 (Utoa (n div 10)) * 10 + n mod 10"
      by (subst Utoa.simps) (simp add: digits_val_append digit_val_def)
    also have "\<dots> = n" using 1 [OF False] by simp
    finally show ?thesis .
  qed
qed

lemma parse_decimal_Utoa [simp]: "parse_decimal (Utoa n) = Some n"
  by (simp add: parse_decimal_def)

lemma not_digit_sign [simp]: "\<not> is_digit CHR ''-''" "\<not> is_digit CHR ''+''"
  by (simp_all add: is_digit_def)

lemma Utoa_hd_digit: "Utoa n = c # cs \<Longrightarrow> is_digit c"
  using list_all_digit_Utoa [of n] by simp

lemma Atoi_Itoa: "int_min \<le> i \<Longrightarrow> i \<le> int_max \<Longrightarrow> Atoi (Itoa i) = Some i"
proof (cases "i < 0")
  case True
  moreover assume "int_min \<le> i" "i \<le> int_max"
  ultimately show ?thesis by (simp add: Atoi_def Itoa_def)
next
  case False
  moreover assume "int_min \<le> i" "i \<le> int_max"
  moreover obtain c cs where u: "Utoa (nat i) = c # cs" by (cases "Utoa (nat i)") auto
  moreover from u have "c \<noteq> CHR ''-''" "c \<noteq> CHR ''+''"
    using Utoa_hd_digit by fastforce+
  ultimately show ?thesis
    using parse_decimal_Utoa [of "nat i"] by (simp add: Atoi_def Itoa_def)
qed

lemma Atoi_Utoa: "int n \<le> int_max \<Longrightarrow> Atoi (Utoa n) = Some (int n)"
  using Atoi_Itoa [of "int n"] by (simp add: Itoa_def int_min_def)

lemma digit_not_space: "is_digit c \<Longrightarrow> \<not> go_space c"
  by (auto simp: is_digit_def go_space_def Let_def)

lemma Utoa_chars: "c \<in> set (Utoa n) \<Longrightarrow> is_digit c"
  using list_all_digit_Utoa [of n] by (simp add: list_all_iff)

lemma Utoa_no_space: "\<forall>c \<in> set (Utoa n). \<not> go_space c"
  using Utoa_chars digit_not_space by blast

lemma Utoa_inj: "Utoa m = Utoa n \<longleftrightarrow> m = n"
  by (metis digits_val_Utoa)

end
