(* ===== verification/OS_World.thy ===== *)
theory OS_World
  imports Prelude "HOL-Library.State_Monad"
begin

text \<open>
  The operating system as the daemon sees it. Every effect of the sources outside the
  process (external commands, files, processes, network interfaces, D-Bus, libusbgx) is an
  \<open>os_call\<close>; the machine's answer is an \<open>os_reply\<close> that may depend on the whole history
  of calls. A \<open>world\<close> holds that unknown answering function (\<open>env\<close>), the clock and the
  trace of the calls made so far. Theorems quantify over the world, so they hold for every
  behaviour of the machine; a witness picks a concrete \<open>env\<close>.

  The clock moves only in calls: a call takes the non-negative time its \<open>env\<close> says,
  and \<open>Sleep d\<close> at least \<open>d\<close>. \<open>fuel\<close> bounds the one loop whose end the machine alone
  decides (unmounting until it fails). \<open>adbd_process\<close> is the one package variable of the
  sources that effects read and write: the pid of the adbd this daemon started. Times and durations are nanoseconds; \<open>0\<close> is Go's zero
  \<open>time.Time\<close>. Log output is not modelled.

  Code with effects is a \<open>(world, 'a) state\<close> of the library's state monad; \<open>emits P m\<close>
  says that every call \<open>m\<close> makes satisfies \<open>P\<close>.
\<close>

section \<open>Calls and replies\<close>

datatype oserr = NotExist | Permission | OtherErr

datatype usbg_ftype = F_RNDIS | F_FFS

record gadget_attrs =
  bcdUSB :: "16 word"
  bDeviceClass :: "8 word"
  bDeviceSubClass :: "8 word"
  bDeviceProtocol :: "8 word"
  bMaxPacketSize0 :: "8 word"
  idVendor :: "16 word"
  idProduct :: "16 word"
  bcdDevice :: "16 word"

datatype usbg_call =
    usbg_init string
  | usbg_cleanup
  | usbg_get_first_gadget
  | usbg_get_gadget_udc
  | usbg_disable_gadget
  | usbg_rm_gadget
  | usbg_create_gadget string
  | usbg_create_config nat string
  | usbg_create_function usbg_ftype string
  | usbg_net_set_dev_addr "8 word list"
  | usbg_net_set_host_addr "8 word list"
  | usbg_net_set_qmult nat
  | usbg_add_config_function string
  | usbg_set_gadget_attrs gadget_attrs
  | usbg_set_gadget_strs nat string string string
  | usbg_set_gadget_os_descs bool "8 word" string
  | usbg_set_os_desc_config
  | usbg_get_function usbg_ftype string
  | usbg_set_interf_os_desc string string string
  | usbg_set_config_strs nat string
  | usbg_get_udc string
  | usbg_enable_gadget

datatype os_call =
    Exec "string list"
  | ReadFile string
  | WriteFile string string
  | Stat string
  | Remove string
  | Readlink string
  | Symlink string string
  | MkdirAll string
  | ReadDir string
  | Glob string
  | Chmod string nat
  | Chown string nat nat
  | Sleep int
  | Kill int
  | SignalZero int
  | WaitProcess int "int option"
  | SigKill int
  | StartProcess "string list" string "string list" "(nat \<times> nat \<times> nat list) option"
  | LookPath string
  | NetInterface string
  | IfaceAddrs string
  | UdpExchange string "8 word list"
  | UserLookup string
  | UserCurrent
  | UserGroupIds string
  | LookupGroup string
  | UserHomeDir
  | Geteuid
  | Getegid
  | Environ
  | CreateTemp string string
  | FileChmod string nat
  | FileWriteString string string
  | FileSync string
  | FileClose string
  | Rename string string
  | DbusConnectSystemBus
  | DbusReloadConfig
  | DbusRequestName string
  | DbusExport string string
  | DbusClose
  | Usbg usbg_call

text \<open>
  The calls on an open file (\<open>FileChmod\<close> to \<open>FileClose\<close>) name it by its path. A reply is an error
  or a list of strings: the file's bytes, the command's output, the
  entries of a directory, the fields of an account. A \<open>nil\<close> pointer of libusbgx is \<open>Fail\<close>.
\<close>

datatype os_reply = Fail oserr | Done "string list"

definition ok :: "os_reply \<Rightarrow> bool" where
  "ok r = (case r of Fail _ \<Rightarrow> False | Done _ \<Rightarrow> True)"

definition items :: "os_reply \<Rightarrow> string list" where
  "items r = (case r of Fail _ \<Rightarrow> [] | Done xs \<Rightarrow> xs)"

definition nth_item :: "nat \<Rightarrow> os_reply \<Rightarrow> string" where
  "nth_item n r = (if n < length (items r) then items r ! n else [])"

abbreviation data :: "os_reply \<Rightarrow> string" where
  "data \<equiv> nth_item 0"

lemma ok_simps [simp]: "ok (Done xs)" "\<not> ok (Fail e)"
  by (simp_all add: ok_def)

lemma items_simps [simp]: "items (Done xs) = xs" "items (Fail e) = []"
  by (simp_all add: items_def)

section \<open>The world and the state monad over it\<close>

record world =
  env :: "os_call list \<Rightarrow> os_call \<Rightarrow> os_reply \<times> nat"
  clock :: int
  trace :: "os_call list"
  fuel :: nat
  adbd_process :: "int option"

type_synonym 'a io = "(world, 'a) state"

abbreviation return :: "'a \<Rightarrow> 'a io" where
  "return \<equiv> State_Monad.return"

definition sleep_time :: "os_call \<Rightarrow> int" where
  "sleep_time c = (case c of Sleep d \<Rightarrow> max 0 d | _ \<Rightarrow> 0)"

definition sys_step :: "os_call \<Rightarrow> world \<Rightarrow> os_reply \<times> world" where
  "sys_step c w =
     (case env w (trace w) c of
        (r, d) \<Rightarrow> (r, w\<lparr>clock := clock w + int d + sleep_time c, trace := trace w @ [c]\<rparr>))"

definition sys :: "os_call \<Rightarrow> os_reply io" where
  "sys c = State (sys_step c)"

definition now :: "int io" where
  "now = State (\<lambda>w. (clock w, w))"

definition get_fuel :: "nat io" where
  "get_fuel = State (\<lambda>w. (fuel w, w))"

definition get_adbd :: "int option io" where
  "get_adbd = State (\<lambda>w. (adbd_process w, w))"

definition set_adbd :: "int option \<Rightarrow> unit io" where
  "set_adbd p = State (\<lambda>w. ((), w\<lparr>adbd_process := p\<rparr>))"

definition run_cmd :: "string list \<Rightarrow> unit io" where
  "run_cmd argv = do { _ \<leftarrow> sys (Exec argv); return () }"

lemma sleep_time_nonneg [simp]: "0 \<le> sleep_time c"
  by (simp add: sleep_time_def split: os_call.splits)

lemma sleep_time_Sleep [simp]: "sleep_time (Sleep d) = max 0 d"
  by (simp add: sleep_time_def)

lemma run_sys [simp]: "run_state (sys c) w = sys_step c w"
  by (simp add: sys_def)

lemma run_now [simp]: "run_state now w = (clock w, w)"
  by (simp add: now_def)

lemma run_vars [simp]:
  "run_state get_fuel w = (fuel w, w)"
  "run_state get_adbd w = (adbd_process w, w)"
  "run_state (set_adbd p) w = ((), w\<lparr>adbd_process := p\<rparr>)"
  by (simp_all add: get_fuel_def get_adbd_def set_adbd_def)

lemma sys_step_vars [simp]:
  "fuel (snd (sys_step c w)) = fuel w"
  "adbd_process (snd (sys_step c w)) = adbd_process w"
  by (simp_all add: sys_step_def split: prod.splits)

lemma sys_step_world [simp]:
  "env (snd (sys_step c w)) = env w"
  "trace (snd (sys_step c w)) = trace w @ [c]"
  by (simp_all add: sys_step_def split: prod.splits)

lemma sys_step_clock: "clock w + sleep_time c \<le> clock (snd (sys_step c w))"
  by (simp add: sys_step_def split: prod.splits)

lemma sys_step_clock_mono [simp]: "clock w \<le> clock (snd (sys_step c w))"
  using sys_step_clock [of w c] sleep_time_nonneg [of c] by linarith

lemma fst_sys_step: "fst (sys_step c w) = fst (env w (trace w) c)"
  by (simp add: sys_step_def split: prod.splits)

section \<open>Which calls a computation makes\<close>

named_theorems emits_rules \<open>rules that compute the calls of a computation\<close>

definition emits :: "(os_call \<Rightarrow> bool) \<Rightarrow> 'a io \<Rightarrow> bool" where
  "emits P m =
     (\<forall>w. \<exists>cs. trace (snd (run_state m w)) = trace w @ cs \<and> list_all P cs \<and>
               env (snd (run_state m w)) = env w \<and> clock w \<le> clock (snd (run_state m w)))"

definition calls_of :: "'a io \<Rightarrow> world \<Rightarrow> os_call list" where
  "calls_of m w = drop (length (trace w)) (trace (snd (run_state m w)))"

lemma emitsI:
  "(\<And>w. \<exists>cs. trace (snd (run_state m w)) = trace w @ cs \<and> list_all P cs \<and>
     env (snd (run_state m w)) = env w \<and> clock w \<le> clock (snd (run_state m w))) \<Longrightarrow> emits P m"
  by (simp add: emits_def)

lemma emitsE:
  assumes "emits P m"
  obtains cs where "trace (snd (run_state m w)) = trace w @ cs" "list_all P cs"
    "env (snd (run_state m w)) = env w" "clock w \<le> clock (snd (run_state m w))"
  using assms unfolding emits_def by blast

lemma emits_calls_of: "emits P m \<Longrightarrow> list_all P (calls_of m w)"
  by (erule emitsE [of P m w]) (simp add: calls_of_def)

lemma emits_return [emits_rules, simp]: "emits P (return x)"
  by (simp add: emits_def)

lemma emits_now [emits_rules, simp]: "emits P now"
  by (simp add: emits_def)

lemma emits_vars [emits_rules, simp]: "emits P get_fuel" "emits P get_adbd" "emits P (set_adbd p)"
  by (simp_all add: emits_def)

lemma emits_sys [emits_rules]: "P c \<Longrightarrow> emits P (sys c)"
  by (simp add: emits_def)

lemma emits_bind [emits_rules]:
  assumes m: "emits P m" and f: "\<And>x. emits P (f x)"
  shows "emits P (m \<bind> f)"
proof (rule emitsI)
  fix w
  obtain x w1 where r: "run_state m w = (x, w1)" by (cases "run_state m w")
  obtain cs where 1: "trace w1 = trace w @ cs" "list_all P cs" "env w1 = env w" "clock w \<le> clock w1"
    using emitsE [OF m, of w] r by auto
  obtain ds where 2: "trace (snd (run_state (f x) w1)) = trace w1 @ ds" "list_all P ds"
    "env (snd (run_state (f x) w1)) = env w1" "clock w1 \<le> clock (snd (run_state (f x) w1))"
    using emitsE [OF f [of x], of w1] by blast
  show "\<exists>cs. trace (snd (run_state (m \<bind> f) w)) = trace w @ cs \<and> list_all P cs \<and>
     env (snd (run_state (m \<bind> f) w)) = env w \<and> clock w \<le> clock (snd (run_state (m \<bind> f) w))"
    by (rule exI [of _ "cs @ ds"]) (use r 1 2 in simp)
qed

lemma emits_run_cmd [emits_rules]: "P (Exec argv) \<Longrightarrow> emits P (run_cmd argv)"
  unfolding run_cmd_def by (intro emits_rules)

lemma emits_if [emits_rules]: "(b \<Longrightarrow> emits P m) \<Longrightarrow> (\<not> b \<Longrightarrow> emits P n) \<Longrightarrow> emits P (if b then m else n)"
  by simp

lemma emits_case_option [emits_rules]:
  "(x = None \<Longrightarrow> emits P m) \<Longrightarrow> (\<And>y. x = Some y \<Longrightarrow> emits P (f y)) \<Longrightarrow>
     emits P (case x of None \<Rightarrow> m | Some y \<Rightarrow> f y)"
  by (cases x) auto

lemma emits_case_sum [emits_rules]:
  "(\<And>e. x = Inl e \<Longrightarrow> emits P (g e)) \<Longrightarrow> (\<And>y. x = Inr y \<Longrightarrow> emits P (f y)) \<Longrightarrow>
     emits P (case x of Inl e \<Rightarrow> g e | Inr y \<Rightarrow> f y)"
  by (cases x) auto

lemma emits_case_prod [emits_rules]:
  "(\<And>a b. x = (a, b) \<Longrightarrow> emits P (f a b)) \<Longrightarrow> emits P (case x of (a, b) \<Rightarrow> f a b)"
  by (cases x) auto

lemma emits_Let [emits_rules]: "emits P (f x) \<Longrightarrow> emits P (Let x f)"
  by simp

lemma emits_mono: "emits P m \<Longrightarrow> (\<And>c. P c \<Longrightarrow> Q c) \<Longrightarrow> emits Q m"
  unfolding emits_def by (meson list.pred_mono_strong)

section \<open>Polling loops\<close>

text \<open>
  The loop \<open>for time.Now().Before(deadline) { body; time.Sleep(interval) }\<close>, left early when
  the body answers. The inner test that the clock has moved makes the recursion visibly
  well-founded; \<open>poll_unfold\<close> shows that it never decides anything for a body that only
  makes calls and a positive interval.
\<close>

definition poll_next :: "int \<Rightarrow> world \<Rightarrow> world" where
  "poll_next interval w = snd (sys_step (Sleep interval) w)"

function poll :: "int \<Rightarrow> int \<Rightarrow> 'a option io \<Rightarrow> world \<Rightarrow> 'a option \<times> world" where
  "poll deadline interval body w =
     (if clock w < deadline
      then (case run_state body w of
              (Some x, w1) \<Rightarrow> (Some x, w1)
            | (None, w1) \<Rightarrow>
                if clock w < clock (poll_next interval w1)
                then poll deadline interval body (poll_next interval w1)
                else (None, poll_next interval w1))
      else (None, w))"
  by pat_completeness auto
termination
  by (relation "measure (\<lambda>(deadline, interval, body, w). nat (deadline - clock w))") auto

declare poll.simps [simp del]

lemma poll_next_clock: "clock w + max 0 interval \<le> clock (poll_next interval w)"
  using sys_step_clock [of w "Sleep interval"] by (simp add: poll_next_def)

lemma poll_progress:
  assumes "emits P body" and "0 < interval" and "run_state body w = (x, w1)"
  shows "clock w < clock (poll_next interval w1)"
proof -
  have "clock w \<le> clock w1" using emitsE [OF assms(1), of w] assms(3) by auto
  moreover have "clock w1 < clock (poll_next interval w1)"
    using poll_next_clock [of w1 interval] assms(2) by simp
  ultimately show ?thesis by simp
qed

lemma poll_unfold:
  assumes "emits P body" and "0 < interval"
  shows "poll deadline interval body w =
     (if clock w < deadline
      then (case run_state body w of
              (Some x, w1) \<Rightarrow> (Some x, w1)
            | (None, w1) \<Rightarrow> poll deadline interval body (poll_next interval w1))
      else (None, w))"
  by (subst poll.simps)
    (auto split: prod.splits option.splits dest: poll_progress [OF assms])

definition poll_io :: "int \<Rightarrow> int \<Rightarrow> 'a option io \<Rightarrow> 'a option io" where
  "poll_io deadline interval body = State (poll deadline interval body)"

lemma poll_extends:
  assumes "emits P body" and "P (Sleep interval)" and "0 < interval"
  shows "\<exists>cs. trace (snd (poll deadline interval body w)) = trace w @ cs \<and> list_all P cs \<and>
     env (snd (poll deadline interval body w)) = env w \<and>
     clock w \<le> clock (snd (poll deadline interval body w))"
  using assms
proof (induction deadline interval body w rule: poll.induct)
  case (1 deadline interval body w)
  obtain r w1 where b: "run_state body w = (r, w1)" by (cases "run_state body w")
  obtain cs where w1: "trace w1 = trace w @ cs" "list_all P cs" "env w1 = env w" "clock w \<le> clock w1"
    using emitsE [OF "1.prems"(1), of w] b by auto
  note unfold = poll_unfold [OF "1.prems"(1,3), of deadline w]
  show ?case
  proof (cases "clock w < deadline \<and> r = None")
    case False
    with unfold b w1 show ?thesis by (auto split: option.splits)
  next
    case True
    define w2 where "w2 = poll_next interval w1"
    have w2: "trace w2 = trace w1 @ [Sleep interval]" "env w2 = env w1" "clock w1 \<le> clock w2"
      by (simp_all add: w2_def poll_next_def)
    have p: "poll deadline interval body w = poll deadline interval body w2"
      using unfold b True by (simp add: w2_def)
    have lt: "clock w < clock w2"
      unfolding w2_def by (rule poll_progress [OF "1.prems"(1,3) b])
    have "\<exists>ds. trace (snd (poll deadline interval body w2)) = trace w2 @ ds \<and> list_all P ds \<and>
       env (snd (poll deadline interval body w2)) = env w2 \<and>
       clock w2 \<le> clock (snd (poll deadline interval body w2))"
      using "1.IH" [OF _ b [symmetric] _ _ "1.prems"] True lt by (simp add: w2_def)
    then obtain ds where "trace (snd (poll deadline interval body w2)) = trace w2 @ ds" "list_all P ds"
       "env (snd (poll deadline interval body w2)) = env w2"
       "clock w2 \<le> clock (snd (poll deadline interval body w2))"
      by blast
    with p w1 w2 "1.prems"(2) show ?thesis
      by (intro exI [of _ "cs @ Sleep interval # ds"]) simp
  qed
qed

lemma emits_poll_io [emits_rules]:
  "emits P body \<Longrightarrow> P (Sleep interval) \<Longrightarrow> 0 < interval \<Longrightarrow> emits P (poll_io deadline interval body)"
  by (rule emitsI) (simp add: poll_io_def poll_extends)

text \<open>
  The loop \<open>for { body; if limit passed { break }; time.Sleep(interval) }\<close>, left early when the
  body answers; the body may carry a state. The tests on the clock inside again decide nothing.
\<close>

function retry :: "int \<Rightarrow> int \<Rightarrow> ('s \<Rightarrow> ('a + 's) io) \<Rightarrow> 's \<Rightarrow> world \<Rightarrow> ('a + 's) \<times> world" where
  "retry limit interval body s w =
     (case run_state (body s) w of
        (Inl x, w1) \<Rightarrow> (Inl x, w1)
      | (Inr s1, w1) \<Rightarrow>
          if limit \<le> clock w1 then (Inr s1, w1)
          else if clock w < clock (poll_next interval w1) \<and> clock w < limit
          then retry limit interval body s1 (poll_next interval w1)
          else (Inr s1, poll_next interval w1))"
  by pat_completeness auto
termination
  by (relation "measure (\<lambda>(limit, interval, body, s, w). nat (limit - clock w))") auto

declare retry.simps [simp del]

lemma retry_unfold:
  assumes "\<And>s. emits P (body s)" and "0 < interval"
  shows "retry limit interval body s w =
     (case run_state (body s) w of
        (Inl x, w1) \<Rightarrow> (Inl x, w1)
      | (Inr s1, w1) \<Rightarrow>
          if limit \<le> clock w1 then (Inr s1, w1)
          else retry limit interval body s1 (poll_next interval w1))"
proof -
  obtain r w1 where b: "run_state (body s) w = (r, w1)" by (cases "run_state (body s) w")
  have "clock w \<le> clock w1" using emitsE [OF assms(1), of s w] b by auto
  moreover have "clock w1 < clock (poll_next interval w1)"
    using poll_next_clock [of w1 interval] assms(2) by simp
  ultimately show ?thesis by (subst retry.simps) (auto simp: b split: sum.splits)
qed

definition retry_io :: "int \<Rightarrow> int \<Rightarrow> ('s \<Rightarrow> ('a + 's) io) \<Rightarrow> 's \<Rightarrow> ('a + 's) io" where
  "retry_io limit interval body s = State (retry limit interval body s)"

lemma retry_extends:
  assumes "\<And>s. emits P (body s)" and "P (Sleep interval)" and "0 < interval"
  shows "\<exists>cs. trace (snd (retry limit interval body s w)) = trace w @ cs \<and> list_all P cs \<and>
     env (snd (retry limit interval body s w)) = env w \<and>
     clock w \<le> clock (snd (retry limit interval body s w))"
  using assms
proof (induction limit interval body s w rule: retry.induct)
  case (1 limit interval body s w)
  obtain r w1 where b: "run_state (body s) w = (r, w1)" by (cases "run_state (body s) w")
  obtain cs where w1: "trace w1 = trace w @ cs" "list_all P cs" "env w1 = env w" "clock w \<le> clock w1"
    using emitsE [OF "1.prems"(1), of s w] b by auto
  note unfold = retry_unfold [where limit = limit and s = s and w = w, OF "1.prems"(1,3)]
  show ?case
  proof (cases "\<exists>s1. r = Inr s1 \<and> \<not> limit \<le> clock w1")
    case False
    with unfold b w1 show ?thesis by (auto split: sum.splits)
  next
    case True
    then obtain s1 where s1: "r = Inr s1" "clock w1 < limit" by auto
    define w2 where "w2 = poll_next interval w1"
    have w2: "trace w2 = trace w1 @ [Sleep interval]" "env w2 = env w1" "clock w1 < clock w2"
      using poll_next_clock [of w1 interval] "1.prems"(3) by (simp_all add: w2_def poll_next_def)
    have p: "retry limit interval body s w = retry limit interval body s1 w2"
      using unfold b s1 by (simp add: w2_def)
    have "\<exists>ds. trace (snd (retry limit interval body s1 w2)) = trace w2 @ ds \<and> list_all P ds \<and>
       env (snd (retry limit interval body s1 w2)) = env w2 \<and>
       clock w2 \<le> clock (snd (retry limit interval body s1 w2))"
      using "1.IH" [OF b [symmetric] s1(1) _ _ "1.prems"] s1 w1 w2 by (simp add: w2_def)
    then obtain ds where "trace (snd (retry limit interval body s1 w2)) = trace w2 @ ds" "list_all P ds"
       "env (snd (retry limit interval body s1 w2)) = env w2"
       "clock w2 \<le> clock (snd (retry limit interval body s1 w2))"
      by blast
    with p w1 w2 "1.prems"(2) show ?thesis
      by (intro exI [of _ "cs @ Sleep interval # ds"]) simp
  qed
qed

lemma emits_retry_io [emits_rules]:
  "(\<And>s. emits P (body s)) \<Longrightarrow> P (Sleep interval) \<Longrightarrow> 0 < interval \<Longrightarrow>
     emits P (retry_io limit interval body s)"
  by (rule emitsI) (simp add: retry_io_def retry_extends)

text \<open>A loop over a list whose body may stop it (a \<open>return\<close> inside \<open>for range\<close>).\<close>

fun for_io :: "'b list \<Rightarrow> ('b \<Rightarrow> 'a option io) \<Rightarrow> 'a option io" where
  "for_io [] f = return None"
| "for_io (x # xs) f = do {
     r \<leftarrow> f x;
     (case r of Some a \<Rightarrow> return (Some a) | None \<Rightarrow> for_io xs f)
   }"

lemma emits_for_io [emits_rules]: "(\<And>x. x \<in> set xs \<Longrightarrow> emits P (f x)) \<Longrightarrow> emits P (for_io xs f)"
  by (induction xs) (auto intro!: emits_rules)

lemma poll_Some_body:
  assumes "emits P body" and "0 < interval"
    and "poll deadline interval body w = (Some x, w')"
  shows "\<exists>v. run_state body v = (Some x, w')"
  using assms(3)
proof (induction deadline interval body w rule: poll.induct)
  case (1 deadline interval body w)
  then show ?case
    by (subst (asm) poll.simps) (auto split: if_splits prod.splits option.splits)
qed

section \<open>Which processes are signalled\<close>

text \<open>
  \<open>kills_ok J\<close> says of a history that before every \<open>SIGTERM\<close> the condition \<open>J\<close> held of the
  answers so far. A computation that sends no signal keeps it.
\<close>

type_synonym os_env = "os_call list \<Rightarrow> os_call \<Rightarrow> os_reply \<times> nat"

definition kills_ok :: "(os_env \<Rightarrow> os_call list \<Rightarrow> int \<Rightarrow> bool) \<Rightarrow> os_env \<Rightarrow> os_call list \<Rightarrow> bool" where
  "kills_ok J E tr = (\<forall>pre n post. tr = pre @ Kill n # post \<longrightarrow> J E pre n)"

definition keeps_kills :: "(os_env \<Rightarrow> os_call list \<Rightarrow> int \<Rightarrow> bool) \<Rightarrow> 'a io \<Rightarrow> bool" where
  "keeps_kills J m =
     (\<forall>w. kills_ok J (env w) (trace w) \<longrightarrow>
        kills_ok J (env w) (trace (snd (run_state m w))) \<and> env (snd (run_state m w)) = env w)"

definition no_kill :: "os_call \<Rightarrow> bool" where
  "no_kill c = (case c of Kill _ \<Rightarrow> False | _ \<Rightarrow> True)"

lemma no_kill_simps [simp]:
  "no_kill (Exec a)" "no_kill (ReadFile f)" "no_kill (WriteFile f s)" "no_kill (Stat f)"
  "no_kill (Remove f)" "no_kill (Readlink f)" "no_kill (Symlink t f)" "no_kill (MkdirAll f)"
  "no_kill (ReadDir f)" "no_kill (Glob f)" "no_kill (Chmod f m)" "no_kill (Chown f x g)"
  "no_kill (Sleep n)" "no_kill (SignalZero n)" "no_kill (WaitProcess n u)" "no_kill (SigKill n)"
  "no_kill (StartProcess a f e i)" "no_kill (LookPath f)" "no_kill (NetInterface f)"
  "no_kill (IfaceAddrs f)" "no_kill (UdpExchange f b)" "no_kill (UserLookup f)" "no_kill UserCurrent"
  "no_kill (UserGroupIds f)" "no_kill (LookupGroup f)" "no_kill UserHomeDir" "no_kill Geteuid"
  "no_kill Getegid" "no_kill Environ" "no_kill (Usbg j)" "\<not> no_kill (Kill n)"
  by (simp_all add: no_kill_def)

lemma kills_ok_snoc:
  "kills_ok J E (tr @ [c]) \<longleftrightarrow> kills_ok J E tr \<and> (\<forall>n. c = Kill n \<longrightarrow> J E tr n)"
proof
  assume *: "kills_ok J E (tr @ [c])"
  then have "J E pre n" if "tr = pre @ Kill n # post" for pre n post
    using that by (auto simp: kills_ok_def)
  then have "kills_ok J E tr" by (simp add: kills_ok_def)
  moreover have "\<forall>n. c = Kill n \<longrightarrow> J E tr n" using * by (auto simp: kills_ok_def)
  ultimately show "kills_ok J E tr \<and> (\<forall>n. c = Kill n \<longrightarrow> J E tr n)" ..
next
  assume *: "kills_ok J E tr \<and> (\<forall>n. c = Kill n \<longrightarrow> J E tr n)"
  show "kills_ok J E (tr @ [c])"
    unfolding kills_ok_def
  proof (intro allI impI)
    fix pre n post
    assume eq: "tr @ [c] = pre @ Kill n # post"
    show "J E pre n"
    proof (cases post rule: rev_cases)
      case Nil
      with eq * show ?thesis by auto
    next
      case (snoc post' c')
      with eq have "tr = pre @ Kill n # post'" by (metis append.assoc append_Cons butlast_snoc)
      with * show ?thesis by (simp add: kills_ok_def)
    qed
  qed
qed

lemma kills_ok_append:
  "kills_ok J E tr \<Longrightarrow> list_all no_kill cs \<Longrightarrow> kills_ok J E (tr @ cs)"
proof (induction cs rule: rev_induct)
  case (snoc c cs)
  then show ?case by (simp add: kills_ok_snoc flip: append_assoc) auto
qed simp

lemma keeps_kills_emits: "emits no_kill m \<Longrightarrow> keeps_kills J m"
  unfolding keeps_kills_def
proof (intro allI impI)
  fix w :: world
  assume "emits no_kill m" and "kills_ok J (env w) (trace w)"
  then show "kills_ok J (env w) (trace (snd (run_state m w))) \<and> env (snd (run_state m w)) = env w"
    by (metis emitsE kills_ok_append)
qed

lemma keeps_kills_bind:
  assumes "keeps_kills J m" and "\<And>x. keeps_kills J (f x)"
  shows "keeps_kills J (m \<bind> f)"
  unfolding keeps_kills_def
proof (intro allI impI)
  fix w :: world
  assume *: "kills_ok J (env w) (trace w)"
  obtain x w1 where r: "run_state m w = (x, w1)" by (cases "run_state m w")
  with assms(1) * have 1: "kills_ok J (env w1) (trace w1)" "env w1 = env w"
    unfolding keeps_kills_def by (metis snd_conv)+
  with assms(2) [of x] show "kills_ok J (env w) (trace (snd (run_state (m \<bind> f) w))) \<and>
    env (snd (run_state (m \<bind> f) w)) = env w"
    using r unfolding keeps_kills_def by simp metis
qed

lemma keeps_kills_for_io:
  "(\<And>x. keeps_kills J (f x)) \<Longrightarrow> keeps_kills J (for_io xs f)"
proof (induction xs)
  case Nil
  then show ?case by (simp add: keeps_kills_emits)
next
  case (Cons x xs)
  then have "keeps_kills J (case r of Some a \<Rightarrow> return (Some a) | None \<Rightarrow> for_io xs f)" for r
    by (cases r) (simp_all add: keeps_kills_emits)
  with Cons.prems show ?case by (simp add: keeps_kills_bind)
qed

lemma sys_stepD:
  "sys_step c w = (r, w') \<Longrightarrow> env w' = env w \<and> trace w' = trace w @ [c] \<and> r = fst (env w (trace w) c)"
  by (metis fst_conv fst_sys_step snd_conv sys_step_world)

lemma keeps_kills_return [simp]: "keeps_kills J (return x)"
  by (simp add: keeps_kills_emits)

lemma keeps_kills_if: "keeps_kills J m \<Longrightarrow> keeps_kills J n \<Longrightarrow> keeps_kills J (if b then m else n)"
  by simp

text \<open>A signal sent only after a test that establishes the condition.\<close>

lemma keeps_kills_guarded:
  assumes m: "emits no_kill m" and k: "\<And>n r. emits no_kill (k n r)"
    and test: "\<And>w n w'. run_state m w = (n, w') \<Longrightarrow> 0 < n \<Longrightarrow> J (env w') (trace w') n"
  shows "keeps_kills J (m \<bind> (\<lambda>n. if n \<le> 0 then return d else sys (Kill n) \<bind> k n))"
  unfolding keeps_kills_def
proof (intro allI impI)
  fix w :: world
  assume ok: "kills_ok J (env w) (trace w)"
  obtain n w1 where r: "run_state m w = (n, w1)" by (cases "run_state m w")
  with ok keeps_kills_emits [OF m, of J] have 1: "kills_ok J (env w) (trace w1)" "env w1 = env w"
    unfolding keeps_kills_def by (metis snd_conv)+
  obtain a w2 where s: "sys_step (Kill n) w1 = (a, w2)" by (cases "sys_step (Kill n) w1")
  show "kills_ok J (env w) (trace (snd (run_state (m \<bind> (\<lambda>n. if n \<le> 0 then return d else sys (Kill n) \<bind> k n)) w))) \<and>
    env (snd (run_state (m \<bind> (\<lambda>n. if n \<le> 0 then return d else sys (Kill n) \<bind> k n)) w)) = env w"
  proof (cases "n \<le> 0")
    case True
    with r 1 show ?thesis by simp
  next
    case False
    with test [OF r] 1 have "kills_ok J (env w) (trace w1 @ [Kill n])" by (simp add: kills_ok_snoc)
    with sys_stepD [OF s] 1 have 2: "kills_ok J (env w2) (trace w2)" "env w2 = env w" by simp_all
    from keeps_kills_emits [OF k, of J n a] 2
    have "kills_ok J (env w) (trace (snd (run_state (k n a) w2))) \<and> env (snd (run_state (k n a) w2)) = env w"
      unfolding keeps_kills_def by metis
    with r s False show ?thesis by simp
  qed
qed

end
