(* ===== verification/Base_Files.thy ===== *)
theory Base_Files
  imports OS_World
begin

text \<open>
  Package \<open>core/base\<close>: \<open>path_checker.go\<close> (is a path a file or a folder strictly below a
  base folder) and \<open>subpath_writter.go\<close> (read and write the attribute files below a base
  path, with a status for each kind of failure).

  A cleaned rooted path is the list of its components. \<open>clean\<close>, \<open>path_abs\<close> and
  \<open>path_rel\<close> are \<open>filepath.Clean\<close>, \<open>filepath.Abs\<close> and \<open>filepath.Rel\<close> on such paths;
  \<open>path_string\<close> prints one.
\<close>

section \<open>filepath\<close>

fun clean :: "string list \<Rightarrow> string list \<Rightarrow> string list" where
  "clean acc [] = rev acc"
| "clean acc (p # ps) =
     (if p = [] \<or> p = ''.'' then clean acc ps
      else if p = ''..'' then clean (drop 1 acc) ps
      else clean (p # acc) ps)"

definition path_comps :: "string \<Rightarrow> string list" where
  "path_comps s = clean [] (Split CHR ''/'' s)"

definition path_string :: "string list \<Rightarrow> string" where
  "path_string ps = CHR ''/'' # Join ''/'' ps"

text \<open>\<open>filepath.Abs\<close>; \<open>cwd\<close> is what \<open>os.Getwd\<close> answers.\<close>

definition path_abs :: "string option \<Rightarrow> string \<Rightarrow> string list option" where
  "path_abs cwd path =
     (if HasPrefix path ''/'' then Some (path_comps path)
      else (case cwd of None \<Rightarrow> None | Some wd \<Rightarrow> Some (path_comps (wd @ ''/'' @ path))))"

text \<open>\<open>filepath.Rel\<close> of two cleaned rooted paths, as components; \<open>[]\<close> is \<open>"."\<close>.\<close>

fun path_rel :: "string list \<Rightarrow> string list \<Rightarrow> string list" where
  "path_rel [] targ = targ"
| "path_rel base [] = replicate (length base) ''..''"
| "path_rel (b # base) (t # targ) =
     (if b = t then path_rel base targ
      else replicate (length (b # base)) ''..'' @ t # targ)"

definition path_join :: "string \<Rightarrow> string \<Rightarrow> string" where
  "path_join base sub = path_string (path_comps (base @ ''/'' @ sub))"

lemma clean_proper:
  "\<forall>p \<in> set acc. p \<noteq> [] \<and> p \<noteq> ''.'' \<and> p \<noteq> ''..'' \<Longrightarrow>
     p \<in> set (clean acc ps) \<Longrightarrow> p \<noteq> [] \<and> p \<noteq> ''.'' \<and> p \<noteq> ''..''"
proof (induction acc ps rule: clean.induct)
  case (2 acc q qs)
  then show ?case by (auto split: if_splits dest: in_set_dropD)
qed simp

lemma path_comps_proper: "p \<in> set (path_comps s) \<Longrightarrow> p \<noteq> [] \<and> p \<noteq> ''.'' \<and> p \<noteq> ''..''"
  unfolding path_comps_def by (rule clean_proper) simp_all

lemma path_abs_proper:
  "path_abs cwd s = Some ps \<Longrightarrow> p \<in> set ps \<Longrightarrow> p \<noteq> [] \<and> p \<noteq> ''.'' \<and> p \<noteq> ''..''"
  unfolding path_abs_def using path_comps_proper by (fastforce split: if_splits option.splits)

lemma path_rel_inside: "path_rel base (base @ rest) = rest"
  by (induction base) (auto intro: path_rel.simps(1))

lemma path_rel_outside:
  "\<not> prefix base targ \<Longrightarrow> \<exists>rest. path_rel base targ = ''..'' # rest"
  by (induction base targ rule: path_rel.induct) auto

lemma path_rel_hd_iff:
  assumes "\<forall>p \<in> set targ. p \<noteq> ''..''"
  shows "(\<exists>rest. path_rel base targ = ''..'' # rest) \<longleftrightarrow> \<not> prefix base targ"
proof
  assume "\<exists>rest. path_rel base targ = ''..'' # rest"
  then obtain rest where r: "path_rel base targ = ''..'' # rest" ..
  show "\<not> prefix base targ"
  proof
    assume "prefix base targ"
    then obtain q where "targ = base @ q" by (auto simp: prefix_def)
    with r have "''..'' \<in> set targ" by (simp add: path_rel_inside)
    with assms show False by blast
  qed
qed (rule path_rel_outside)

section \<open>path_checker.go\<close>

datatype path_status =
    PATH_STATUS_OK
  | PATH_ERROR_NOT_EXISTS
  | PATH_ERROR_ABSOLUTE_FAILED
  | PATH_ERROR_UNMATCHED_PREFIX
  | PATH_INVALID_FILE_FOLDER_TYPE
  | PATH_ERROR_NO_SUBPATH
  | PATH_ERROR_STAT_FAILED

text \<open>The reply to \<open>Stat\<close> starts with \<open>"dir"\<close> or \<open>"file"\<close>.\<close>

definition is_dir :: "os_reply \<Rightarrow> bool" where
  "is_dir r = (data r = ''dir'')"

definition IsValidPath ::
  "string option \<Rightarrow> string \<Rightarrow> string \<Rightarrow> bool \<Rightarrow> bool \<Rightarrow> path_status io" where
  "IsValidPath cwd path base file_required subpath_required =
     (case path_abs cwd path of
        None \<Rightarrow> return PATH_ERROR_ABSOLUTE_FAILED
      | Some abs_path \<Rightarrow>
     (case path_abs cwd base of
        None \<Rightarrow> return PATH_ERROR_ABSOLUTE_FAILED
      | Some abs_base \<Rightarrow>
     (let rel = path_rel abs_base abs_path in
      if rel \<noteq> [] \<and> hd rel = ''..'' then return PATH_ERROR_UNMATCHED_PREFIX
      else if subpath_required \<and> rel = [] then return PATH_ERROR_NO_SUBPATH
      else do {
        stat \<leftarrow> sys (Stat (path_string abs_path));
        (case stat of
           Fail NotExist \<Rightarrow> return PATH_ERROR_NOT_EXISTS
         | Fail _ \<Rightarrow> return PATH_ERROR_STAT_FAILED
         | Done _ \<Rightarrow>
             if (file_required \<and> is_dir stat) \<or> (\<not> file_required \<and> \<not> is_dir stat)
             then return PATH_INVALID_FILE_FOLDER_TYPE
             else return PATH_STATUS_OK)
      })))"

section \<open>subpath_writter.go\<close>

record subpath_writer =
  MaxFilesize :: nat
  OwnerName :: string
  Basepath :: string

datatype file_status =
    FILE_STATUS_OK
  | FILE_ERROR_NOT_EXISTS
  | FILE_ERROR_PERMISSION
  | FILE_ERROR_STAT
  | FILE_ERROR_GENERAL

datatype subpath_error =
    SubpathNotFound string string
  | SubpathTooLarge string string
  | SubpathEmpty string string
  | SubpathOS oserr

fun GetStatusByError :: "oserr \<Rightarrow> file_status" where
  "GetStatusByError NotExist = FILE_ERROR_NOT_EXISTS"
| "GetStatusByError Permission = FILE_ERROR_PERMISSION"
| "GetStatusByError OtherErr = FILE_ERROR_GENERAL"

text \<open>\<open>ReadFile\<close> and \<open>WriteFile\<close> answer a status and, on failure, the error.\<close>

definition sw_ReadFile :: "subpath_writer \<Rightarrow> string \<Rightarrow> (string \<times> file_status \<times> oserr option) io" where
  "sw_ReadFile this path = do {
     r \<leftarrow> sys (ReadFile (path_join (Basepath this) path));
     (case r of
        Fail e \<Rightarrow> return ([], GetStatusByError e, Some e)
      | Done _ \<Rightarrow> return (data r, FILE_STATUS_OK, None))
   }"

definition sw_WriteFile ::
  "subpath_writer \<Rightarrow> string \<Rightarrow> bool \<Rightarrow> string \<Rightarrow> (file_status \<times> oserr option) io" where
  "sw_WriteFile this path exist_only content = do {
     let fullpath = path_join (Basepath this) path;
     stat \<leftarrow> sys (Stat fullpath);
     (case (case stat of
              Done _ \<Rightarrow> Inr FILE_STATUS_OK
            | Fail e \<Rightarrow>
                (let status = GetStatusByError e in
                 if status = FILE_ERROR_NOT_EXISTS
                 then (if exist_only then Inl (status, Some e) else Inr status)
                 else Inl (FILE_ERROR_STAT, Some e))) of
        Inl failed \<Rightarrow> return failed
      | Inr status \<Rightarrow> do {
          r \<leftarrow> sys (WriteFile fullpath content);
          (case r of
             Fail e \<Rightarrow> return (GetStatusByError e, Some e)
           | Done _ \<Rightarrow> return (status, None))
        })
   }"

definition ReadSubpath ::
  "subpath_writer \<Rightarrow> string \<Rightarrow> bool \<Rightarrow> (subpath_error, string) result io" where
  "ReadSubpath this subpath emptyable = do {
     (content, status, err) \<leftarrow> sw_ReadFile this subpath;
     return
       (if status \<noteq> FILE_STATUS_OK \<or> err \<noteq> None
        then (if status = FILE_ERROR_NOT_EXISTS then Inl (SubpathNotFound (OwnerName this) subpath)
              else Inl (SubpathOS (the err)))
        else
          (let content = TrimSpace content in
           if MaxFilesize this < length content then Inl (SubpathTooLarge (OwnerName this) subpath)
           else if \<not> emptyable \<and> length content = 0 then Inl (SubpathEmpty (OwnerName this) subpath)
           else Inr content))
   }"

text \<open>
  \<open>WriteSubpath\<close> returns Go's \<open>error\<close>: \<open>None\<close> is \<open>nil\<close>. A status other than \<open>OK\<close> with a
  \<open>nil\<close> error (a permission status, say) would return that \<open>nil\<close>.
\<close>

definition WriteSubpath ::
  "subpath_writer \<Rightarrow> string \<Rightarrow> bool \<Rightarrow> string \<Rightarrow> subpath_error option io" where
  "WriteSubpath this subpath exist_only content = do {
     (status, err) \<leftarrow> sw_WriteFile this subpath exist_only content;
     return
       (if status \<noteq> FILE_STATUS_OK \<or> err \<noteq> None
        then (if status = FILE_ERROR_NOT_EXISTS then Some (SubpathNotFound (OwnerName this) subpath)
              else map_option SubpathOS err)
        else None)
   }"

section \<open>Facts about the two helpers\<close>

lemma emits_IsValidPath [emits_rules]:
  "(\<And>f. P (Stat f)) \<Longrightarrow> emits P (IsValidPath cwd path base file_required subpath_required)"
  unfolding IsValidPath_def
  by (intro emits_rules) (auto intro!: emits_rules split: os_reply.splits oserr.splits)

lemma emits_ReadSubpath [emits_rules]:
  "(\<And>f. P (ReadFile f)) \<Longrightarrow> emits P (ReadSubpath this subpath emptyable)"
  unfolding ReadSubpath_def sw_ReadFile_def
  by (intro emits_rules) (auto intro!: emits_rules split: os_reply.splits)

lemma emits_WriteSubpath [emits_rules]:
  "(\<And>f. P (Stat f)) \<Longrightarrow> (\<And>f. P (WriteFile f content)) \<Longrightarrow>
     emits P (WriteSubpath this subpath exist_only content)"
  unfolding WriteSubpath_def sw_WriteFile_def
  by (intro emits_rules) (auto intro!: emits_rules split: os_reply.splits)

lemma IsValidPath_below:
  assumes "fst (run_state (IsValidPath cwd path base file_required subpath_required) w) = PATH_STATUS_OK"
  obtains abs_path abs_base where
    "path_abs cwd path = Some abs_path" "path_abs cwd base = Some abs_base"
    "prefix abs_base abs_path" "subpath_required \<Longrightarrow> strict_prefix abs_base abs_path"
proof -
  from assms obtain abs_path where p: "path_abs cwd path = Some abs_path"
    by (auto simp: IsValidPath_def split: option.splits)
  from assms p obtain abs_base where b: "path_abs cwd base = Some abs_base"
    by (auto simp: IsValidPath_def split: option.splits)
  from assms p b have hd: "\<not> (path_rel abs_base abs_path \<noteq> [] \<and> hd (path_rel abs_base abs_path) = ''..'')"
    by (auto simp: IsValidPath_def Let_def split: if_splits)
  then have pre: "prefix abs_base abs_path"
    using path_rel_outside [of abs_base abs_path] by fastforce
  have "strict_prefix abs_base abs_path" if "subpath_required"
  proof -
    from assms p b hd that have "path_rel abs_base abs_path \<noteq> []"
      by (auto simp: IsValidPath_def Let_def split: if_splits)
    moreover from pre obtain q where "abs_path = abs_base @ q" by (auto simp: prefix_def)
    ultimately show ?thesis by (auto simp: path_rel_inside strict_prefix_def)
  qed
  with p b pre show ?thesis by (rule that)
qed

end
