(* ===== verification/Input_Device.thy ===== *)
theory Input_Device
  imports Base_Files
begin

text \<open>
  Package \<open>core/input\<close> (\<open>handler.go\<close>): the physical button. The goroutine \<open>daemon\<close> turns
  key-down and key-up events into taps and long taps, a timer reports a long tap while the
  button is still held, and \<open>DrainEvents\<close> merges quick taps into one multiple tap before
  the main loop sees them. IPC pushes synthetic events through \<open>InjectEvent\<close> and
  \<open>InjectPress\<close>.

  \<open>wake\<close> is the one-slot channel (\<open>None\<close> is the \<open>nil\<close> channel); a timer is its due time.
  A timer callback may run at any moment, even after \<open>Stop\<close>, since it only waits for the
  lock: \<open>long_tap_fire\<close> is the callback's locked body. The mutex makes each operation
  atomic. The two unlocked reads of \<open>pressed\<close> in \<open>daemon\<close> see that goroutine's own writes,
  unless \<open>InjectPress\<close> runs at the same time.
\<close>

section \<open>Data\<close>

datatype input_event_type = INPUT_TAP | INPUT_MULTIPLE_TAP | INPUT_LONG_TAP | INPUT_ERROR

datatype input_exit_status =
    DEVICE_STATUS_NORMAL
  | DEVICE_STATUS_DEVICE_REMOVED
  | DEVICE_ERROR_OPEN_DEVICE
  | DEVICE_ERROR_GRAB_DEVICE
  | DEVICE_ERROR_READ_EVENT
  | DEVICE_ERROR_NIL_DEVICE
  | DEVICE_ERROR_RELEASE

record input_event =
  ev_Time :: int
  ev_Devnode :: string
  ev_Type :: input_event_type
  ev_Duration :: int
  ev_TapCount :: nat
  ev_Error :: "string option"
  ev_Status :: input_exit_status

record input_config =
  LongTapImmediately :: bool
  LongTapThreshold :: int
  MultipleTapThreshold :: int
  MultipleTapMaxCount :: nat

record input_device =
  Config :: input_config
  input_devnode :: string
  device :: bool
  pressed :: bool
  press_start :: int
  long_tap_reported :: bool
  event_queue :: "input_event list"
  running :: bool
  wake :: "bool option"
  long_tap_timer :: "int option"
  multi_tap_timer :: "int option"

abbreviation (input) TIME_ZERO :: int where
  "TIME_ZERO \<equiv> 0"

abbreviation (input) Millisecond :: int where
  "Millisecond \<equiv> 1000000"

abbreviation (input) Second :: int where
  "Second \<equiv> 1000000000"

section \<open>Operations\<close>

definition reset_press :: "input_device \<Rightarrow> input_device" where
  "reset_press this = this\<lparr>pressed := False, press_start := TIME_ZERO\<rparr>"

definition signal_wake :: "input_device \<Rightarrow> input_device" where
  "signal_wake this = (case wake this of None \<Rightarrow> this | Some _ \<Rightarrow> this\<lparr>wake := Some True\<rparr>)"

definition stop_long_tap_timer_locked :: "input_device \<Rightarrow> input_device" where
  "stop_long_tap_timer_locked this = this\<lparr>long_tap_timer := None\<rparr>"

definition stop_multi_tap_timer_locked :: "input_device \<Rightarrow> input_device" where
  "stop_multi_tap_timer_locked this = this\<lparr>multi_tap_timer := None\<rparr>"

definition arm_multi_tap_timer_locked :: "int \<Rightarrow> int \<Rightarrow> input_device \<Rightarrow> input_device" where
  "arm_multi_tap_timer_locked t d this =
     (let this = stop_multi_tap_timer_locked this in
      if d \<le> 0 then signal_wake this else this\<lparr>multi_tap_timer := Some (t + d)\<rparr>)"

definition arm_long_tap_timer_locked :: "int \<Rightarrow> input_device \<Rightarrow> input_device" where
  "arm_long_tap_timer_locked t this =
     (let this = stop_long_tap_timer_locked this in
      if \<not> LongTapImmediately (Config this) \<or> LongTapThreshold (Config this) \<le> 0 then this
      else this\<lparr>long_tap_timer := Some (t + LongTapThreshold (Config this))\<rparr>)"

text \<open>The callback of the long-tap timer, at time \<open>t\<close>.\<close>

definition long_tap_fire :: "int \<Rightarrow> input_device \<Rightarrow> input_device" where
  "long_tap_fire t this =
     (if \<not> pressed this \<or> long_tap_reported this then this
      else
        (let duration = t - press_start this in
         if duration < LongTapThreshold (Config this) then this
         else signal_wake
           (this\<lparr>long_tap_reported := True,
                 event_queue := event_queue this @
                   [\<lparr>ev_Time = t, ev_Devnode = input_devnode this, ev_Type = INPUT_LONG_TAP,
                     ev_Duration = duration, ev_TapCount = 1, ev_Error = None,
                     ev_Status = DEVICE_STATUS_NORMAL\<rparr>]\<rparr>)))"

text \<open>The callback of the multiple-tap timer.\<close>

definition multi_tap_fire :: "input_device \<Rightarrow> input_device" where
  "multi_tap_fire this = signal_wake this"

text \<open>\<open>Open\<close>: what \<open>evdev.Open\<close> and \<open>Grab\<close> answer are the two flags.\<close>

definition Open :: "bool \<Rightarrow> bool \<Rightarrow> input_device \<Rightarrow> input_exit_status \<times> input_device" where
  "Open open_ok grab_ok this =
     (if \<not> open_ok then (DEVICE_ERROR_OPEN_DEVICE, this)
      else if \<not> grab_ok then (DEVICE_ERROR_GRAB_DEVICE, this)
      else (DEVICE_STATUS_NORMAL,
            this\<lparr>device := True, running := True,
                 wake := (case wake this of None \<Rightarrow> Some False | Some b \<Rightarrow> Some b)\<rparr>))"

definition Close :: "bool \<Rightarrow> input_device \<Rightarrow> input_exit_status \<times> input_device" where
  "Close release_ok this =
     (if \<not> device this then (DEVICE_ERROR_NIL_DEVICE, this)
      else
        (let this = stop_multi_tap_timer_locked (stop_long_tap_timer_locked this) in
         if \<not> release_ok then (DEVICE_ERROR_RELEASE, this)
         else (DEVICE_STATUS_NORMAL, this\<lparr>device := False, running := False\<rparr>)))"

record evdev_event =
  evdev_Type :: nat
  evdev_Value :: int
  evdev_Time :: int

definition EV_KEY :: nat where
  "EV_KEY = 1"

definition key_down :: "int \<Rightarrow> int \<Rightarrow> input_device \<Rightarrow> input_device" where
  "key_down t event_time this =
     (if pressed this then this
      else signal_wake (arm_long_tap_timer_locked t
             (this\<lparr>pressed := True, press_start := event_time, long_tap_reported := False\<rparr>)))"

definition key_up :: "int \<Rightarrow> input_device \<Rightarrow> input_device" where
  "key_up event_time this =
     (if \<not> pressed this then this
      else
        (let this = stop_long_tap_timer_locked this;
             this = (if press_start this = TIME_ZERO then this\<lparr>press_start := event_time\<rparr> else this);
             duration = event_time - press_start this in
         if long_tap_reported this
         then signal_wake (reset_press (this\<lparr>long_tap_reported := False\<rparr>))
         else
           (let e = \<lparr>ev_Time = event_time, ev_Devnode = input_devnode this,
                     ev_Type = (if LongTapThreshold (Config this) \<le> duration then INPUT_LONG_TAP
                                else INPUT_TAP),
                     ev_Duration = duration, ev_TapCount = 1, ev_Error = None,
                     ev_Status = DEVICE_STATUS_NORMAL\<rparr>;
                this = reset_press this
            in signal_wake (this\<lparr>event_queue := event_queue this @ [e]\<rparr>))))"

text \<open>One evdev event, processed at time \<open>t\<close>: other types and values are skipped.\<close>

definition handle_key :: "int \<Rightarrow> evdev_event \<Rightarrow> input_device \<Rightarrow> input_device" where
  "handle_key t event this =
     (if evdev_Type event \<noteq> EV_KEY then this
      else if evdev_Value event = 1 then key_down t (evdev_Time event) this
      else if evdev_Value event = 0 then key_up (evdev_Time event) this
      else this)"

text \<open>The goroutine: the answers of \<open>device.Read\<close>, each with the time it is processed.\<close>

datatype read_result = ReadEvents "evdev_event list" | ReadENODEV | ReadError

fun input_daemon :: "(int \<times> read_result) list \<Rightarrow> input_device \<Rightarrow> input_device" where
  "input_daemon [] this = this"
| "input_daemon ((t, r) # rs) this =
     (if \<not> running this \<or> \<not> device this then this
      else (case r of
              ReadENODEV \<Rightarrow> this
            | ReadError \<Rightarrow> input_daemon rs this
            | ReadEvents es \<Rightarrow> input_daemon rs (fold (handle_key t) es this)))"

definition InputState :: "int \<Rightarrow> input_device \<Rightarrow> input_event option" where
  "InputState t this =
     (if \<not> pressed this then None
      else
        (let start = (if press_start this = TIME_ZERO then t else press_start this);
             duration = t - start in
         Some \<lparr>ev_Time = t, ev_Devnode = input_devnode this,
               ev_Type = (if LongTapThreshold (Config this) \<le> duration then INPUT_LONG_TAP
                          else INPUT_TAP),
               ev_Duration = duration, ev_TapCount = 1, ev_Error = None,
               ev_Status = DEVICE_STATUS_NORMAL\<rparr>))"

definition InjectEvent :: "input_event option \<Rightarrow> input_device \<Rightarrow> input_device" where
  "InjectEvent event this =
     (case event of
        None \<Rightarrow> this
      | Some e \<Rightarrow> signal_wake (this\<lparr>event_queue := event_queue this @ [e]\<rparr>))"

definition InjectPress :: "int \<Rightarrow> int \<Rightarrow> input_device \<Rightarrow> input_device" where
  "InjectPress t duration this =
     signal_wake (this\<lparr>pressed := True, press_start := t - duration, long_tap_reported := True\<rparr>)"

definition merge_chain_events :: "input_event list \<Rightarrow> input_event" where
  "merge_chain_events chain =
     (if length chain = 1 then (hd chain)\<lparr>ev_Type := INPUT_TAP, ev_TapCount := 1\<rparr>
      else (last chain)\<lparr>ev_Type := INPUT_MULTIPLE_TAP, ev_TapCount := length chain,
                        ev_Duration := ev_Time (last chain) - ev_Time (hd chain)\<rparr>)"

text \<open>The condition under which \<open>event\<close> does not join the chain.\<close>

definition breaks_chain :: "input_config \<Rightarrow> input_event list \<Rightarrow> input_event \<Rightarrow> bool" where
  "breaks_chain config chain event \<longleftrightarrow>
     ev_Type event \<noteq> INPUT_TAP \<or>
     (chain \<noteq> [] \<and> MultipleTapThreshold config < ev_Time event - ev_Time (last chain)) \<or>
     MultipleTapMaxCount config \<le> length chain"

text \<open>The loop of \<open>DrainEvents\<close>: the chain so far, the result so far, the events to come.\<close>

fun drain_loop ::
  "input_config \<Rightarrow> input_event list \<Rightarrow> input_event list \<Rightarrow> input_event list \<Rightarrow>
     input_event list \<times> input_event list" where
  "drain_loop config chain result [] = (chain, result)"
| "drain_loop config chain result (event # events) =
     (if breaks_chain config chain event
      then drain_loop config []
             (result @ (if chain \<noteq> [] then [merge_chain_events chain] else []) @ [event]) events
      else drain_loop config (chain @ [event]) result events)"

definition DrainEvents :: "int \<Rightarrow> input_device \<Rightarrow> input_event list \<times> input_device" where
  "DrainEvents t this =
     (if event_queue this = [] then ([], this)
      else
        (let events = event_queue this; this = this\<lparr>event_queue := []\<rparr> in
         if MultipleTapThreshold (Config this) < 0 then (events, this)
         else
           (let (chain, result) = drain_loop (Config this) [] [] events;
                this = stop_multi_tap_timer_locked this in
            if chain = [] then (result, this)
            else
              (let since = t - ev_Time (last chain) in
               if MultipleTapThreshold (Config this) < since
               then (result @ [merge_chain_events chain], this)
               else (result,
                     arm_multi_tap_timer_locked t (MultipleTapThreshold (Config this) - since)
                       (this\<lparr>event_queue := chain\<rparr>))))))"

definition default_config :: "input_config option \<Rightarrow> input_config" where
  "default_config config =
     (let c = (case config of
                 None \<Rightarrow> \<lparr>LongTapImmediately = False, LongTapThreshold = 0,
                          MultipleTapThreshold = 0, MultipleTapMaxCount = 0\<rparr>
               | Some c \<Rightarrow> c);
          c = (if LongTapThreshold c \<le> 0 then c\<lparr>LongTapThreshold := 300 * Millisecond\<rparr> else c);
          c = (if MultipleTapThreshold c = 0 then c\<lparr>MultipleTapThreshold := 300 * Millisecond\<rparr> else c)
      in if MultipleTapMaxCount c < 2 then c\<lparr>MultipleTapMaxCount := 5\<rparr> else c)"

definition NewSyntheticDevice :: "input_config option \<Rightarrow> input_device" where
  "NewSyntheticDevice config =
     \<lparr>Config = default_config config, input_devnode = [], device = False, pressed = False,
      press_start = TIME_ZERO, long_tap_reported = False, event_queue = [], running = False,
      wake = Some False, long_tap_timer = None, multi_tap_timer = None\<rparr>"

datatype input_error = InvalidInputDevnode path_status

definition input_check :: "string option \<Rightarrow> input_device \<Rightarrow> (input_error, unit) result io" where
  "input_check cwd this = do {
     status \<leftarrow> IsValidPath cwd (input_devnode this) ''/dev/input/'' True True;
     return (if status \<noteq> PATH_STATUS_OK then Inl (InvalidInputDevnode status) else Inr ())
   }"

definition NewDevice ::
  "string option \<Rightarrow> string \<Rightarrow> input_config option \<Rightarrow> (input_error, input_device) result io" where
  "NewDevice cwd devnode config = do {
     let this = (NewSyntheticDevice config)\<lparr>input_devnode := devnode\<rparr>;
     checked \<leftarrow> input_check cwd this;
     return (case checked of Inl e \<Rightarrow> Inl e | Inr _ \<Rightarrow> Inr this)
   }"

section \<open>The device as a step relation\<close>

text \<open>
  Every way the device can move: a key event, a timer callback (at any time), an injected
  event or press, a drain by the main loop, and the main loop receiving the wake signal.
\<close>

inductive input_step :: "input_device \<Rightarrow> input_device \<Rightarrow> bool" where
  key: "input_step d (handle_key t e d)"
| fire: "input_step d (long_tap_fire t d)"
| multi_fire: "input_step d (multi_tap_fire d)"
| inject: "ev_Type e \<noteq> INPUT_MULTIPLE_TAP \<Longrightarrow> input_step d (InjectEvent (Some e) d)"
| inject_press: "input_step d (InjectPress t dur d)"
| drain: "input_step d (snd (DrainEvents t d))"
| receive: "wake d = Some True \<Longrightarrow> input_step d (d\<lparr>wake := Some False\<rparr>)"

definition raw_queue :: "input_event list \<Rightarrow> bool" where
  "raw_queue q = list_all (\<lambda>e. ev_Type e \<noteq> INPUT_MULTIPLE_TAP) q"

definition input_inv :: "input_device \<Rightarrow> bool" where
  "input_inv d \<longleftrightarrow>
     raw_queue (event_queue d) \<and> wake d \<noteq> None \<and> (long_tap_reported d \<longrightarrow> pressed d) \<and>
     (\<not> pressed d \<longrightarrow> press_start d = TIME_ZERO)"

text \<open>A whole press: key down, any timer callbacks while it is held, key up.\<close>

definition run_press :: "int \<Rightarrow> int \<Rightarrow> int list \<Rightarrow> int \<Rightarrow> input_device \<Rightarrow> input_device" where
  "run_press t down fires up d = key_up up (fold long_tap_fire fires (key_down t down d))"

text \<open>
  What draining promises: the drained events are cut into groups, each one event or a chain
  of at least two quick taps.
\<close>

definition tap_chain :: "input_config \<Rightarrow> input_event list \<Rightarrow> bool" where
  "tap_chain config g \<longleftrightarrow>
     length g \<le> MultipleTapMaxCount config \<and> list_all (\<lambda>e. ev_Type e = INPUT_TAP) g \<and>
     successively (\<lambda>a b. ev_Time b - ev_Time a \<le> MultipleTapThreshold config) g"

definition group_event :: "input_event list \<Rightarrow> input_event" where
  "group_event g = (if length g = 1 then hd g else merge_chain_events g)"

definition single_taps :: "input_event list \<Rightarrow> bool" where
  "single_taps q = list_all (\<lambda>e. ev_Type e = INPUT_TAP \<longrightarrow> ev_TapCount e = 1) q"

definition valid_group :: "input_config \<Rightarrow> input_event list \<Rightarrow> bool" where
  "valid_group config g \<longleftrightarrow> length g = 1 \<or> (2 \<le> length g \<and> tap_chain config g)"

section \<open>Presses\<close>

lemmas input_defs =
  signal_wake_def reset_press_def stop_long_tap_timer_locked_def stop_multi_tap_timer_locked_def
  arm_multi_tap_timer_locked_def arm_long_tap_timer_locked_def Let_def

lemma signal_wake_simps [simp]:
  "event_queue (signal_wake d) = event_queue d"
  "pressed (signal_wake d) = pressed d"
  "press_start (signal_wake d) = press_start d"
  "long_tap_reported (signal_wake d) = long_tap_reported d"
  "Config (signal_wake d) = Config d"
  "input_devnode (signal_wake d) = input_devnode d"
  "long_tap_timer (signal_wake d) = long_tap_timer d"
  "multi_tap_timer (signal_wake d) = multi_tap_timer d"
  "wake (signal_wake d) = (if wake d = None then None else Some True)"
  by (simp_all add: signal_wake_def split: option.splits)

lemma key_down_simps [simp]:
  "event_queue (key_down t down d) = event_queue d"
  "Config (key_down t down d) = Config d"
  "pressed (key_down t down d)"
  "\<not> pressed d \<Longrightarrow> press_start (key_down t down d) = down"
  "\<not> pressed d \<Longrightarrow> \<not> long_tap_reported (key_down t down d)"
  by (simp_all add: key_down_def arm_long_tap_timer_locked_def stop_long_tap_timer_locked_def Let_def)

lemma long_tap_fire_frame [simp]:
  "Config (long_tap_fire t d) = Config d"
  "pressed (long_tap_fire t d) = pressed d"
  "press_start (long_tap_fire t d) = press_start d"
  by (simp_all add: long_tap_fire_def Let_def)

lemma fold_long_tap_fire_frame [simp]:
  "Config (fold long_tap_fire ts d) = Config d"
  "pressed (fold long_tap_fire ts d) = pressed d"
  "press_start (fold long_tap_fire ts d) = press_start d"
  by (induction ts arbitrary: d) simp_all

lemma long_tap_fire_reported: "long_tap_reported d \<Longrightarrow> long_tap_fire t d = d"
  by (simp add: long_tap_fire_def)

lemma fold_long_tap_fire_reported: "long_tap_reported d \<Longrightarrow> fold long_tap_fire ts d = d"
  by (induction ts) (simp_all add: long_tap_fire_reported)

text \<open>However often the callback runs, it reports the held button at most once.\<close>

lemma fold_long_tap_fire:
  assumes "pressed d" and "\<not> long_tap_reported d"
  shows "(\<exists>t \<in> set ts. LongTapThreshold (Config d) \<le> t - press_start d) \<and>
         long_tap_reported (fold long_tap_fire ts d) \<and>
         (\<exists>e. event_queue (fold long_tap_fire ts d) = event_queue d @ [e] \<and>
              ev_Type e = INPUT_LONG_TAP \<and> ev_TapCount e = 1)
       \<or> (\<forall>t \<in> set ts. t - press_start d < LongTapThreshold (Config d)) \<and>
         fold long_tap_fire ts d = d"
  using assms
proof (induction ts arbitrary: d)
  case (Cons t ts)
  show ?case
  proof (cases "t - press_start d < LongTapThreshold (Config d)")
    case True
    with Cons.prems have "long_tap_fire t d = d" by (simp add: long_tap_fire_def Let_def)
    with True Cons show ?thesis by simp
  next
    case False
    with Cons.prems have f: "long_tap_reported (long_tap_fire t d)"
      "\<exists>e. event_queue (long_tap_fire t d) = event_queue d @ [e] \<and>
           ev_Type e = INPUT_LONG_TAP \<and> ev_TapCount e = 1"
      by (simp_all add: long_tap_fire_def Let_def)
    with False show ?thesis
      by (simp add: fold_long_tap_fire_reported)
  qed
qed simp

lemma key_up_reported:
  "pressed d \<Longrightarrow> long_tap_reported d \<Longrightarrow> event_queue (key_up up d) = event_queue d"
  by (simp add: key_up_def reset_press_def stop_long_tap_timer_locked_def Let_def)

lemma key_up_unreported:
  "pressed d \<Longrightarrow> \<not> long_tap_reported d \<Longrightarrow> press_start d \<noteq> TIME_ZERO \<Longrightarrow>
   \<exists>e. event_queue (key_up up d) = event_queue d @ [e] \<and> ev_TapCount e = 1 \<and>
     ev_Type e = (if LongTapThreshold (Config d) \<le> up - press_start d then INPUT_LONG_TAP else INPUT_TAP)"
  by (simp add: key_up_def reset_press_def stop_long_tap_timer_locked_def Let_def)

lemma key_up_released [simp]: "\<not> pressed (key_up up d)"
  by (simp add: key_up_def reset_press_def stop_long_tap_timer_locked_def Let_def)

lemma key_up_reported_flag: "(long_tap_reported d \<longrightarrow> pressed d) \<Longrightarrow> \<not> long_tap_reported (key_up up d)"
  by (auto simp: key_up_def reset_press_def stop_long_tap_timer_locked_def Let_def)

lemma key_up_start: "(\<not> pressed d \<longrightarrow> press_start d = TIME_ZERO) \<Longrightarrow> press_start (key_up up d) = TIME_ZERO"
  by (simp add: key_up_def reset_press_def stop_long_tap_timer_locked_def Let_def)

lemma key_up_wake: "wake (key_up up d) = None \<longleftrightarrow> wake d = None"
  by (simp add: key_up_def reset_press_def stop_long_tap_timer_locked_def Let_def)

section \<open>Draining\<close>

lemma tap_chain_Nil [simp]: "tap_chain config []"
  by (simp add: tap_chain_def)

lemma tap_chain_snoc:
  "tap_chain config chain \<Longrightarrow> \<not> breaks_chain config chain e \<Longrightarrow> tap_chain config (chain @ [e])"
  by (auto simp: tap_chain_def breaks_chain_def successively_append_iff not_le)

lemma tap_chain_valid_group: "tap_chain config chain \<Longrightarrow> chain \<noteq> [] \<Longrightarrow> valid_group config chain"
  by (cases chain; cases "tl chain") (auto simp: valid_group_def)

lemma valid_group_single [simp]: "valid_group config [e]"
  by (simp add: valid_group_def)

lemma merge_single: "ev_Type e = INPUT_TAP \<Longrightarrow> ev_TapCount e = 1 \<Longrightarrow> merge_chain_events [e] = e"
  by (simp add: merge_chain_events_def)

lemma merge_group:
  assumes "tap_chain config chain" and "chain \<noteq> []" and "single_taps chain"
  shows "merge_chain_events chain = group_event chain"
proof (cases "length chain = 1")
  case True
  then obtain e where "chain = [e]" by (cases chain) auto
  with assms show ?thesis
    by (simp add: merge_single group_event_def tap_chain_def single_taps_def)
qed (simp add: group_event_def)

lemma drain_loop_groups:
  assumes "tap_chain config chain" and "single_taps (chain @ events)"
    and "drain_loop config chain result events = (rest, result')"
  shows "\<exists>gs. chain @ events = concat gs @ rest \<and> result' = result @ map group_event gs \<and>
     list_all (valid_group config) gs \<and> tap_chain config rest"
  using assms
proof (induction config chain result events rule: drain_loop.induct)
  case (1 config chain result)
  then show ?case by (intro exI [of _ "[]"]) simp
next
  case (2 config chain result e es)
  show ?case
  proof (cases "breaks_chain config chain e")
    case False
    with 2 show ?thesis by (simp add: tap_chain_snoc)
  next
    case True
    define pre where "pre = (if chain \<noteq> [] then [chain] else [])"
    have pre: "concat pre = chain" "list_all (valid_group config) pre"
      using tap_chain_valid_group [OF "2.prems"(1)] by (simp_all add: pre_def)
    have "map group_event pre = (if chain \<noteq> [] then [merge_chain_events chain] else [])"
      using merge_group [OF "2.prems"(1)] "2.prems"(2) by (simp add: pre_def single_taps_def)
    with True "2.prems"(3) have
      "drain_loop config [] (result @ map group_event (pre @ [[e]])) es = (rest, result')"
      by (simp add: group_event_def)
    moreover have "single_taps es" using "2.prems"(2) by (simp add: single_taps_def)
    ultimately obtain gs where gs: "es = concat gs @ rest"
      "result' = (result @ map group_event (pre @ [[e]])) @ map group_event gs"
      "list_all (valid_group config) gs" "tap_chain config rest"
      using "2.IH"(1) [OF True] \<open>map group_event pre = _\<close>
      by (auto simp: group_event_def)
    with pre show ?thesis
      by (intro exI [of _ "pre @ [[e]] @ gs"]) simp
  qed
qed

lemma DrainEvents_frame [simp]:
  "Config (snd (DrainEvents t d)) = Config d"
  "pressed (snd (DrainEvents t d)) = pressed d"
  "press_start (snd (DrainEvents t d)) = press_start d"
  "long_tap_reported (snd (DrainEvents t d)) = long_tap_reported d"
  "wake (snd (DrainEvents t d)) = None \<longleftrightarrow> wake d = None"
  by (auto simp: DrainEvents_def Let_def stop_multi_tap_timer_locked_def
      arm_multi_tap_timer_locked_def split: prod.splits)

text \<open>The four ways a drain ends.\<close>

lemma DrainEvents_cases:
  assumes "DrainEvents t d = (result, d')"
  obtains (empty) "event_queue d = []" "result = []" "d' = d"
  | (disabled) "event_queue d \<noteq> []" "MultipleTapThreshold (Config d) < 0" "result = event_queue d"
      "event_queue d' = []"
  | (flushed) chain res where "event_queue d \<noteq> []" "0 \<le> MultipleTapThreshold (Config d)"
      "drain_loop (Config d) [] [] (event_queue d) = (chain, res)" "event_queue d' = []"
      "chain = [] \<or> MultipleTapThreshold (Config d) < t - ev_Time (last chain)"
      "result = res @ (if chain = [] then [] else [merge_chain_events chain])"
  | (deferred) chain where "event_queue d \<noteq> []" "0 \<le> MultipleTapThreshold (Config d)"
      "drain_loop (Config d) [] [] (event_queue d) = (chain, result)" "chain \<noteq> []"
      "t - ev_Time (last chain) \<le> MultipleTapThreshold (Config d)" "event_queue d' = chain"
      "if t < ev_Time (last chain) + MultipleTapThreshold (Config d)
       then multi_tap_timer d' = Some (ev_Time (last chain) + MultipleTapThreshold (Config d))
       else wake d' = (if wake d = None then None else Some True)"
proof -
  obtain chain res where l: "drain_loop (Config d) [] [] (event_queue d) = (chain, res)"
    by (cases "drain_loop (Config d) [] [] (event_queue d)")
  show thesis
  proof (cases "event_queue d = [] \<or> MultipleTapThreshold (Config d) < 0")
    case True
    with assms show thesis
      by (cases "event_queue d = []") (auto simp: DrainEvents_def Let_def intro: empty disabled)
  next
    case ne: False
    show thesis
    proof (cases "chain = [] \<or> MultipleTapThreshold (Config d) < t - ev_Time (last chain)")
      case True
      with assms ne l show thesis
        by (intro flushed [of chain res])
          (auto simp: DrainEvents_def Let_def stop_multi_tap_timer_locked_def split: if_splits)
    next
      case False
      with assms ne l show thesis
        by (intro deferred [of chain])
          (auto simp: DrainEvents_def Let_def stop_multi_tap_timer_locked_def
            arm_multi_tap_timer_locked_def)
    qed
  qed
qed

lemma DrainEvents_groups:
  assumes drain: "DrainEvents t d = (result, d')" and st: "single_taps (event_queue d)"
  shows "\<exists>gs. event_queue d = concat gs @ event_queue d' \<and> result = map group_event gs \<and>
     list_all (valid_group (Config d)) gs \<and> tap_chain (Config d) (event_queue d')"
  using drain
proof (cases rule: DrainEvents_cases)
  case empty
  then show ?thesis by (intro exI [of _ "[]"]) simp
next
  case disabled
  have "concat (map (\<lambda>e. [e]) q) = q" "map (group_event \<circ> (\<lambda>e. [e])) q = q" for q
    by (induction q) (simp_all add: group_event_def)
  with disabled show ?thesis
    by (intro exI [of _ "map (\<lambda>e. [e]) (event_queue d)"]) (simp add: list_all_iff)
next
  case (flushed chain res)
  from drain_loop_groups [OF tap_chain_Nil _ flushed(3)] st
  obtain gs where gs: "event_queue d = concat gs @ chain" "res = map group_event gs"
    "list_all (valid_group (Config d)) gs" "tap_chain (Config d) chain"
    by auto
  show ?thesis
  proof (cases "chain = []")
    case True
    with gs flushed show ?thesis by (intro exI [of _ gs]) simp
  next
    case False
    from st gs(1) have "single_taps chain" by (simp add: single_taps_def)
    with False gs have "merge_chain_events chain = group_event chain"
      by (intro merge_group)
    with False gs flushed tap_chain_valid_group [OF gs(4) False] show ?thesis
      by (intro exI [of _ "gs @ [chain]"]) simp
  qed
next
  case (deferred chain)
  from drain_loop_groups [OF tap_chain_Nil _ deferred(3)] st deferred(6) show ?thesis
    by auto
qed

lemma successively_TAP_raw: "tap_chain config q \<Longrightarrow> raw_queue q"
  by (auto simp: tap_chain_def raw_queue_def list_all_iff)

lemma drain_loop_rest_raw:
  "drain_loop config chain result events = (rest, result') \<Longrightarrow>
     raw_queue chain \<Longrightarrow> raw_queue events \<Longrightarrow> raw_queue rest"
  by (induction config chain result events rule: drain_loop.induct)
    (auto simp: raw_queue_def split: if_splits)

lemma DrainEvents_raw:
  assumes "raw_queue (event_queue d)"
  shows "raw_queue (event_queue (snd (DrainEvents t d)))"
proof -
  obtain result d' where drain: "DrainEvents t d = (result, d')" by (cases "DrainEvents t d")
  then show ?thesis
    by (cases rule: DrainEvents_cases)
      (use assms drain in \<open>auto simp: raw_queue_def dest: drain_loop_rest_raw [unfolded raw_queue_def]\<close>)
qed

section \<open>The invariant\<close>

lemma input_inv_intro_frame:
  "input_inv d \<Longrightarrow> raw_queue (event_queue d') \<Longrightarrow> wake d' \<noteq> None \<Longrightarrow> pressed d' = pressed d \<Longrightarrow>
   press_start d' = press_start d \<Longrightarrow> long_tap_reported d' = long_tap_reported d \<Longrightarrow> input_inv d'"
  by (simp add: input_inv_def)

lemma key_down_inv: "input_inv d \<Longrightarrow> input_inv (key_down t down d)"
  by (auto simp: input_inv_def key_down_def arm_long_tap_timer_locked_def
      stop_long_tap_timer_locked_def Let_def)

lemma key_up_inv: "input_inv d \<Longrightarrow> input_inv (key_up up d)"
  by (auto simp: input_inv_def key_up_def reset_press_def stop_long_tap_timer_locked_def
      raw_queue_def Let_def)

lemma handle_key_inv: "input_inv d \<Longrightarrow> input_inv (handle_key t e d)"
  by (simp add: handle_key_def key_down_inv key_up_inv)

lemma long_tap_fire_inv: "input_inv d \<Longrightarrow> input_inv (long_tap_fire t d)"
  by (auto simp: input_inv_def long_tap_fire_def raw_queue_def Let_def)

lemma InjectEvent_inv:
  "input_inv d \<Longrightarrow> ev_Type e \<noteq> INPUT_MULTIPLE_TAP \<Longrightarrow> input_inv (InjectEvent (Some e) d)"
  by (auto simp: input_inv_def InjectEvent_def raw_queue_def)

lemma InjectPress_inv: "input_inv d \<Longrightarrow> input_inv (InjectPress t dur d)"
  by (auto simp: input_inv_def InjectPress_def raw_queue_def Let_def)

lemma DrainEvents_inv: "input_inv d \<Longrightarrow> input_inv (snd (DrainEvents t d))"
  by (rule input_inv_intro_frame) (simp_all add: input_inv_def DrainEvents_raw)

lemma input_step_inv: "input_step d d' \<Longrightarrow> input_inv d \<Longrightarrow> input_inv d'"
proof (induction rule: input_step.induct)
  case (multi_fire d)
  then show ?case by (auto simp: input_inv_def multi_tap_fire_def)
next
  case (receive d)
  then show ?case by (auto simp: input_inv_def)
qed (simp_all add: handle_key_inv long_tap_fire_inv InjectEvent_inv InjectPress_inv DrainEvents_inv)

lemma NewSyntheticDevice_inv: "input_inv (NewSyntheticDevice config)"
  by (simp add: input_inv_def NewSyntheticDevice_def raw_queue_def)

lemma default_config_wf:
  "0 < LongTapThreshold (default_config c)"
  "MultipleTapThreshold (default_config c) \<noteq> 0"
  "2 \<le> MultipleTapMaxCount (default_config c)"
  by (auto simp: default_config_def Let_def)

section \<open>Properties of the button\<close>

lemmas input_init_simps = NewSyntheticDevice_def default_config_def Let_def

text \<open>C28: A press of the button is reported exactly once. Key down, any number of callbacks of
  the long-tap timer at any times, and key up append one event to the queue: a long tap when a
  callback or the release saw the threshold passed, a tap otherwise.\<close>

theorem press_reported_once:
  assumes "\<not> pressed d" and "down \<noteq> TIME_ZERO"
  shows "\<exists>e. event_queue (run_press t down fires up d) = event_queue d @ [e] \<and> ev_TapCount e = 1 \<and>
     ev_Type e =
       (if (\<exists>f \<in> set fires. LongTapThreshold (Config d) \<le> f - down) \<or>
           LongTapThreshold (Config d) \<le> up - down
        then INPUT_LONG_TAP else INPUT_TAP)"
proof -
  define d1 where "d1 = key_down t down d"
  define d2 where "d2 = fold long_tap_fire fires d1"
  have d1: "pressed d1" "\<not> long_tap_reported d1" "press_start d1 = down" "Config d1 = Config d"
    "event_queue d1 = event_queue d"
    using assms(1) by (simp_all add: d1_def)
  have d2: "pressed d2" "press_start d2 = down" "Config d2 = Config d"
    using d1 by (simp_all add: d2_def)
  have run: "run_press t down fires up d = key_up up d2"
    by (simp add: run_press_def d1_def d2_def)
  from fold_long_tap_fire [OF d1(1,2), of fires] d1
  consider (held) e where "\<exists>f \<in> set fires. LongTapThreshold (Config d) \<le> f - down"
      "long_tap_reported d2" "event_queue d2 = event_queue d @ [e]"
      "ev_Type e = INPUT_LONG_TAP" "ev_TapCount e = 1"
    | (quiet) "\<forall>f \<in> set fires. f - down < LongTapThreshold (Config d)" "d2 = d1"
    unfolding d2_def [symmetric] by auto
  then show ?thesis
  proof cases
    case held
    with key_up_reported [OF d2(1), of up] run show ?thesis by simp
  next
    case quiet
    have "\<not> (\<exists>f \<in> set fires. LongTapThreshold (Config d) \<le> f - down)"
      using quiet(1) by force
    with key_up_unreported [OF d1(1,2), of up] assms(2) d1 run quiet(2) show ?thesis by simp
  qed
qed


theorem press_reported_once_witness:
  "\<exists>e. event_queue (run_press 5 5 [9, 400000005, 500000000] 600000005 (NewSyntheticDevice None)) = [e] \<and>
     ev_Type e = INPUT_LONG_TAP"
  using press_reported_once [of "NewSyntheticDevice None" 5 5 "[9, 400000005, 500000000]" 600000005]
  by (auto simp: input_init_simps)

text \<open>With immediate long taps the timer that key down arms is due late enough: whenever its
  callback runs at or after the due time, it reports the long tap of the button still held.\<close>

theorem armed_timer_reports:
  assumes "\<not> pressed d" and "LongTapImmediately (Config d)" and "0 < LongTapThreshold (Config d)"
    and "down \<le> t"
  shows "\<exists>due. long_tap_timer (key_down t down d) = Some due \<and>
           (\<forall>f \<ge> due. long_tap_reported (long_tap_fire f (key_down t down d)))"
proof (intro exI conjI allI impI)
  show "long_tap_timer (key_down t down d) = Some (t + LongTapThreshold (Config d))"
    using assms by (simp add: key_down_def arm_long_tap_timer_locked_def
        stop_long_tap_timer_locked_def Let_def)
  fix f
  assume "t + LongTapThreshold (Config d) \<le> f"
  with assms show "long_tap_reported (long_tap_fire f (key_down t down d))"
    by (simp add: long_tap_fire_def Let_def)
qed


theorem armed_timer_reports_witness:
  "\<exists>due. long_tap_timer (key_down 7 5 (NewSyntheticDevice (Some \<lparr>LongTapImmediately = True,
     LongTapThreshold = 3, MultipleTapThreshold = 2, MultipleTapMaxCount = 4\<rparr>))) = Some due"
  using armed_timer_reports [of "NewSyntheticDevice (Some \<lparr>LongTapImmediately = True,
     LongTapThreshold = 3, MultipleTapThreshold = 2, MultipleTapMaxCount = 4\<rparr>)" 5 7]
  by (simp add: input_init_simps) blast


lemma drain_loop_tap_chain:
  "tap_chain config (chain @ events) \<Longrightarrow> drain_loop config chain result events = (chain @ events, result)"
proof (induction events arbitrary: chain)
  case (Cons e es)
  from Cons.prems have "\<not> breaks_chain config chain e"
    by (auto simp: tap_chain_def breaks_chain_def successively_append_iff)
  with Cons show ?case by simp
qed simp

lemma sum_list_group_counts:
  "list_all (valid_group config) gs \<Longrightarrow> list_all (\<lambda>e. ev_TapCount e = 1) (concat gs) \<Longrightarrow>
     sum_list (map (ev_TapCount \<circ> group_event) gs) = length (concat gs)"
proof (induction gs)
  case (Cons g gs)
  then show ?case
    by (cases "length g = 1"; cases g) (auto simp: group_event_def merge_chain_events_def)
qed simp

text \<open>C29: Draining cuts the queue, in order, into groups and a deferred rest. Each group is one
  event, passed on unchanged, or a chain of 2 to \<open>MultipleTapMaxCount\<close> taps with gaps within the
  threshold, passed on as one multiple tap with that count; the rest is such a chain. No tap is
  lost or invented: the counts reported and the rest add up to the taps drained.\<close>

theorem drain_groups_taps:
  assumes drain: "DrainEvents t d = (result, d')"
    and one: "list_all (\<lambda>e. ev_TapCount e = 1) (event_queue d)"
  shows "(\<exists>gs. event_queue d = concat gs @ event_queue d' \<and> result = map group_event gs \<and>
            list_all (valid_group (Config d)) gs \<and> tap_chain (Config d) (event_queue d'))
       \<and> sum_list (map ev_TapCount result) + length (event_queue d') = length (event_queue d)"
proof -
  have "single_taps (event_queue d)" using one by (auto simp: single_taps_def list_all_iff)
  from DrainEvents_groups [OF drain this] obtain gs where
    gs: "event_queue d = concat gs @ event_queue d'" "result = map group_event gs"
      "list_all (valid_group (Config d)) gs" "tap_chain (Config d) (event_queue d')"
    by blast
  from one gs(1) have "list_all (\<lambda>e. ev_TapCount e = 1) (concat gs)" by simp
  with gs sum_list_group_counts [OF gs(3)] show ?thesis by auto
qed

text \<open>Three taps: two of them quick, the third much later.\<close>

definition tap_at :: "int \<Rightarrow> input_event" where
  "tap_at t = \<lparr>ev_Time = t, ev_Devnode = [], ev_Type = INPUT_TAP, ev_Duration = 1, ev_TapCount = 1,
     ev_Error = None, ev_Status = DEVICE_STATUS_NORMAL\<rparr>"

definition tapped_device :: input_device where
  "tapped_device = (NewSyntheticDevice None)\<lparr>event_queue := [tap_at 5, tap_at 9, tap_at 900000000]\<rparr>"

theorem drain_groups_taps_witness:
  "sum_list (map ev_TapCount (fst (DrainEvents 900000001 tapped_device))) +
   length (event_queue (snd (DrainEvents 900000001 tapped_device))) = 3"
  using drain_groups_taps [of 900000001 tapped_device "fst (DrainEvents 900000001 tapped_device)"
      "snd (DrainEvents 900000001 tapped_device)"]
  by (simp add: tapped_device_def tap_at_def)

text \<open>Taps held back for a possible multiple tap are never stranded. After a drain that keeps
  some, either the flush timer is due later or the wake signal is pending, and every later drain
  of the untouched queue past the window hands all of them over as one event.\<close>

theorem deferred_taps_flushed:
  assumes drain: "DrainEvents t d = (result, d')" and wake: "wake d \<noteq> None"
    and taps: "single_taps (event_queue d)"
    and kept: "event_queue d' \<noteq> []" and on: "0 \<le> MultipleTapThreshold (Config d)"
    and late: "MultipleTapThreshold (Config d) < t' - ev_Time (last (event_queue d'))"
  shows "((\<exists>due. multi_tap_timer d' = Some due \<and> t < due) \<or> wake d' = Some True)
       \<and> fst (DrainEvents t' d') = [group_event (event_queue d')]
       \<and> event_queue (snd (DrainEvents t' d')) = []"
proof -
  have timer: "(\<exists>due. multi_tap_timer d' = Some due \<and> t < due) \<or> wake d' = Some True"
    using drain by (cases rule: DrainEvents_cases) (use kept wake in \<open>auto split: if_splits\<close>)
  obtain gs where gs: "event_queue d = concat gs @ event_queue d'" "tap_chain (Config d) (event_queue d')"
    using DrainEvents_groups [OF drain taps] by blast
  have conf: "Config d' = Config d" using DrainEvents_frame(1) [of t d] drain by simp
  from drain_loop_tap_chain [of "Config d" "[]" "event_queue d'" "[]"] gs(2)
  have loop: "drain_loop (Config d) [] [] (event_queue d') = (event_queue d', [])" by simp
  have "merge_chain_events (event_queue d') = group_event (event_queue d')"
    by (rule merge_group [OF gs(2) kept]) (use taps gs(1) in \<open>simp add: single_taps_def\<close>)
  with timer loop conf kept on late show ?thesis
    by (simp add: DrainEvents_def Let_def stop_multi_tap_timer_locked_def)
qed

theorem deferred_taps_flushed_witness:
  "\<exists>e. fst (DrainEvents 1300000000 (snd (DrainEvents 900000001 tapped_device))) = []
     \<and> fst (DrainEvents 1300000000 (snd (DrainEvents 20 (tapped_device\<lparr>event_queue := [tap_at 5, tap_at 9]\<rparr>)))) = [e]"
proof -
  define d where "d = tapped_device\<lparr>event_queue := [tap_at 5, tap_at 9]\<rparr>"
  have q: "event_queue (snd (DrainEvents 20 d)) = [tap_at 5, tap_at 9]"
    by (simp add: d_def tapped_device_def tap_at_def DrainEvents_def breaks_chain_def
        input_defs input_init_simps)
  have "fst (DrainEvents 1300000000 (snd (DrainEvents 900000001 tapped_device))) = []"
    by (simp add: tapped_device_def tap_at_def DrainEvents_def breaks_chain_def merge_chain_events_def
        input_defs input_init_simps)
  moreover have "fst (DrainEvents 1300000000 (snd (DrainEvents 20 d))) = [group_event [tap_at 5, tap_at 9]]"
    using deferred_taps_flushed [of 20 d "fst (DrainEvents 20 d)" "snd (DrainEvents 20 d)" 1300000000] q
    by (simp add: d_def tapped_device_def tap_at_def single_taps_def input_init_simps)
  ultimately show ?thesis by (auto simp: d_def)
qed



end
