(* ===== verification/Led.thy ===== *)
theory Led
  imports Base_Files
begin

text \<open>
  Package \<open>core/led\<close>: the attributes of a LED below \<open>/sys/class/leds\<close> (\<open>led.go\<close>), the
  little action language (\<open>mode.go\<close>) and its interpreter (\<open>interpreter.go\<close>).

  The interpreter's loop is a goroutine per mode, ended by cancelling its context. A context is
  a number: \<open>mode_cancel\<close> holds the number of the context that is not cancelled, and
  \<open>next_ctx\<close> is the next fresh one. \<open>loop_step\<close> is one iteration of the loop under the lock.
  The Go interface \<open>LedInterpreterContext\<close>, through which an action reaches the interpreter,
  is the locale \<open>led_context\<close>.
\<close>

section \<open>led.go\<close>

datatype led_subpath = LED_SUBPATH_TRIGGER | LED_SUBPATH_BRIGHTNESS | LED_SUBPATH_MAX_BRIGHTNESS

fun subpath_name :: "led_subpath \<Rightarrow> string" where
  "subpath_name LED_SUBPATH_TRIGGER = ''trigger''"
| "subpath_name LED_SUBPATH_BRIGHTNESS = ''brightness''"
| "subpath_name LED_SUBPATH_MAX_BRIGHTNESS = ''max_brightness''"

text \<open>\<open>memory\<close> is what the package \<open>memory\<close> answers for the total memory.\<close>

definition MAX_LED_SUBPATH_FILESIZE :: "nat \<Rightarrow> nat" where
  "MAX_LED_SUBPATH_FILESIZE memory = max (2 ^ 20) (min (memory div 2) (2 ^ 30))"

type_synonym led_brightness = "32 word"

record led =
  led_devnode :: string
  active_trigger :: string
  available_triggers :: "string list"
  brightness :: led_brightness
  max_brightness :: led_brightness
  led_writer :: subpath_writer

datatype led_error =
    InvalidLedDevnode path_status
  | LedFile subpath_error
  | DuplicateActiveTriggers string string
  | NotANumber
  | BrightnessRange int
  | InvalidSubpath
  | EmptyTrigger
  | TriggerUnavailable
  | TriggerNotUpdated
  | BrightnessNotUpdated

definition led_check :: "string option \<Rightarrow> led \<Rightarrow> led_error option io" where
  "led_check cwd this = do {
     status \<leftarrow> IsValidPath cwd (led_devnode this) ''/sys/class/leds/'' False True;
     return (if status \<noteq> PATH_STATUS_OK then Some (InvalidLedDevnode status) else None)
   }"

text \<open>The loop of \<open>parse_triggers\<close>: the active trigger, the triggers and the bytes so far.\<close>

fun parse_triggers_loop ::
  "string \<Rightarrow> string list \<Rightarrow> string \<Rightarrow> string \<Rightarrow> (led_error, string \<times> string list) result" where
  "parse_triggers_loop active available cur [] =
     Inr (active, if cur \<noteq> [] then available @ [cur] else available)"
| "parse_triggers_loop active available cur (c # cs) =
     (if c = CHR ''['' then parse_triggers_loop active available cur cs
      else if c = CHR '']'' then
        (if cur \<noteq> [] then
           (if active \<noteq> [] then Inl (DuplicateActiveTriggers active cur)
            else parse_triggers_loop cur (available @ [cur]) [] cs)
         else parse_triggers_loop active available cur cs)
      else if c = CHR '' '' then
        (if cur \<noteq> [] then parse_triggers_loop active (available @ [cur]) [] cs
         else parse_triggers_loop active available cur cs)
      else parse_triggers_loop active available (cur @ [c]) cs)"

definition parse_triggers :: "string \<Rightarrow> (led_error, string \<times> string list) result" where
  "parse_triggers triggers = parse_triggers_loop [] [] [] triggers"

definition load_available_triggers :: "led \<Rightarrow> (led_error, string \<times> string list) result io" where
  "load_available_triggers this = do {
     r \<leftarrow> ReadSubpath (led_writer this) (subpath_name LED_SUBPATH_TRIGGER) False;
     return (case r of Inl e \<Rightarrow> Inl (LedFile e) | Inr triggers \<Rightarrow> parse_triggers triggers)
   }"

definition parse_brightness :: "led_subpath \<Rightarrow> led \<Rightarrow> (led_error, led_brightness) result io" where
  "parse_brightness subpath this =
     (if subpath = LED_SUBPATH_TRIGGER then return (Inl InvalidSubpath)
      else do {
        r \<leftarrow> ReadSubpath (led_writer this) (subpath_name subpath) False;
        return (case r of
            Inl e \<Rightarrow> Inl (LedFile e)
          | Inr content \<Rightarrow>
              (case Atoi content of
                 None \<Rightarrow> Inl NotANumber
               | Some b \<Rightarrow> if b < 0 \<or> 4294967295 < b then Inl (BrightnessRange b)
                           else Inr (word_of_int b)))
      })"

definition load_brightness :: "led \<Rightarrow> (led_error, led_brightness \<times> led_brightness) result io" where
  "load_brightness this = do {
     b \<leftarrow> parse_brightness LED_SUBPATH_BRIGHTNESS this;
     (case b of
        Inl e \<Rightarrow> return (Inl e)
      | Inr b \<Rightarrow> do {
          m \<leftarrow> parse_brightness LED_SUBPATH_MAX_BRIGHTNESS this;
          return (case m of Inl e \<Rightarrow> Inl e | Inr m \<Rightarrow> Inr (b, m))
        })
   }"

definition update_attr :: "led \<Rightarrow> (led_error option \<times> led) io" where
  "update_attr this = do {
     t \<leftarrow> load_available_triggers this;
     (case t of
        Inl e \<Rightarrow> return (Some e, this)
      | Inr (active, available) \<Rightarrow> do {
          b \<leftarrow> load_brightness this;
          (case b of
             Inl e \<Rightarrow> return (Some e, this)
           | Inr (b, m) \<Rightarrow>
               return (None, this\<lparr>active_trigger := active, available_triggers := available,
                                  brightness := b, max_brightness := m\<rparr>))
        })
   }"

definition get_trigger :: "led \<Rightarrow> ((led_error, string) result \<times> led) io" where
  "get_trigger this = do {
     t \<leftarrow> load_available_triggers this;
     return (case t of
         Inl e \<Rightarrow> (Inl e, this)
       | Inr (active, available) \<Rightarrow>
           (Inr active, this\<lparr>active_trigger := active, available_triggers := available\<rparr>))
   }"

definition set_trigger :: "string \<Rightarrow> led \<Rightarrow> (led_error option \<times> led) io" where
  "set_trigger trigger this = do {
     (err, this) \<leftarrow> update_attr this;
     (case err of
        Some e \<Rightarrow> return (Some e, this)
      | None \<Rightarrow>
          if trigger = [] then return (Some EmptyTrigger, this)
          else if trigger \<notin> set (available_triggers this) then return (Some TriggerUnavailable, this)
          else do {
            written \<leftarrow> WriteSubpath (led_writer this) (subpath_name LED_SUBPATH_TRIGGER) True
                          (trigger @ [char_of (10::nat)]);
            (case written of
               Some e \<Rightarrow> return (Some (LedFile e), this)
             | None \<Rightarrow> do {
                 t \<leftarrow> load_available_triggers this;
                 (case t of
                    Inl e \<Rightarrow> return (Some e, this)
                  | Inr (active, available) \<Rightarrow>
                      if active \<noteq> trigger then return (Some TriggerNotUpdated, this)
                      else return (None, this\<lparr>active_trigger := active,
                                              available_triggers := available\<rparr>))
               })
          })
   }"

definition get_brightness :: "led \<Rightarrow> ((led_error, led_brightness) result \<times> led) io" where
  "get_brightness this = do {
     b \<leftarrow> load_brightness this;
     return (case b of
         Inl e \<Rightarrow> (Inl e, this)
       | Inr (b, m) \<Rightarrow> (Inr b, this\<lparr>brightness := b, max_brightness := m\<rparr>))
   }"

definition set_brightness :: "led_brightness \<Rightarrow> led \<Rightarrow> (led_error option \<times> led) io" where
  "set_brightness b this = do {
     written \<leftarrow> WriteSubpath (led_writer this) (subpath_name LED_SUBPATH_BRIGHTNESS) True
                   (Utoa (unat b) @ [char_of (10::nat)]);
     (case written of
        Some e \<Rightarrow> return (Some (LedFile e), this)
      | None \<Rightarrow> do {
          r \<leftarrow> load_brightness this;
          (case r of
             Inl e \<Rightarrow> return (Some e, this)
           | Inr (current, m) \<Rightarrow>
               if current \<noteq> b then return (Some BrightnessNotUpdated, this)
               else return (None, this\<lparr>brightness := current, max_brightness := m\<rparr>))
        })
   }"

definition NewLed :: "string option \<Rightarrow> nat \<Rightarrow> string \<Rightarrow> (led_error, led) result io" where
  "NewLed cwd memory devnode = do {
     let this = \<lparr>led_devnode = devnode, active_trigger = [], available_triggers = [], brightness = 0,
                 max_brightness = 0,
                 led_writer = \<lparr>MaxFilesize = MAX_LED_SUBPATH_FILESIZE memory, OwnerName = ''Led'',
                               Basepath = devnode\<rparr>\<rparr>;
     checked \<leftarrow> led_check cwd this;
     (case checked of
        Some e \<Rightarrow> return (Inl e)
      | None \<Rightarrow> do {
          (err, this) \<leftarrow> update_attr this;
          return (case err of Some e \<Rightarrow> Inl e | None \<Rightarrow> Inr this)
        })
   }"

section \<open>mode.go\<close>

datatype led_action_type = MODE_ACTION_OFF | MODE_ACTION_ON | MODE_ACTION_WAIT

record led_mode_action =
  action :: led_action_type
  act_duration :: int

type_synonym led_mode = "led_mode_action list"

definition NewLedMode :: led_mode where
  "NewLedMode = []"

definition Off :: "led_mode \<Rightarrow> led_mode" where
  "Off actions = actions @ [\<lparr>action = MODE_ACTION_OFF, act_duration = 0\<rparr>]"

definition On :: "led_mode \<Rightarrow> led_mode" where
  "On actions = actions @ [\<lparr>action = MODE_ACTION_ON, act_duration = 0\<rparr>]"

definition Wait :: "int \<Rightarrow> led_mode \<Rightarrow> led_mode" where
  "Wait d actions = actions @ [\<lparr>action = MODE_ACTION_WAIT, act_duration = d\<rparr>]"

definition OffDuration :: "int \<Rightarrow> led_mode \<Rightarrow> led_mode" where
  "OffDuration d actions = On (Wait d (Off actions))"

definition OnDuration :: "int \<Rightarrow> led_mode \<Rightarrow> led_mode" where
  "OnDuration d actions = Off (Wait d (On actions))"

definition ModeDone :: "led_mode \<Rightarrow> led_mode" where
  "ModeDone actions = actions"

definition MODE_PRESET_ON :: led_mode where
  "MODE_PRESET_ON = ModeDone (On NewLedMode)"

definition MODE_PRESET_OFF :: led_mode where
  "MODE_PRESET_OFF = ModeDone (Off NewLedMode)"

text \<open>
  An action runs against a \<open>LedInterpreterContext\<close>: its \<open>set_next_action_time\<close> and \<open>get_led\<close>
  are arguments. The methods of the LED change it in place; \<open>put_led\<close> writes it back.
\<close>

definition switch_led :: "(led \<Rightarrow> led_brightness) \<Rightarrow> led \<Rightarrow> (led_error option \<times> led) io" where
  "switch_led level led = do {
     (err_trigger, led) \<leftarrow> set_trigger ''none'' led;
     (err_brightness, led) \<leftarrow> set_brightness (level led) led;
     return (case err_trigger of Some e \<Rightarrow> (Some e, led) | None \<Rightarrow> (err_brightness, led))
   }"

definition apply_action ::
  "(int \<Rightarrow> 'ctx \<Rightarrow> 'ctx) \<Rightarrow> ('ctx \<Rightarrow> led) \<Rightarrow> (led \<Rightarrow> 'ctx \<Rightarrow> 'ctx) \<Rightarrow> int \<Rightarrow> led_mode_action \<Rightarrow> 'ctx \<Rightarrow>
     (led_error option \<times> 'ctx) io" where
  "apply_action set_next_action_time get_led put_led t a ctx =
     (case action a of
        MODE_ACTION_ON \<Rightarrow> do {
          (err, led) \<leftarrow> switch_led max_brightness (get_led ctx);
          return (err, put_led led ctx)
        }
      | MODE_ACTION_OFF \<Rightarrow> do {
          (err, led) \<leftarrow> switch_led (\<lambda>_. 0) (get_led ctx);
          return (err, put_led led ctx)
        }
      | MODE_ACTION_WAIT \<Rightarrow> return (None, set_next_action_time (t + act_duration a) ctx))"

section \<open>interpreter.go\<close>

record led_interpreter =
  interp_led :: led
  interp_mode :: led_mode
  interp_init :: bool
  mode_action_index :: int
  mode_actions_length :: int
  next_action_time :: int
  loop_count :: int
  mode_cancel :: "nat option"
  interp_running :: bool
  live_ctxs :: "nat list"
  next_ctx :: nat

definition set_next_action_time :: "int \<Rightarrow> led_interpreter \<Rightarrow> led_interpreter" where
  "set_next_action_time t this = this\<lparr>next_action_time := t\<rparr>"

definition get_led :: "led_interpreter \<Rightarrow> led" where
  "get_led this = interp_led this"

definition put_led :: "led \<Rightarrow> led_interpreter \<Rightarrow> led_interpreter" where
  "put_led l this = this\<lparr>interp_led := l\<rparr>"

definition bool2uint :: "bool \<Rightarrow> int" where
  "bool2uint b = (if b then 1 else 0)"

definition normalize_action_index :: "led_interpreter \<Rightarrow> led_interpreter" where
  "normalize_action_index this =
     (if mode_actions_length this = 0 then this
      else
        (let i = go_mod (mode_action_index this) (mode_actions_length this) in
         this\<lparr>mode_action_index := (if i < 0 then i + mode_actions_length this else i)\<rparr>))"

text \<open>\<open>SkipAction\<close> is variadic: \<open>step\<close> is the list of its arguments.\<close>

definition SkipAction :: "int list \<Rightarrow> led_interpreter \<Rightarrow> int \<times> led_interpreter" where
  "SkipAction step this =
     (let this = normalize_action_index (this\<lparr>mode_action_index := wrap_int (mode_action_index this +
                   (case step of [] \<Rightarrow> 1 | s # _ \<Rightarrow> s))\<rparr>)
      in (mode_action_index this, this))"

text \<open>The increment of \<open>loop_count\<close> and its overflow guard.\<close>

definition count_loop :: "led_interpreter \<Rightarrow> led_interpreter" where
  "count_loop this =
     (let n = loop_count this + bool2uint (mode_action_index this = 0) in
      this\<lparr>loop_count := (if int_max div 2 \<le> n then int_max div 4 else n)\<rparr>)"

definition act :: "int \<Rightarrow> led_interpreter \<Rightarrow> (led_error option \<times> led_interpreter) io" where
  "act t this =
     (if mode_actions_length this = 0 then return (None, this)
      else if mode_actions_length this = 1 \<and> interp_init this then return (None, this)
      else if next_action_time this \<noteq> 0 \<and> t < next_action_time this then return (None, this)
      else do {
        let this = count_loop (normalize_action_index this);
        (err, this) \<leftarrow> apply_action set_next_action_time get_led put_led t
                         (interp_mode this ! nat (mode_action_index this)) this;
        (case err of
           Some e \<Rightarrow> return (Some e, this)
         | None \<Rightarrow> return (None, snd (SkipAction [] this)))
      })"

definition init_mode :: "led_interpreter \<Rightarrow> (led_error option \<times> led_interpreter) io" where
  "init_mode this = do {
     let this = this\<lparr>mode_action_index := 0\<rparr>;
     t \<leftarrow> now;
     (err, this) \<leftarrow> act t this;
     (case err of
        Some e \<Rightarrow> return (Some e, this)
      | None \<Rightarrow> return (None, this\<lparr>interp_init := True\<rparr>))
   }"

definition start_mode_loop_locked :: "led_interpreter \<Rightarrow> led_interpreter" where
  "start_mode_loop_locked this =
     this\<lparr>mode_cancel := Some (next_ctx this), live_ctxs := live_ctxs this @ [next_ctx this],
          next_ctx := Suc (next_ctx this)\<rparr>"

text \<open>\<open>mode_cancel()\<close> followed by \<open>mode_cancel = nil\<close>, when it is not \<open>nil\<close>.\<close>

definition cancel_mode :: "led_interpreter \<Rightarrow> led_interpreter" where
  "cancel_mode this =
     (case mode_cancel this of
        None \<Rightarrow> this
      | Some ctx \<Rightarrow> this\<lparr>live_ctxs := removeAll ctx (live_ctxs this), mode_cancel := None\<rparr>)"

definition SetMode :: "led_mode \<Rightarrow> led_interpreter \<Rightarrow> led_interpreter" where
  "SetMode mode this =
     (let this = cancel_mode this;
          this = set_next_action_time 0
                   (this\<lparr>interp_init := False, mode_action_index := 0, interp_mode := mode,
                         mode_actions_length := int (length mode)\<rparr>);
          this = this\<lparr>loop_count := - 1\<rparr>
      in if interp_running this then start_mode_loop_locked this else this)"

definition Tick :: "led_interpreter \<Rightarrow> (led_error option \<times> led_interpreter) io" where
  "Tick this =
     (if \<not> interp_init this then init_mode this
      else do { t \<leftarrow> now; act t this })"

definition ResetLoopCount :: "led_interpreter \<Rightarrow> led_interpreter" where
  "ResetLoopCount this = this\<lparr>loop_count := 0\<rparr>"

definition Start :: "led_interpreter \<Rightarrow> led_interpreter" where
  "Start this =
     (if interp_running this then this else start_mode_loop_locked (this\<lparr>interp_running := True\<rparr>))"

definition Stop :: "led_interpreter \<Rightarrow> led_interpreter" where
  "Stop this = (if \<not> interp_running this then this else cancel_mode (this\<lparr>interp_running := False\<rparr>))"

text \<open>
  One iteration of the goroutine of context \<open>ctx\<close>: it has ended, it waits for its
  cancellation (a static mode), or it sleeps.
\<close>

datatype loop_outcome = LoopExit | LoopStatic | LoopWait int

definition loop_step :: "nat \<Rightarrow> led_interpreter \<Rightarrow> (loop_outcome \<times> led_interpreter) io" where
  "loop_step ctx this =
     (if \<not> interp_running this \<or> ctx \<notin> set (live_ctxs this) then return (LoopExit, this)
      else do {
        t \<leftarrow> now;
        let this = normalize_action_index this;
        let current = (if 0 < mode_actions_length this
                       then Some (interp_mode this ! nat (mode_action_index this)) else None);
        (_, this) \<leftarrow> (if \<not> interp_init this then init_mode this else act t this);
        let wait = (case current of
                      Some a \<Rightarrow> if action a = MODE_ACTION_WAIT then act_duration a else 0
                    | None \<Rightarrow> 0);
        let static_mode = (mode_actions_length this = 0 \<or>
                           (mode_actions_length this = 1 \<and>
                            (case current of Some a \<Rightarrow> action a \<noteq> MODE_ACTION_WAIT | None \<Rightarrow> False)));
        return (if static_mode then LoopStatic else LoopWait wait, this)
      })"

definition NewLedInterpreter :: "led \<Rightarrow> led_interpreter" where
  "NewLedInterpreter l =
     \<lparr>interp_led = l, interp_mode = [], interp_init = False, mode_action_index = 0,
      mode_actions_length = 0, next_action_time = 0, loop_count = 0, mode_cancel = None,
      interp_running = False, live_ctxs = [], next_ctx = 0\<rparr>"

section \<open>Triggers\<close>

text \<open>A name as the kernel prints it: not empty, and none of the three special bytes.\<close>

definition plain_name :: "string \<Rightarrow> bool" where
  "plain_name s = (s \<noteq> [] \<and> CHR '' '' \<notin> set s \<and> CHR ''['' \<notin> set s \<and> CHR '']'' \<notin> set s)"

text \<open>The kernel's format of the attribute: the names separated by blanks, the active one in
  brackets.\<close>

definition show_trigger :: "string \<Rightarrow> string \<Rightarrow> string" where
  "show_trigger active name = (if name = active then ''['' @ name @ '']'' else name)"

definition show_triggers :: "string \<Rightarrow> string list \<Rightarrow> string" where
  "show_triggers active names = Join '' '' (map (show_trigger active) names)"

lemma parse_triggers_plain:
  "CHR '' '' \<notin> set s \<Longrightarrow> CHR ''['' \<notin> set s \<Longrightarrow> CHR '']'' \<notin> set s \<Longrightarrow>
     parse_triggers_loop active available cur (s @ rest) =
     parse_triggers_loop active available (cur @ s) rest"
  by (induction s arbitrary: cur) auto

lemma parse_trigger_sep:
  assumes "plain_name name" and "name = active \<Longrightarrow> seen = []"
  shows "parse_triggers_loop seen available [] (show_trigger active name @ '' '' @ rest) =
     parse_triggers_loop (if name = active then active else seen) (available @ [name]) [] rest"
  using assms by (auto simp: show_trigger_def plain_name_def parse_triggers_plain)

lemma parse_trigger_end:
  assumes "plain_name name" and "name = active \<Longrightarrow> seen = []"
  shows "parse_triggers_loop seen available [] (show_trigger active name) =
     Inr (if name = active then active else seen, available @ [name])"
  using assms parse_triggers_plain [of name seen available "[]" "[]"]
    parse_triggers_plain [of name seen available "[]" "'']''"]
  by (auto simp: show_trigger_def plain_name_def)

lemma parse_triggers_names:
  assumes "list_all plain_name names" and "distinct names" and "active \<in> set names \<Longrightarrow> seen = []"
    and "seen = [] \<or> seen = active"
  shows "parse_triggers_loop seen available [] (show_triggers active names) =
     Inr (if active \<in> set names then active else seen, available @ names)"
  using assms
proof (induction names arbitrary: seen available)
  case (Cons name names)
  show ?case
  proof (cases names)
    case Nil
    with Cons.prems show ?thesis
      by (simp add: show_triggers_def parse_trigger_end)
  next
    case (Cons name2 names2)
    then have "show_triggers active (name # names) = show_trigger active name @ '' '' @ show_triggers active names"
      by (simp add: show_triggers_def)
    moreover have "name = active \<Longrightarrow> seen = []" using Cons.prems by simp
    moreover have "parse_triggers_loop (if name = active then active else seen) (available @ [name]) []
        (show_triggers active names) =
      Inr (if active \<in> set names then active else (if name = active then active else seen),
           (available @ [name]) @ names)"
      by (rule Cons.IH) (use Cons.prems in auto)
    ultimately show ?thesis
      using Cons.prems by (simp add: parse_trigger_sep del: append.simps)
  qed
qed (auto simp: show_triggers_def)

lemma parse_triggers_active_mem:
  "parse_triggers_loop active available cur cs = Inr (a, ts) \<Longrightarrow>
     active = [] \<or> active \<in> set available \<Longrightarrow> set available \<subseteq> set ts \<and> (a = [] \<or> a \<in> set ts)"
  by (induction active available cur cs rule: parse_triggers_loop.induct) (auto split: if_splits)

lemma parse_triggers_nonempty:
  "parse_triggers_loop active available cur cs = Inr (a, ts) \<Longrightarrow> [] \<notin> set available \<Longrightarrow> [] \<notin> set ts"
  by (induction active available cur cs rule: parse_triggers_loop.induct) (auto split: if_splits)

section \<open>Attributes\<close>

lemma update_attr_error: "fst (run_state (update_attr l) w) = (Some e, l') \<Longrightarrow> l' = l"
  by (auto simp: update_attr_def split: prod.splits sum.splits)

lemma set_trigger_ok:
  assumes "run_state (set_trigger trigger l) w = ((None, l'), w')"
  shows "active_trigger l' = trigger \<and> trigger \<in> set (available_triggers l') \<and> trigger \<noteq> []"
  using assms
  by (auto simp: set_trigger_def load_available_triggers_def parse_triggers_def
      split: prod.splits sum.splits option.splits if_splits
      dest: parse_triggers_active_mem)

lemma set_trigger_frame:
  "led_writer (snd (fst (run_state (set_trigger trigger l) w))) = led_writer l"
  "led_devnode (snd (fst (run_state (set_trigger trigger l) w))) = led_devnode l"
  by (auto simp: set_trigger_def update_attr_def split: prod.splits sum.splits option.splits)

lemma set_brightness_ok:
  assumes "run_state (set_brightness b l) w = ((None, l'), w')"
  shows "brightness l' = b"
  using assms by (auto simp: set_brightness_def split: prod.splits sum.splits option.splits if_splits)

lemma set_brightness_frame:
  "active_trigger (snd (fst (run_state (set_brightness b l) w))) = active_trigger l"
  "available_triggers (snd (fst (run_state (set_brightness b l) w))) = available_triggers l"
  by (simp_all add: set_brightness_def split: prod.splits sum.splits option.splits)

lemma switch_led_ok:
  assumes "run_state (switch_led level l) w = ((None, l'), w')"
  shows "active_trigger l' = ''none'' \<and>
    brightness l' = level (snd (fst (run_state (set_trigger ''none'' l) w)))"
proof -
  obtain e1 l1 w1 where 1: "run_state (set_trigger ''none'' l) w = ((e1, l1), w1)"
    by (metis surj_pair)
  obtain e2 l2 w2 where 2: "run_state (set_brightness (level l1) l1) w1 = ((e2, l2), w2)"
    by (metis surj_pair)
  from assms 1 2 have "e1 = None" "e2 = None" "l' = l2"
    by (auto simp: switch_led_def split: option.splits)
  with 1 2 set_trigger_ok [of "''none''" l w l1 w1] set_brightness_ok [of "level l1" l1 w1 l2 w2]
    set_brightness_frame(1) [of "level l1" l1 w1]
  show ?thesis by simp
qed

section \<open>The context interface\<close>

locale led_context =
  fixes set_next :: "int \<Rightarrow> 'ctx \<Rightarrow> 'ctx" and led_of :: "'ctx \<Rightarrow> led" and led_put :: "led \<Rightarrow> 'ctx \<Rightarrow> 'ctx"
    and next_of :: "'ctx \<Rightarrow> int" and other :: "'ctx \<Rightarrow> 'rest"
  assumes led_of_put: "led_of (led_put l c) = l"
    and next_of_put: "next_of (led_put l c) = next_of c"
    and other_put: "other (led_put l c) = other c"
    and next_of_set: "next_of (set_next t c) = t"
    and led_of_set: "led_of (set_next t c) = led_of c"
    and other_set: "other (set_next t c) = other c"
begin

lemma apply_wait:
  "action a = MODE_ACTION_WAIT \<Longrightarrow>
     run_state (apply_action set_next led_of led_put t a c) w = ((None, set_next (t + act_duration a) c), w)"
  by (simp add: apply_action_def)

lemma apply_other: "other (snd (fst (run_state (apply_action set_next led_of led_put t a c) w))) = other c"
  by (simp add: apply_action_def other_put other_set split: led_action_type.splits prod.splits)

lemma apply_next:
  "next_of (snd (fst (run_state (apply_action set_next led_of led_put t a c) w))) =
     (if action a = MODE_ACTION_WAIT then t + act_duration a else next_of c)"
  by (simp add: apply_action_def next_of_put next_of_set split: led_action_type.splits prod.splits)

lemma apply_on:
  assumes "action a = MODE_ACTION_ON"
    and "run_state (apply_action set_next led_of led_put t a c) w = ((None, c'), w')"
  shows "active_trigger (led_of c') = ''none'' \<and>
    brightness (led_of c') = max_brightness (snd (fst (run_state (set_trigger ''none'' (led_of c)) w)))"
  using assms switch_led_ok [of max_brightness "led_of c" w]
  by (auto simp: apply_action_def led_of_put split: prod.splits)

lemma apply_off:
  assumes "action a = MODE_ACTION_OFF"
    and "run_state (apply_action set_next led_of led_put t a c) w = ((None, c'), w')"
  shows "active_trigger (led_of c') = ''none'' \<and> brightness (led_of c') = 0"
  using assms switch_led_ok [of "\<lambda>_. 0" "led_of c" w]
  by (auto simp: apply_action_def led_of_put split: prod.splits)

end

text \<open>What no action touches of the interpreter.\<close>

definition interp_frame ::
  "led_interpreter \<Rightarrow> led_mode \<times> bool \<times> int \<times> int \<times> int \<times> nat option \<times> bool \<times> nat list \<times> nat" where
  "interp_frame this =
     (interp_mode this, interp_init this, mode_action_index this, mode_actions_length this,
      loop_count this, mode_cancel this, interp_running this, live_ctxs this, next_ctx this)"

interpretation li: led_context set_next_action_time get_led put_led next_action_time interp_frame
  by unfold_locales (simp_all add: put_led_def get_led_def set_next_action_time_def interp_frame_def)

section \<open>The interpreter\<close>

lemma normalize_simps [simp]:
  "interp_mode (normalize_action_index this) = interp_mode this"
  "mode_actions_length (normalize_action_index this) = mode_actions_length this"
  "loop_count (normalize_action_index this) = loop_count this"
  "interp_init (normalize_action_index this) = interp_init this"
  "next_action_time (normalize_action_index this) = next_action_time this"
  "mode_cancel (normalize_action_index this) = mode_cancel this"
  "interp_running (normalize_action_index this) = interp_running this"
  "live_ctxs (normalize_action_index this) = live_ctxs this"
  "next_ctx (normalize_action_index this) = next_ctx this"
  "interp_led (normalize_action_index this) = interp_led this"
  by (simp_all add: normalize_action_index_def Let_def)

lemma normalize_index:
  assumes "0 < mode_actions_length this"
  shows "mode_action_index (normalize_action_index this) =
    mode_action_index this mod mode_actions_length this"
proof -
  define n where "n = mode_actions_length this"
  define i where "i = go_mod (mode_action_index this) n"
  have n: "0 < n" using assms by (simp add: n_def)
  have i: "- n < i" "i < n" "i mod n = mode_action_index this mod n"
    using n go_mod_bounds [of n] go_mod_cong [of n] by (simp_all add: i_def)
  have "(if i < 0 then i + n else i) = mode_action_index this mod n"
  proof (cases "i < 0")
    case True
    with i have "(i + n) mod n = i + n" by (intro mod_pos_pos_trivial) simp_all
    with True i(3) show ?thesis by simp
  next
    case False
    with i show ?thesis by simp
  qed
  with n show ?thesis by (simp add: normalize_action_index_def n_def [symmetric] i_def [symmetric] Let_def split: if_splits)
qed

lemma SkipAction_simps [simp]:
  "interp_mode (snd (SkipAction step this)) = interp_mode this"
  "mode_actions_length (snd (SkipAction step this)) = mode_actions_length this"
  "loop_count (snd (SkipAction step this)) = loop_count this"
  "interp_init (snd (SkipAction step this)) = interp_init this"
  "next_action_time (snd (SkipAction step this)) = next_action_time this"
  "mode_cancel (snd (SkipAction step this)) = mode_cancel this"
  "interp_running (snd (SkipAction step this)) = interp_running this"
  "live_ctxs (snd (SkipAction step this)) = live_ctxs this"
  "next_ctx (snd (SkipAction step this)) = next_ctx this"
  by (simp_all add: SkipAction_def Let_def)

lemma SkipAction_index:
  "0 < mode_actions_length this \<Longrightarrow>
     mode_action_index (snd (SkipAction step this)) =
     wrap_int (mode_action_index this + (case step of [] \<Rightarrow> 1 | s # _ \<Rightarrow> s)) mod mode_actions_length this"
  by (simp add: SkipAction_def Let_def normalize_index)

lemma count_loop_simps [simp]:
  "interp_mode (count_loop this) = interp_mode this"
  "mode_actions_length (count_loop this) = mode_actions_length this"
  "mode_action_index (count_loop this) = mode_action_index this"
  "interp_init (count_loop this) = interp_init this"
  "next_action_time (count_loop this) = next_action_time this"
  "mode_cancel (count_loop this) = mode_cancel this"
  "interp_running (count_loop this) = interp_running this"
  "live_ctxs (count_loop this) = live_ctxs this"
  "next_ctx (count_loop this) = next_ctx this"
  by (simp_all add: count_loop_def Let_def)

text \<open>The state an action that is due runs in, and what becomes of it.\<close>

definition due_state :: "led_interpreter \<Rightarrow> led_interpreter" where
  "due_state this = count_loop (normalize_action_index this)"

lemma due_state_simps [simp]:
  "interp_mode (due_state this) = interp_mode this"
  "mode_actions_length (due_state this) = mode_actions_length this"
  by (simp_all add: due_state_def)

definition action_due :: "int \<Rightarrow> led_interpreter \<Rightarrow> bool" where
  "action_due t this \<longleftrightarrow>
     mode_actions_length this \<noteq> 0 \<and> \<not> (mode_actions_length this = 1 \<and> interp_init this) \<and>
     \<not> (next_action_time this \<noteq> 0 \<and> t < next_action_time this)"

lemma act_not_due: "\<not> action_due t this \<Longrightarrow> act t this = return (None, this)"
  by (auto simp: act_def action_due_def)

lemma act_due:
  "action_due t this \<Longrightarrow> act t this = do {
     (err, this) \<leftarrow> apply_action set_next_action_time get_led put_led t
        (interp_mode this ! nat (mode_action_index (due_state this))) (due_state this);
     return (err, if err = None then snd (SkipAction [] this) else this)
   }"
  unfolding act_def action_due_def due_state_def [symmetric] Let_def
  by (auto intro!: arg_cong2 [where f = State_Monad.bind] split: option.splits)

definition interp_inv :: "led_interpreter \<Rightarrow> bool" where
  "interp_inv this \<longleftrightarrow>
     mode_actions_length this = int (length (interp_mode this)) \<and>
     (interp_mode this \<noteq> [] \<longrightarrow>
        0 \<le> mode_action_index this \<and> mode_action_index this < mode_actions_length this) \<and>
     - 1 \<le> loop_count this \<and> loop_count this < int_max div 2 \<and>
     live_ctxs this = (case mode_cancel this of None \<Rightarrow> [] | Some ctx \<Rightarrow> [ctx]) \<and>
     (interp_running this \<longleftrightarrow> mode_cancel this \<noteq> None)"

lemma interp_inv_frame: "interp_frame a = interp_frame b \<Longrightarrow> interp_inv a = interp_inv b"
  by (simp add: interp_frame_def interp_inv_def)

lemma SkipAction_inv: "interp_inv this \<Longrightarrow> interp_inv (snd (SkipAction step this))"
  unfolding interp_inv_def by (simp add: SkipAction_index)

lemma due_state_inv: "interp_inv this \<Longrightarrow> interp_inv (due_state this)"
  unfolding interp_inv_def due_state_def
  by (auto simp: normalize_index count_loop_def bool2uint_def int_max_def Let_def)

lemma act_inv: "interp_inv this \<Longrightarrow> interp_inv (snd (fst (run_state (act t this) w)))"
proof (cases "action_due t this")
  case True
  assume inv: "interp_inv this"
  define a where "a = interp_mode this ! nat (mode_action_index (due_state this))"
  obtain err c w' where
    r: "run_state (apply_action set_next_action_time get_led put_led t a (due_state this)) w = ((err, c), w')"
    by (metis surj_pair)
  have "interp_frame c = interp_frame (due_state this)"
    using li.apply_other [of t a "due_state this" w] r by simp
  then have "interp_inv c" using interp_inv_frame due_state_inv [OF inv] by blast
  with r True show ?thesis
    by (simp add: act_due a_def [symmetric] SkipAction_inv)
qed (simp add: act_not_due)

lemma init_mode_inv: "interp_inv this \<Longrightarrow> interp_inv (snd (fst (run_state (init_mode this) w)))"
proof -
  assume inv: "interp_inv this"
  define this0 where "this0 = this\<lparr>mode_action_index := 0\<rparr>"
  have "interp_inv this0" using inv by (auto simp: interp_inv_def this0_def)
  from act_inv [OF this, of "clock w" w]
  show ?thesis
    by (auto simp: init_mode_def this0_def [symmetric] interp_inv_def split: prod.splits option.splits)
qed

lemma Tick_inv: "interp_inv this \<Longrightarrow> interp_inv (snd (fst (run_state (Tick this) w)))"
  by (simp add: Tick_def init_mode_inv act_inv)

lemma loop_step_inv: "interp_inv this \<Longrightarrow> interp_inv (snd (fst (run_state (loop_step ctx this) w)))"
proof -
  assume inv: "interp_inv this"
  then have "interp_inv (normalize_action_index this)"
    unfolding interp_inv_def by (auto simp: normalize_index)
  then show ?thesis
    using inv init_mode_inv [of "normalize_action_index this" w] act_inv [of "normalize_action_index this" "clock w" w]
    by (auto simp: loop_step_def Let_def split: prod.splits)
qed

lemma cancel_mode_inv:
  "interp_inv this \<Longrightarrow> live_ctxs (cancel_mode this) = [] \<and> mode_cancel (cancel_mode this) = None"
  by (auto simp: cancel_mode_def interp_inv_def split: option.splits)

lemma cancel_mode_simps [simp]:
  "interp_running (cancel_mode this) = interp_running this"
  "interp_mode (cancel_mode this) = interp_mode this"
  "mode_actions_length (cancel_mode this) = mode_actions_length this"
  "mode_action_index (cancel_mode this) = mode_action_index this"
  "loop_count (cancel_mode this) = loop_count this"
  by (simp_all add: cancel_mode_def split: option.splits)

lemma SetMode_inv: "interp_inv this \<Longrightarrow> interp_inv (SetMode mode this)"
  by (frule cancel_mode_inv) (simp add: SetMode_def Let_def interp_inv_def set_next_action_time_def start_mode_loop_locked_def int_max_def)

lemma Start_inv: "interp_inv this \<Longrightarrow> interp_inv (Start this)"
  by (auto simp: Start_def start_mode_loop_locked_def interp_inv_def)

lemma Stop_inv: "interp_inv this \<Longrightarrow> interp_inv (Stop this)"
  by (auto simp: Stop_def cancel_mode_def interp_inv_def split: option.splits)

lemma ResetLoopCount_inv: "interp_inv this \<Longrightarrow> interp_inv (ResetLoopCount this)"
  by (auto simp: ResetLoopCount_def interp_inv_def int_max_def)

lemma NewLedInterpreter_inv: "interp_inv (NewLedInterpreter l)"
  by (simp add: NewLedInterpreter_def interp_inv_def int_max_def)

text \<open>Every operation of the interpreter, and one iteration of any of its goroutines.\<close>

inductive interp_step :: "led_interpreter \<Rightarrow> led_interpreter \<Rightarrow> bool" where
  set_mode: "interp_step this (SetMode mode this)"
| skip: "interp_step this (snd (SkipAction step this))"
| tick: "interp_step this (snd (fst (run_state (Tick this) w)))"
| reset: "interp_step this (ResetLoopCount this)"
| start: "interp_step this (Start this)"
| stop: "interp_step this (Stop this)"
| loop: "interp_step this (snd (fst (run_state (loop_step ctx this) w)))"

lemma interp_step_inv: "interp_step this this' \<Longrightarrow> interp_inv this \<Longrightarrow> interp_inv this'"
  by (induction rule: interp_step.induct)
    (simp_all add: SetMode_inv SkipAction_inv Tick_inv ResetLoopCount_inv Start_inv Stop_inv loop_step_inv)

text \<open>The interpreter has applied \<open>k\<close> actions of its mode.\<close>

definition cycle_at :: "nat \<Rightarrow> led_interpreter \<Rightarrow> bool" where
  "cycle_at k this \<longleftrightarrow>
     interp_mode this \<noteq> [] \<and> mode_actions_length this = int (length (interp_mode this)) \<and>
     mode_action_index this = int (k mod length (interp_mode this)) \<and>
     loop_count this = (int k - 1) div int (length (interp_mode this))"

lemma SetMode_cycle: "mode \<noteq> [] \<Longrightarrow> cycle_at 0 (SetMode mode this)"
  by (simp add: cycle_at_def SetMode_def Let_def set_next_action_time_def start_mode_loop_locked_def
      zdiv_eq_0_iff div_eq_minus1)

lemma div_pred: 
  fixes k n :: int
  assumes "0 < n"
  shows "(k - 1) div n + (if k mod n = 0 then 1 else 0) = k div n"
proof -
  define q r where "q = k div n" and "r = k mod n"
  have k: "k = n * q + r" "0 \<le> r" "r < n" using assms by (simp_all add: q_def r_def)
  have "(k - 1) div n = (if r = 0 then q - 1 else q)"
  proof (cases "r = 0")
    case True
    with k have "k - 1 = n * (q - 1) + (n - 1)" by (simp add: algebra_simps)
    with assms have "(k - 1) div n = (q - 1) + (n - 1) div n"
      by (metis add.commute div_mult_self2 less_imp_neq)
    with True assms show ?thesis by simp
  next
    case False
    with k have "k - 1 = n * q + (r - 1)" by simp
    with assms have "(k - 1) div n = q + (r - 1) div n"
      by (metis add.commute div_mult_self2 less_imp_neq)
    with False k show ?thesis by simp
  qed
  then show ?thesis by (simp add: q_def r_def)
qed

lemma cycle_due_state:
  assumes "cycle_at k this" and "int k div int (length (interp_mode this)) < int_max div 2"
  shows "mode_action_index (due_state this) = int (k mod length (interp_mode this)) \<and>
         loop_count (due_state this) = int k div int (length (interp_mode this))"
proof -
  define n where "n = length (interp_mode this)"
  have n: "0 < n" "mode_actions_length this = int n"
    using assms(1) by (simp_all add: cycle_at_def n_def)
  have i: "mode_action_index (normalize_action_index this) = int (k mod n)"
    using assms(1) n by (simp add: normalize_index cycle_at_def n_def [symmetric])
  have "(int k - 1) div int n + bool2uint (int (k mod n) = 0) = int k div int n"
    using div_pred [of "int n" "int k"] n(1) by (simp add: bool2uint_def zmod_int)
  with i assms n(2) show ?thesis
    by (simp add: due_state_def count_loop_def Let_def cycle_at_def n_def [symmetric])
qed

section \<open>Properties of the LED\<close>

text \<open>C31: Applying actions walks through the mode cyclically. In a state that has applied \<open>k\<close>
  actions, an \<open>act\<close> that is due applies exactly action \<open>k mod n\<close> of the mode; when that
  succeeds the state has applied \<open>k + 1\<close> actions, with \<open>k div n\<close> complete loops counted, and when
  it fails the same action stays next. (The loop count stays below its overflow guard.)\<close>

theorem act_cycles:
  assumes cyc: "cycle_at k this" and due: "action_due t this"
    and small: "int k div int (length (interp_mode this)) < int_max div 2"
      "int (length (interp_mode this)) \<le> int_max"
    and run: "run_state (act t this) w = ((err, this'), w')"
  shows "\<exists>c. run_state (apply_action set_next_action_time get_led put_led t
            (interp_mode this ! (k mod length (interp_mode this))) (due_state this)) w = ((err, c), w') \<and>
          loop_count this' = int k div int (length (interp_mode this)) \<and>
          (if err = None then cycle_at (Suc k) this'
           else mode_action_index this' = int (k mod length (interp_mode this)))"
proof -
  define n where "n = length (interp_mode this)"
  have n: "0 < n" "mode_actions_length this = int n"
    using cyc by (simp_all add: cycle_at_def n_def)
  note d = cycle_due_state [OF cyc small(1), folded n_def]
  define a where "a = interp_mode this ! (k mod n)"
  obtain e c v where
    r: "run_state (apply_action set_next_action_time get_led put_led t a (due_state this)) w = ((e, c), v)"
    by (metis surj_pair)
  have f: "interp_frame c = interp_frame (due_state this)"
    using li.apply_other [of t a "due_state this" w] r by simp
  then have c: "interp_mode c = interp_mode this" "mode_actions_length c = int n"
      "mode_action_index c = int (k mod n)" "loop_count c = int k div int n"
    using d n(2) by (simp_all add: interp_frame_def)
  have res: "err = e" "w' = v" "this' = (if e = None then snd (SkipAction [] c) else c)"
    using run r d by (auto simp: act_due [OF due] a_def n_def)
  have "k mod n < n" using n(1) by simp
  then have "int (k mod n) + 1 \<le> int_max" using small(2) by (simp add: n_def [symmetric])
  then have "wrap_int (int (k mod n) + 1) = int (k mod n) + 1"
    by (intro wrap_int_id) (simp_all add: int_min_def)
  then have "mode_action_index (snd (SkipAction [] c)) = int (Suc k mod n)"
    using c n(1) by (simp add: SkipAction_index zmod_int mod_add_left_eq mod_add_right_eq algebra_simps)
  then have "cycle_at (Suc k) (snd (SkipAction [] c))"
    using c cyc by (simp add: cycle_at_def n_def [symmetric])
  with r res c show ?thesis by (auto simp: a_def n_def)
qed

text \<open>A LED whose brightness file always reads 1 and whose only trigger is none.\<close>

definition led_env :: "os_call list \<Rightarrow> os_call \<Rightarrow> os_reply \<times> nat" where
  "led_env h c =
     (case c of
        ReadFile f \<Rightarrow> (Done [if HasSuffix f ''trigger'' then ''[none]'' else ''1''], 1)
      | _ \<Rightarrow> (Done [''dir''], 1))"

definition led_world :: world where
  "led_world = \<lparr>env = led_env, clock = 10, trace = [], fuel = 1, adbd_process = None\<rparr>"

definition sample_led :: led where
  "sample_led = \<lparr>led_devnode = ''/sys/class/leds/r'', active_trigger = [], available_triggers = [],
     brightness = 0, max_brightness = 0,
     led_writer = \<lparr>MaxFilesize = 64, OwnerName = ''Led'', Basepath = ''/sys/class/leds/r''\<rparr>\<rparr>"

theorem act_cycles_witness:
  "\<exists>c. run_state (apply_action set_next_action_time get_led put_led 5 \<lparr>action = MODE_ACTION_WAIT, act_duration = 7\<rparr>
      (due_state (SetMode (On (Wait 7 [])) (NewLedInterpreter sample_led)))) led_world = ((None, c), led_world)"
  using act_cycles [of 0 "SetMode (On (Wait 7 [])) (NewLedInterpreter sample_led)" 5 led_world None
      "snd (fst (run_state (act 5 (SetMode (On (Wait 7 [])) (NewLedInterpreter sample_led))) led_world))" led_world]
  by (simp add: SetMode_cycle SetMode_def NewLedInterpreter_def On_def Wait_def Let_def action_due_def
      act_def apply_action_def cancel_mode_def set_next_action_time_def int_max_def)

text \<open>An action that succeeds leaves the LED in the state it names. After ON the trigger is
  \<open>none\<close> and the brightness is the maximum read just before; after OFF the trigger is \<open>none\<close> and
  the brightness 0; after WAIT only the time of the next action has changed.\<close>

theorem action_takes_effect:
  assumes "run_state (apply_action set_next_action_time get_led put_led t a this) w = ((None, this'), w')"
  shows "interp_frame this' = interp_frame this \<and>
    (case action a of
       MODE_ACTION_ON \<Rightarrow> active_trigger (get_led this') = ''none'' \<and>
         brightness (get_led this') = max_brightness (snd (fst (run_state (set_trigger ''none'' (get_led this)) w)))
     | MODE_ACTION_OFF \<Rightarrow> active_trigger (get_led this') = ''none'' \<and> brightness (get_led this') = 0
     | MODE_ACTION_WAIT \<Rightarrow> next_action_time this' = t + act_duration a \<and> get_led this' = get_led this \<and> w' = w)"
proof -
  have "interp_frame this' = interp_frame this"
    using li.apply_other [of t a this w] assms by simp
  moreover have "next_action_time this' = t + act_duration a \<and> get_led this' = get_led this \<and> w' = w"
    if "action a = MODE_ACTION_WAIT"
    using assms li.apply_wait [OF that, of t this w] by (auto simp: li.next_of_set li.led_of_set)
  ultimately show ?thesis
    using li.apply_on [of a t this w this' w'] li.apply_off [of a t this w this' w'] assms
    by (auto split: led_action_type.splits)
qed

theorem action_takes_effect_witness:
  "brightness (get_led (snd (fst (run_state (apply_action set_next_action_time get_led put_led 5
      \<lparr>action = MODE_ACTION_ON, act_duration = 0\<rparr> (NewLedInterpreter sample_led)) led_world)))) = 1"
proof -
  define a where "a = \<lparr>action = MODE_ACTION_ON, act_duration = 0\<rparr>"
  define r where "r = run_state (apply_action set_next_action_time get_led put_led 5 a
    (NewLedInterpreter sample_led)) led_world"
  have e: "fst (fst r) = None"
    unfolding r_def a_def by code_simp
  have m: "max_brightness (snd (fst (run_state (set_trigger ''none'' (get_led (NewLedInterpreter sample_led))) led_world))) = 1"
    by code_simp
  have "run_state (apply_action set_next_action_time get_led put_led 5 a (NewLedInterpreter sample_led))
      led_world = ((None, snd (fst r)), snd r)"
    using e by (simp add: r_def [symmetric] prod_eq_iff)
  from action_takes_effect [OF this] show ?thesis using m by (simp add: a_def r_def)
qed

text \<open>Parsing the kernel's trigger attribute inverts printing it: from distinct plain names
  with the active one in brackets, \<open>parse_triggers\<close> recovers the active trigger and the list.\<close>

theorem parse_triggers_roundtrip:
  assumes "list_all plain_name names" and "distinct names" and "active \<in> set names"
  shows "parse_triggers (show_triggers active names) = Inr (active, names)"
  using parse_triggers_names [OF assms(1,2), of active "[]" "[]"] assms(3) by (simp add: parse_triggers_def)

theorem parse_triggers_roundtrip_witness:
  "parse_triggers ''none [usb-gadget] mmc0'' = Inr (''usb-gadget'', [''none'', ''usb-gadget'', ''mmc0''])"
  using parse_triggers_roundtrip [of "[''none'', ''usb-gadget'', ''mmc0'']" "''usb-gadget''"]
  by (simp add: show_triggers_def show_trigger_def plain_name_def)

text \<open>C32: In every state the interpreter can reach, with any answers of the file system and any
  interleaving of its goroutines, the action index is inside the mode, the loop count stays
  between \<open>-1\<close> and its overflow guard, and the only loop context not cancelled is the one of the
  current mode, which exists exactly while the interpreter runs: two loops never drive the LED.\<close>

theorem reachable_interp_inv: "interp_step\<^sup>*\<^sup>* (NewLedInterpreter l) this \<Longrightarrow> interp_inv this"
  by (induction rule: rtranclp_induct) (auto intro: NewLedInterpreter_inv interp_step_inv)

theorem reachable_interp_inv_witness:
  "interp_inv (SetMode MODE_PRESET_ON (Start (NewLedInterpreter sample_led)))"
  by (rule reachable_interp_inv [of sample_led])
    (rule rtranclp_trans [OF r_into_rtranclp r_into_rtranclp], rule interp_step.start, rule interp_step.set_mode)

end
