(* ===== verification/Netip.thy ===== *)
theory Netip
  imports Prelude "HOL-Library.Char_ord" "HOL-Library.List_Lexorder"
begin

unbundle bit_operations_syntax

text \<open>
  The part of Go's package \<open>net/netip\<close> that the sources use: addresses, prefixes, their
  order, their printed form and their parsers. An IPv4 address is a 32-bit word, an IPv6
  address a 128-bit word with its zone; \<open>AddrNone\<close> is the zero \<open>Addr\<close>. \<open>net.ParseIP\<close> is
  \<open>ParseIP\<close>.
\<close>

section \<open>Bytes\<close>

text \<open>\<open>binary.BigEndian.Uint32\<close> and \<open>PutUint32\<close>.\<close>

type_synonym bytes4 = "8 word \<times> 8 word \<times> 8 word \<times> 8 word"

fun Uint32 :: "bytes4 \<Rightarrow> 32 word" where
  "Uint32 (a, b, c, d) =
     push_bit 24 (ucast a) OR push_bit 16 (ucast b) OR push_bit 8 (ucast c) OR ucast d"

definition PutUint32 :: "32 word \<Rightarrow> bytes4" where
  "PutUint32 v = (ucast (drop_bit 24 v), ucast (drop_bit 16 v), ucast (drop_bit 8 v), ucast v)"

lemma Uint32_PutUint32 [simp]: "Uint32 (PutUint32 v) = v"
proof (rule bit_word_eqI)
  fix n :: nat
  assume "n < LENGTH(32)"
  then have n: "n < 32" by simp
  then consider "n < 8" | "8 \<le> n" "n < 16" | "16 \<le> n" "n < 24" | "24 \<le> n" by linarith
  then show "bit (Uint32 (PutUint32 v)) n = bit v n"
    by cases (use n in \<open>auto simp: PutUint32_def bit_simps\<close>)
qed

lemma PutUint32_Uint32 [simp]: "PutUint32 (Uint32 b) = b"
proof -
  obtain x y z u where b: "b = (x, y, z, u)" by (metis surj_pair)
  have out: "\<not> bit (c :: 8 word) n" if "8 \<le> n" for c n
    using that by (metis bit_imp_le_length len_bit0 len_num1 linorder_not_le mult_2 numeral_Bit0
        numeral_One numeral_times_numeral semiring_norm(11))
  show ?thesis
    unfolding b by (auto simp: PutUint32_def intro!: bit_word_eqI simp: bit_simps out)
qed

section \<open>Addresses\<close>

datatype addr = AddrNone | Addr4 "32 word" | Addr6 "128 word" string

definition addr_IsValid :: "addr \<Rightarrow> bool" where
  "addr_IsValid a = (a \<noteq> AddrNone)"

definition Is4 :: "addr \<Rightarrow> bool" where
  "Is4 a = (case a of Addr4 _ \<Rightarrow> True | _ \<Rightarrow> False)"

definition Is4In6 :: "addr \<Rightarrow> bool" where
  "Is4In6 a = (case a of Addr6 w _ \<Rightarrow> drop_bit 32 w = 0xffff | _ \<Rightarrow> False)"

definition BitLen :: "addr \<Rightarrow> nat" where
  "BitLen a = (case a of AddrNone \<Rightarrow> 0 | Addr4 _ \<Rightarrow> 32 | Addr6 _ _ \<Rightarrow> 128)"

definition Unmap :: "addr \<Rightarrow> addr" where
  "Unmap a = (case a of Addr6 w z \<Rightarrow> if Is4In6 a then Addr4 (ucast w) else a | _ \<Rightarrow> a)"

text \<open>\<open>As4\<close> panics (\<open>None\<close>) on the zero address and on a real IPv6 address.\<close>

definition As4 :: "addr \<Rightarrow> bytes4 option" where
  "As4 a =
     (case a of
        Addr4 w \<Rightarrow> Some (PutUint32 w)
      | Addr6 w _ \<Rightarrow> if Is4In6 a then Some (PutUint32 (ucast w)) else None
      | AddrNone \<Rightarrow> None)"

definition AddrFrom4 :: "bytes4 \<Rightarrow> addr" where
  "AddrFrom4 b = Addr4 (Uint32 b)"

text \<open>\<open>Next\<close> and \<open>Prev\<close> give the zero address past the ends.\<close>

fun addr_Next :: "addr \<Rightarrow> addr" where
  "addr_Next AddrNone = AddrNone"
| "addr_Next (Addr4 w) = (if w + 1 = 0 then AddrNone else Addr4 (w + 1))"
| "addr_Next (Addr6 w z) = (if w + 1 = 0 then AddrNone else Addr6 (w + 1) z)"

fun addr_Prev :: "addr \<Rightarrow> addr" where
  "addr_Prev AddrNone = AddrNone"
| "addr_Prev (Addr4 w) = (if w = 0 then AddrNone else Addr4 (w - 1))"
| "addr_Prev (Addr6 w z) = (if w = 0 then AddrNone else Addr6 (w - 1) z)"

text \<open>\<open>Compare\<close>: by family, then value, then zone, as the order of the type.\<close>

instantiation addr :: linorder
begin

definition less_addr :: "addr \<Rightarrow> addr \<Rightarrow> bool" where
  "less_addr a b =
     (case (a, b) of
        (Addr4 v, Addr4 w) \<Rightarrow> v < w
      | (Addr6 v y, Addr6 w z) \<Rightarrow> v < w \<or> (v = w \<and> y < z)
      | _ \<Rightarrow> BitLen a < BitLen b)"

definition less_eq_addr :: "addr \<Rightarrow> addr \<Rightarrow> bool" where
  "less_eq_addr a b \<longleftrightarrow> a = b \<or> a < b"

instance
  by intro_classes (auto simp: less_addr_def less_eq_addr_def BitLen_def split: addr.splits)

end

lemma addr_less_simps [simp]:
  "Addr4 v < Addr4 w \<longleftrightarrow> v < w"
  "Addr4 v \<le> Addr4 w \<longleftrightarrow> v \<le> w"
  by (auto simp: less_addr_def less_eq_addr_def)

section \<open>Prefixes\<close>

record prefix_ip =
  pfx_addr :: addr
  pfx_bits :: int

text \<open>\<open>PrefixFrom\<close> drops the zone and marks bits out of range as invalid (\<open>-1\<close>).\<close>

definition without_zone :: "addr \<Rightarrow> addr" where
  "without_zone a = (case a of Addr6 w _ \<Rightarrow> Addr6 w [] | _ \<Rightarrow> a)"

definition PrefixFrom :: "addr \<Rightarrow> int \<Rightarrow> prefix_ip" where
  "PrefixFrom a bits =
     \<lparr>pfx_addr = without_zone a,
      pfx_bits = (if a = AddrNone \<or> bits < 0 \<or> int (BitLen a) < bits then - 1 else bits)\<rparr>"

definition pfx_IsValid :: "prefix_ip \<Rightarrow> bool" where
  "pfx_IsValid p = (0 \<le> pfx_bits p)"

text \<open>The netmask of \<open>n\<close> leading ones; \<open>k\<close> is the number of host bits.\<close>

definition host_mask :: "nat \<Rightarrow> 'a::len word" where
  "host_mask k = NOT (mask k)"

definition Masked :: "prefix_ip \<Rightarrow> prefix_ip" where
  "Masked p =
     (if \<not> pfx_IsValid p then \<lparr>pfx_addr = AddrNone, pfx_bits = - 1\<rparr>
      else (case pfx_addr p of
              AddrNone \<Rightarrow> \<lparr>pfx_addr = AddrNone, pfx_bits = - 1\<rparr>
            | Addr4 w \<Rightarrow> p\<lparr>pfx_addr := Addr4 (w AND host_mask (nat (32 - pfx_bits p)))\<rparr>
            | Addr6 w z \<Rightarrow> p\<lparr>pfx_addr := Addr6 (w AND host_mask (nat (128 - pfx_bits p))) z\<rparr>))"

text \<open>\<open>Prefix.Contains\<close>: same family, no zone, and equal above the host bits.\<close>

definition pfx_Contains :: "prefix_ip \<Rightarrow> addr \<Rightarrow> bool" where
  "pfx_Contains p a =
     (pfx_IsValid p \<and>
      (case (pfx_addr p, a) of
         (Addr4 v, Addr4 w) \<Rightarrow> drop_bit (nat (32 - pfx_bits p)) (v XOR w) = 0
       | (Addr6 v _, Addr6 w z) \<Rightarrow> z = [] \<and> drop_bit (nat (128 - pfx_bits p)) (v XOR w) = 0
       | _ \<Rightarrow> False))"

section \<open>Printing\<close>

fun show_bytes4 :: "bytes4 \<Rightarrow> string" where
  "show_bytes4 (a, b, c, d) =
     Utoa (unat a) @ ''.'' @ Utoa (unat b) @ ''.'' @ Utoa (unat c) @ ''.'' @ Utoa (unat d)"

definition show4 :: "32 word \<Rightarrow> string" where
  "show4 w = show_bytes4 (PutUint32 w)"

definition hex_digit :: "nat \<Rightarrow> char" where
  "hex_digit d = (if d < 10 then char_of (48 + d) else char_of (87 + d))"

fun Xtoa :: "nat \<Rightarrow> string" where
  "Xtoa n = (if n < 16 then [hex_digit n] else Xtoa (n div 16) @ [hex_digit (n mod 16)])"

declare Xtoa.simps [simp del]

definition groups6 :: "128 word \<Rightarrow> nat list" where
  "groups6 w = map (\<lambda>i. unat (ucast (drop_bit (112 - 16 * i) w) :: 16 word)) [0..<8]"

text \<open>The longest run of at least two zero groups, the first one when several are as long.\<close>

definition zero_run :: "nat list \<Rightarrow> nat \<Rightarrow> nat" where
  "zero_run gs i = length (takeWhile (\<lambda>g. g = 0) (drop i gs))"

definition zero_block :: "nat list \<Rightarrow> (nat \<times> nat) option" where
  "zero_block gs =
     foldl (\<lambda>best i.
        let l = zero_run gs i in
        if 2 \<le> l \<and> (case best of None \<Rightarrow> 0 | Some (s, e) \<Rightarrow> e - s) < l then Some (i, i + l) else best)
       None [0..<length gs]"

definition show_groups :: "nat list \<Rightarrow> string" where
  "show_groups gs = Join '':'' (map Xtoa gs)"

definition show6 :: "128 word \<Rightarrow> string" where
  "show6 w =
     (if drop_bit 32 w = 0xffff then ''::ffff:'' @ show4 (ucast w)
      else (case zero_block (groups6 w) of
              None \<Rightarrow> show_groups (groups6 w)
            | Some (s, e) \<Rightarrow>
                show_groups (take s (groups6 w)) @ ''::'' @ show_groups (drop e (groups6 w))))"

definition addr_String :: "addr \<Rightarrow> string" where
  "addr_String a =
     (case a of
        AddrNone \<Rightarrow> ''invalid IP''
      | Addr4 w \<Rightarrow> show4 w
      | Addr6 w z \<Rightarrow> show6 w @ (if z = [] then [] else ''%'' @ z))"

definition pfx_String :: "prefix_ip \<Rightarrow> string" where
  "pfx_String p =
     (if \<not> pfx_IsValid p then ''invalid Prefix''
      else addr_String (pfx_addr p) @ ''/'' @ Utoa (nat (pfx_bits p)))"

section \<open>Parsing\<close>

definition parse_octet :: "string \<Rightarrow> 8 word option" where
  "parse_octet s =
     (case parse_decimal s of
        None \<Rightarrow> None
      | Some n \<Rightarrow> if (1 < length s \<and> hd s = CHR ''0'') \<or> 255 < n then None else Some (of_nat n))"

definition parse_ipv4 :: "string \<Rightarrow> bytes4 option" where
  "parse_ipv4 s =
     (case Split CHR ''.'' s of
        [a, b, c, d] \<Rightarrow>
          (case (parse_octet a, parse_octet b, parse_octet c, parse_octet d) of
             (Some a, Some b, Some c, Some d) \<Rightarrow> Some (a, b, c, d)
           | _ \<Rightarrow> None)
      | _ \<Rightarrow> None)"

definition hex_val :: "char \<Rightarrow> nat option" where
  "hex_val c =
     (let n = of_char c :: nat in
      if 48 \<le> n \<and> n \<le> 57 then Some (n - 48)
      else if 97 \<le> n \<and> n \<le> 102 then Some (n - 87)
      else if 65 \<le> n \<and> n \<le> 70 then Some (n - 55)
      else None)"

definition hexes_val :: "string \<Rightarrow> nat" where
  "hexes_val s = foldl (\<lambda>acc c. acc * 16 + the (hex_val c)) 0 s"

text \<open>
  The loop of \<open>parseIPv6\<close>: the 16-bit groups so far, the position of the ellipsis, and the
  rest of the string. The result is the groups, the ellipsis, and the unread rest.
\<close>

function ipv6_loop :: "nat list \<Rightarrow> nat option \<Rightarrow> string \<Rightarrow> (nat list \<times> nat option \<times> string) option" where
  "ipv6_loop gs ell s =
     (if 8 \<le> length gs then Some (gs, ell, s)
      else
        (let digits = takeWhile (\<lambda>c. hex_val c \<noteq> None) s; rest = drop (length digits) s in
         if 4 < length digits \<or> digits = [] then None
         else if rest \<noteq> [] \<and> hd rest = CHR ''.'' then
           (if (ell = None \<and> length gs \<noteq> 6) \<or> 6 < length gs then None
            else (case parse_ipv4 s of
                    None \<Rightarrow> None
                  | Some (a, b, c, d) \<Rightarrow>
                      Some (gs @ [unat a * 256 + unat b, unat c * 256 + unat d], ell, [])))
         else
           (let gs = gs @ [hexes_val digits] in
            if rest = [] then Some (gs, ell, [])
            else if hd rest \<noteq> CHR '':'' \<or> length rest = 1 then None
            else
              (let s = tl rest in
               if hd s = CHR '':'' then
                 (if ell \<noteq> None then None
                  else if tl s = [] then Some (gs, Some (length gs), [])
                  else ipv6_loop gs (Some (length gs)) (tl s))
               else ipv6_loop gs ell s))))"
  by pat_completeness auto
termination
  by (relation "measure (\<lambda>(gs, ell, s). 8 - length gs)") auto

declare ipv6_loop.simps [simp del]

definition word_of_groups :: "nat list \<Rightarrow> 128 word" where
  "word_of_groups gs = foldl (\<lambda>acc g. push_bit 16 acc OR of_nat g) 0 gs"

definition parse_ipv6 :: "string \<Rightarrow> addr option" where
  "parse_ipv6 input =
     (let (s, zone, zoned) = Cut CHR ''%'' input in
      if zoned \<and> zone = [] then None
      else
        (let lead = HasPrefix s ''::'';
             s = (if lead then drop 2 s else s) in
         if lead \<and> s = [] then Some (Addr6 0 zone)
         else
           (case ipv6_loop [] (if lead then Some 0 else None) s of
              None \<Rightarrow> None
            | Some (gs, ell, rest) \<Rightarrow>
                if rest \<noteq> [] then None
                else if length gs < 8 then
                  (case ell of
                     None \<Rightarrow> None
                   | Some e \<Rightarrow>
                       Some (Addr6 (word_of_groups
                         (take e gs @ replicate (8 - length gs) 0 @ drop e gs)) zone))
                else if ell \<noteq> None then None
                else Some (Addr6 (word_of_groups gs) zone))))"

text \<open>The first of the bytes dot, colon and percent decides the family.\<close>

definition ParseAddr :: "string \<Rightarrow> addr option" where
  "ParseAddr s =
     (case dropWhile (\<lambda>c. c \<notin> {CHR ''.'', CHR '':'', CHR ''%''}) s of
        [] \<Rightarrow> None
      | c # _ \<Rightarrow>
          if c = CHR ''.'' then map_option AddrFrom4 (parse_ipv4 s)
          else if c = CHR '':'' then parse_ipv6 s
          else None)"

text \<open>\<open>net.ParseIP\<close> rejects zones; an IPv4 address and its mapped form are the same \<open>IP\<close>.\<close>

definition ParseIP :: "string \<Rightarrow> addr option" where
  "ParseIP s =
     (case ParseAddr s of
        Some (Addr6 w z) \<Rightarrow> if z = [] then Some (Unmap (Addr6 w z)) else None
      | r \<Rightarrow> r)"

text \<open>\<open>ParsePrefix\<close>: an address without zone, a slash, and a length without leading zeros.\<close>

definition last_slash :: "string \<Rightarrow> (string \<times> string) option" where
  "last_slash s =
     (if CHR ''/'' \<in> set s
      then Some (rev (drop 1 (dropWhile (\<lambda>c. c \<noteq> CHR ''/'') (rev s))),
                 rev (takeWhile (\<lambda>c. c \<noteq> CHR ''/'') (rev s)))
      else None)"

definition ParsePrefix :: "string \<Rightarrow> prefix_ip option" where
  "ParsePrefix s =
     (case last_slash s of
        None \<Rightarrow> None
      | Some (ip, bits) \<Rightarrow>
          (case ParseAddr ip of
             None \<Rightarrow> None
           | Some a \<Rightarrow>
               if (case a of Addr6 _ z \<Rightarrow> z \<noteq> [] | _ \<Rightarrow> False) then None
               else if 1 < length bits \<and> hd bits = CHR ''0'' then None
               else (case parse_decimal bits of
                       None \<Rightarrow> None
                     | Some n \<Rightarrow> if BitLen a < n then None else Some (PrefixFrom a (int n)))))"

section \<open>Facts\<close>

lemma bit_host_mask [simp]: "bit (host_mask k :: 'a::len word) n \<longleftrightarrow> k \<le> n \<and> n < LENGTH('a)"
  by (auto simp: host_mask_def bit_simps)

lemma host_mask_drop: "drop_bit k (a AND host_mask k) = drop_bit k (a :: 'a::len word)"
  by (rule bit_word_eqI) (auto simp: bit_simps dest: bit_imp_le_length)

lemma host_mask_eq_iff:
  "a AND host_mask k = b AND host_mask k \<longleftrightarrow> drop_bit k a = drop_bit k (b :: 'a::len word)"
proof
  assume "drop_bit k a = drop_bit k b"
  then have eq: "bit a (k + n) = bit b (k + n)" for n
    by (metis bit_drop_bit_eq comp_apply)
  show "a AND host_mask k = b AND host_mask k"
  proof (rule bit_word_eqI)
    fix n
    show "bit (a AND host_mask k) n = bit (b AND host_mask k) n"
      using eq [of "n - k"] by (auto simp: bit_simps)
  qed
qed (metis host_mask_drop)

lemma drop_bit_XOR_0: "drop_bit k (v XOR w) = 0 \<longleftrightarrow> drop_bit k v = drop_bit k (w :: 'a::len word)"
  by (auto simp: bit_eq_iff bit_simps)

text \<open>An address between two addresses of a block is in that block.\<close>

lemma drop_bit_between:
  fixes lo a hi :: "'a::len word"
  assumes "lo \<le> a" and "a \<le> hi" and "drop_bit k lo = drop_bit k hi"
  shows "drop_bit k a = drop_bit k lo"
proof -
  have div: "unat (drop_bit k x) = unat x div 2 ^ k" for x :: "'a word"
    by (simp add: unat_drop_bit_eq drop_bit_eq_div [of k "unat x"] del: drop_bit_eq_div)
  have "unat lo div 2 ^ k \<le> unat a div 2 ^ k" "unat a div 2 ^ k \<le> unat hi div 2 ^ k"
    using assms(1,2) by (simp_all add: div_le_mono word_le_nat_alt)
  moreover have "unat lo div 2 ^ k = unat hi div 2 ^ k"
    using assms(3) div by metis
  ultimately have "unat (drop_bit k a) = unat (drop_bit k lo)" by (simp add: div)
  then show ?thesis by (rule word_unat_eq_iff [THEN iffD2])
qed

lemma Utoa_hd_nonzero: "10 \<le> n \<Longrightarrow> hd (Utoa n) \<noteq> CHR ''0''"
proof (induction n rule: Utoa.induct)
  case (1 n)
  define q where "q = n div 10"
  have q: "0 < q" "q < n" using 1(2) by (simp_all add: q_def)
  have u: "Utoa n = Utoa q @ [char_of (48 + n mod 10)]"
    using 1(2) by (subst Utoa.simps) (simp add: q_def)
  show ?case
  proof (cases "10 \<le> q")
    case True
    with 1 show ?thesis by (simp add: u q_def)
  next
    case False
    then have "of_char (hd (Utoa n)) = 48 + q" by (simp add: u Utoa.simps [of q])
    with q show ?thesis by auto
  qed
qed

lemma Utoa_length_small: "n < 10 \<Longrightarrow> length (Utoa n) = 1"
  by (subst Utoa.simps) simp

lemma parse_octet_Utoa [simp]: "parse_octet (Utoa (unat a)) = Some (a :: 8 word)"
proof -
  have lt: "unat a < 256" using unsigned_less [of a, where 'a = nat] by simp
  have "\<not> (1 < length (Utoa (unat a)) \<and> hd (Utoa (unat a)) = CHR ''0'')"
    using Utoa_hd_nonzero [of "unat a"] Utoa_length_small [of "unat a"] by (cases "unat a < 10") auto
  with lt show ?thesis by (auto simp: parse_octet_def)
qed

lemma digit_not_in_Utoa [simp]:
  "CHR ''.'' \<notin> set (Utoa n)" "CHR '':'' \<notin> set (Utoa n)" "CHR ''%'' \<notin> set (Utoa n)"
  "CHR ''/'' \<notin> set (Utoa n)" "CHR '','' \<notin> set (Utoa n)" "CHR '' '' \<notin> set (Utoa n)"
  by (auto dest!: Utoa_chars simp: is_digit_def)

lemma parse_ipv4_show [simp]: "parse_ipv4 (show_bytes4 b) = Some b"
proof -
  obtain x y z u where b: "b = (x, y, z, u)" by (metis surj_pair)
  show ?thesis by (simp add: b parse_ipv4_def Split_append_sep)
qed

lemma ParseAddr_show4 [simp]: "ParseAddr (show4 w) = Some (Addr4 w)"
proof -
  obtain x y z u where b: "PutUint32 w = (x, y, z, u)" by (metis surj_pair)
  have "dropWhile (\<lambda>c. c \<notin> {CHR ''.'', CHR '':'', CHR ''%''}) (Utoa (unat x) @ CHR ''.'' # r) = CHR ''.'' # r"
    for r
    by (subst dropWhile_append2) (auto simp: digit_not_in_Utoa)
  then have "ParseAddr (show4 w) = map_option AddrFrom4 (parse_ipv4 (show4 w))"
    by (simp add: ParseAddr_def show4_def b)
  then show ?thesis by (simp add: show4_def AddrFrom4_def)
qed

lemma ParseIP_show4 [simp]: "ParseIP (show4 w) = Some (Addr4 w)"
  by (simp add: ParseIP_def)

lemma ParsePrefix_show4:
  assumes "n \<le> 32"
  shows "ParsePrefix (show4 w @ ''/'' @ Utoa n) = Some (PrefixFrom (Addr4 w) (int n))"
proof -
  have nz: "\<not> (1 < length (Utoa n) \<and> hd (Utoa n) = CHR ''0'')"
    using Utoa_hd_nonzero [of n] Utoa_length_small [of n] by (cases "n < 10") auto
  have "rev (show4 w @ ''/'' @ Utoa n) = rev (Utoa n) @ CHR ''/'' # rev (show4 w)" by simp
  moreover have "CHR ''/'' \<notin> set (rev (Utoa n))" by simp
  ultimately have "last_slash (show4 w @ ''/'' @ Utoa n) = Some (show4 w, Utoa n)"
    by (auto simp: last_slash_def takeWhile_append dropWhile_append)
  with nz assms show ?thesis by (auto simp: ParsePrefix_def BitLen_def)
qed

lemma show4_not_Nil [simp]: "show4 w \<noteq> []"
  by (cases "PutUint32 w") (auto simp: show4_def)

lemma show4_chars: "c \<in> set (show4 w) \<Longrightarrow> is_digit c \<or> c = CHR ''.''"
  by (cases "PutUint32 w") (auto simp: show4_def dest: Utoa_chars)

lemma show4_no_space: "\<forall>c \<in> set (show4 w). \<not> go_space c"
proof
  fix c
  assume "c \<in> set (show4 w)"
  then consider "is_digit c" | "c = CHR ''.''" using show4_chars by blast
  then show "\<not> go_space c" by cases (rule digit_not_space, simp_all add: go_space_def)
qed

end
