(* ===== verification/Gadget_Ctx.thy ===== *)
theory Gadget_Ctx
  imports Base_Files Netip
begin

text \<open>
  Package \<open>core/usb/gadget\<close> (\<open>c.go\<close>): the life cycle of the USB gadget over libusbgx. Each
  C function is a \<open>Usbg\<close> call of the world; a C pointer is a flag that says whether it is set.
  Strings passed to C and freed again leave no trace. The C library itself is not modelled:
  its answers are those of the world. The errors of the package \<open>core/usb\<close>, which are built on
  these, are declared here too.
\<close>

datatype usb_error =
    CtxNotInitialised
  | UsbgFailed string
  | GadgetNotCreated
  | InvalidMac string
  | WriteAttrFailed string
  | MkdirFailed string
  | FunctionNotFound string
  | NoSuchUdc string
  | ListUdcFailed
  | NoUdcFound
  | InvalidQmult string
  | InstanceNotSet
  | IfaceNotFound string
  | NoSuchSubmode int
  | AddrAddFailed string
  | ProbeFailed
  | NonContiguousMask
  | PrefixTooSmall nat
  | MountFailed
  | AdbdNotFound
  | IdentityFailed
  | FfsPermissions
  | StartAdbdFailed
  | AdbdExited
  | AdbdTimeout
  | NoSuchFunctionType string
  | GoPanic

section \<open>Sequencing of fallible steps\<close>

text \<open>\<open>if err := m(); err != nil { return err }; n()\<close>.\<close>

definition and_then :: "'e option io \<Rightarrow> 'e option io \<Rightarrow> 'e option io" where
  "and_then m n = do {
     err \<leftarrow> m;
     (case err of Some e \<Rightarrow> return (Some e) | None \<Rightarrow> n)
   }"

fun all_of :: "'e option io list \<Rightarrow> 'e option io" where
  "all_of [] = return None"
| "all_of (m # ms) = and_then m (all_of ms)"

lemma emits_and_then [emits_rules]: "emits P m \<Longrightarrow> emits P n \<Longrightarrow> emits P (and_then m n)"
  unfolding and_then_def by (intro emits_rules)

lemma emits_all_of [emits_rules]: "list_all (emits P) ms \<Longrightarrow> emits P (all_of ms)"
  by (induction ms) (auto intro: emits_rules)

lemma and_then_ok:
  assumes "run_state (and_then m n) w = (None, w')"
  obtains w1 where "run_state m w = (None, w1)" "run_state n w1 = (None, w')"
  using assms by (auto simp: and_then_def split: prod.splits option.splits)

section \<open>The context\<close>

record gadget_ctx =
  ctx_state :: bool
  ctx_gadget :: bool
  ctx_config :: bool
  cfg_root :: string
  ctx_config_fs :: string
  gadget_name :: string

text \<open>\<open>filepath.Dir\<close>, \<open>filepath.Base\<close> and \<open>filepath.Join\<close> of rooted paths.\<close>

definition path_dir :: "string \<Rightarrow> string" where
  "path_dir s = path_string (butlast (path_comps s))"

definition path_base :: "string \<Rightarrow> string" where
  "path_base s = (if path_comps s = [] then ''/'' else last (path_comps s))"

definition join_path :: "string list \<Rightarrow> string" where
  "join_path parts = path_string (path_comps (Join ''/'' parts))"

definition usbg :: "usbg_call \<Rightarrow> string \<Rightarrow> usb_error option io" where
  "usbg c op = do {
     r \<leftarrow> sys (Usbg c);
     return (if ok r then None else Some (UsbgFailed op))
   }"

definition fail_unless :: "bool \<Rightarrow> 'e \<Rightarrow> 'e option io" where
  "fail_unless b e = return (if b then None else Some e)"

definition New :: "string \<Rightarrow> (usb_error, gadget_ctx) result io" where
  "New config_fs = do {
     let root = path_dir (path_dir config_fs);
     err \<leftarrow> usbg (usbg_init root) ''usbg_init'';
     return (case err of
         Some e \<Rightarrow> Inl e
       | None \<Rightarrow> Inr \<lparr>ctx_state = True, ctx_gadget = False, ctx_config = False, cfg_root = root,
                      ctx_config_fs = config_fs, gadget_name = path_base config_fs\<rparr>)
   }"

definition CtxClose :: "gadget_ctx \<Rightarrow> gadget_ctx io" where
  "CtxClose this =
     (if ctx_state this then do {
        _ \<leftarrow> sys (Usbg usbg_cleanup);
        return (this\<lparr>ctx_state := False\<rparr>)
      } else return this)"

definition CleanAll :: "gadget_ctx \<Rightarrow> (usb_error option \<times> gadget_ctx) io" where
  "CleanAll this =
     (if \<not> ctx_state this then return (Some CtxNotInitialised, this)
      else do {
        g \<leftarrow> sys (Usbg usbg_get_first_gadget);
        if \<not> ok g then return (None, this\<lparr>ctx_gadget := False, ctx_config := False\<rparr>)
        else do {
          udc \<leftarrow> sys (Usbg usbg_get_gadget_udc);
          _ \<leftarrow> (if ok udc then do { _ \<leftarrow> sys (Usbg usbg_disable_gadget); return () } else return ());
          err \<leftarrow> usbg usbg_rm_gadget ''usbg_rm_gadget'';
          return (case err of
              Some e \<Rightarrow> (Some e, this)
            | None \<Rightarrow> (None, this\<lparr>ctx_gadget := False, ctx_config := False\<rparr>))
        }
      })"

definition CreateGadget :: "gadget_ctx \<Rightarrow> (usb_error option \<times> gadget_ctx) io" where
  "CreateGadget this =
     (if \<not> ctx_state this then return (Some CtxNotInitialised, this)
      else do {
        err \<leftarrow> and_then (usbg (usbg_create_gadget (gadget_name this)) ''usbg_create_gadget'')
                  (usbg (usbg_create_config 1 ''c1'') ''usbg_create_config'');
        return (case err of
            Some e \<Rightarrow> (Some e, this)
          | None \<Rightarrow> (None, this\<lparr>ctx_gadget := True, ctx_config := True\<rparr>))
      })"

text \<open>\<open>net.ParseMAC\<close> for the six-byte forms; every other length is refused by \<open>parse_mac\<close>.\<close>

definition hex_bytes :: "string \<Rightarrow> 8 word list option" where
  "hex_bytes s =
     (if s \<noteq> [] \<and> even (length s) \<and> list_all (\<lambda>c. hex_val c \<noteq> None) s
      then Some (map (\<lambda>i. of_nat (the (hex_val (s ! (2 * i))) * 16 + the (hex_val (s ! (2 * i + 1)))))
                   [0..<length s div 2])
      else None)"

definition parse_mac :: "string \<Rightarrow> 8 word list option" where
  "parse_mac mac =
     (if length mac = 17 \<and> (mac ! 2 = CHR '':'' \<or> mac ! 2 = CHR ''-'') then
        (let parts = Split (mac ! 2) mac in
         if length parts = 6 \<and> list_all (\<lambda>p. length p = 2 \<and> hex_bytes p \<noteq> None) parts
         then hex_bytes (concat parts) else None)
      else if length mac = 14 \<and> mac ! 4 = CHR ''.'' then
        (let parts = Split CHR ''.'' mac in
         if length parts = 3 \<and> list_all (\<lambda>p. length p = 4 \<and> hex_bytes p \<noteq> None) parts
         then hex_bytes (concat parts) else None)
      else None)"

definition write_attr :: "string \<Rightarrow> string \<Rightarrow> usb_error option io" where
  "write_attr path content = do {
     r \<leftarrow> sys (WriteFile path content);
     return (if ok r then None else Some (WriteAttrFailed path))
   }"

definition rndis_ifname_pattern :: "string \<Rightarrow> string" where
  "rndis_ifname_pattern ifname =
     (let stem = rev (dropWhile is_digit (rev ifname)) in
      (if stem = [] then ifname else stem) @ ''%d'')"

definition newline :: string where
  "newline = [char_of (10::nat)]"

definition AddRndis ::
  "string \<Rightarrow> string \<Rightarrow> string \<Rightarrow> string \<Rightarrow> nat \<Rightarrow> gadget_ctx \<Rightarrow> usb_error option io" where
  "AddRndis instance dev_addr host_addr ifname qmult this =
     (if \<not> ctx_gadget this \<or> \<not> ctx_config this then return (Some GadgetNotCreated)
      else and_then (usbg (usbg_create_function F_RNDIS instance) ''usbg_create_function(rndis)'')
        (case parse_mac dev_addr of
           None \<Rightarrow> return (Some (InvalidMac dev_addr))
         | Some dev \<Rightarrow>
        (case parse_mac host_addr of
           None \<Rightarrow> return (Some (InvalidMac host_addr))
         | Some host \<Rightarrow>
             all_of
              [usbg (usbg_net_set_dev_addr dev) ''usbg_f_net_set_dev_addr'',
               usbg (usbg_net_set_host_addr host) ''usbg_f_net_set_host_addr'',
               (if 0 < qmult then usbg (usbg_net_set_qmult qmult) ''usbg_f_net_set_qmult'' else return None),
               write_attr (join_path [ctx_config_fs this, ''functions'', ''rndis.'' @ instance, ''ifname''])
                 (rndis_ifname_pattern ifname @ newline),
               usbg (usbg_add_config_function instance) ''usbg_add_config_function(rndis)''])))"

definition AddFfs :: "string \<Rightarrow> gadget_ctx \<Rightarrow> usb_error option io" where
  "AddFfs instance this =
     (if \<not> ctx_gadget this \<or> \<not> ctx_config this then return (Some GadgetNotCreated)
      else all_of
        [usbg (usbg_create_function F_FFS instance) ''usbg_create_function(ffs)'',
         usbg (usbg_add_config_function instance) ''usbg_add_config_function(ffs)''])"

definition SetGadgetAttrs ::
  "16 word \<Rightarrow> 16 word \<Rightarrow> 16 word \<Rightarrow> 16 word \<Rightarrow> 8 word \<Rightarrow> 8 word \<Rightarrow> 8 word \<Rightarrow> gadget_ctx \<Rightarrow>
     usb_error option io" where
  "SetGadgetAttrs bcd_usb id_vendor id_product bcd_device cls sub_class protocol this =
     (if \<not> ctx_gadget this then return (Some GadgetNotCreated)
      else usbg (usbg_set_gadget_attrs
             \<lparr>bcdUSB = bcd_usb, bDeviceClass = cls, bDeviceSubClass = sub_class,
              bDeviceProtocol = protocol, bMaxPacketSize0 = 64, idVendor = id_vendor,
              idProduct = id_product, bcdDevice = bcd_device\<rparr>) ''usbg_set_gadget_attrs'')"

definition SetStrs :: "string \<Rightarrow> string \<Rightarrow> string \<Rightarrow> gadget_ctx \<Rightarrow> usb_error option io" where
  "SetStrs serial manufacturer product this =
     (if \<not> ctx_gadget this then return (Some GadgetNotCreated)
      else usbg (usbg_set_gadget_strs 0x409 serial manufacturer product) ''usbg_set_gadget_strs'')"

definition SetOsDesc :: "8 word \<Rightarrow> string \<Rightarrow> gadget_ctx \<Rightarrow> usb_error option io" where
  "SetOsDesc vendor_code qw_sign this =
     (if \<not> ctx_gadget this \<or> \<not> ctx_config this then return (Some GadgetNotCreated)
      else all_of
        [usbg (usbg_set_gadget_os_descs True vendor_code qw_sign) ''usbg_set_gadget_os_descs'',
         usbg usbg_set_os_desc_config ''usbg_set_os_desc_config''])"

definition SetFunctionOsDesc ::
  "string \<Rightarrow> string \<Rightarrow> string \<Rightarrow> string \<Rightarrow> gadget_ctx \<Rightarrow> usb_error option io" where
  "SetFunctionOsDesc instance iname compat_id sub_compat_id this =
     (if \<not> ctx_gadget this then return (Some GadgetNotCreated)
      else do {
        let dir = join_path [ctx_config_fs this, ''functions'', ''rndis.'' @ instance, ''os_desc'',
                             ''interface.'' @ iname];
        r \<leftarrow> sys (MkdirAll dir);
        if \<not> ok r then return (Some (MkdirFailed dir))
        else do {
          f \<leftarrow> sys (Usbg (usbg_get_function F_RNDIS instance));
          if \<not> ok f then return (Some (FunctionNotFound instance))
          else usbg (usbg_set_interf_os_desc iname compat_id sub_compat_id) ''usbg_set_interf_os_desc''
        }
      })"

definition SetConfigName :: "string \<Rightarrow> gadget_ctx \<Rightarrow> usb_error option io" where
  "SetConfigName name this =
     (if \<not> ctx_config this then return (Some GadgetNotCreated)
      else usbg (usbg_set_config_strs 0x409 name) ''usbg_set_config_strs'')"

definition WriteConfigMaxPower :: "nat \<Rightarrow> gadget_ctx \<Rightarrow> usb_error option io" where
  "WriteConfigMaxPower mA this =
     write_attr (join_path [ctx_config_fs this, ''configs'', ''c1.1'', ''MaxPower'']) (Utoa mA @ newline)"

definition CtxEnable :: "string \<Rightarrow> gadget_ctx \<Rightarrow> usb_error option io" where
  "CtxEnable udc this =
     (if \<not> ctx_gadget this then return (Some GadgetNotCreated)
      else do {
        u \<leftarrow> sys (Usbg (usbg_get_udc udc));
        if \<not> ok u then return (Some (NoSuchUdc udc))
        else usbg usbg_enable_gadget ''usbg_enable_gadget''
      })"

section \<open>Facts\<close>

text \<open>The calls that dereference the gadget or the config of the context.\<close>

definition needs_gadget :: "os_call \<Rightarrow> bool" where
  "needs_gadget c =
     (case c of
        Usbg u \<Rightarrow>
          (case u of
             usbg_init _ \<Rightarrow> False | usbg_cleanup \<Rightarrow> False | usbg_get_first_gadget \<Rightarrow> False
           | usbg_get_gadget_udc \<Rightarrow> False | usbg_disable_gadget \<Rightarrow> False | usbg_rm_gadget \<Rightarrow> False
           | usbg_create_gadget _ \<Rightarrow> False | usbg_create_config _ _ \<Rightarrow> False | usbg_get_udc _ \<Rightarrow> False
           | _ \<Rightarrow> True)
      | _ \<Rightarrow> False)"

lemma emits_usbg [emits_rules]: "P (Usbg c) \<Longrightarrow> emits P (usbg c op)"
  unfolding usbg_def by (intro emits_rules)

lemma emits_write_attr [emits_rules]: "P (WriteFile path content) \<Longrightarrow> emits P (write_attr path content)"
  unfolding write_attr_def by (intro emits_rules)

lemma HasSuffix_pattern [simp]: "HasSuffix (rndis_ifname_pattern ifname) ''%d''"
  by (simp add: rndis_ifname_pattern_def Let_def HasSuffix_def suffix_def)

lemma usbg_ok_iff: "run_state (usbg c op) w = (None, w') \<longleftrightarrow>
    ok (fst (env w (trace w) (Usbg c))) \<and> w' = snd (sys_step (Usbg c) w)"
  by (auto simp: usbg_def fst_sys_step [symmetric] split: prod.splits)

text \<open>The pair of pointers is set together, by \<open>CreateGadget\<close>, and cleared together.\<close>

definition ctx_wf :: "gadget_ctx \<Rightarrow> bool" where
  "ctx_wf this \<longleftrightarrow> ctx_config this = ctx_gadget this \<and> (ctx_gadget this \<longrightarrow> ctx_state this)"

lemma CleanAll_result:
  assumes "run_state (CleanAll this) w = ((err, this'), w')"
  shows "if err = None then this' = this\<lparr>ctx_gadget := False, ctx_config := False\<rparr> else this' = this"
  using assms by (auto simp: CleanAll_def split: if_splits prod.splits option.splits)

lemma CreateGadget_result:
  assumes "run_state (CreateGadget this) w = ((err, this'), w')"
  shows "if err = None then ctx_state this \<and> this' = this\<lparr>ctx_gadget := True, ctx_config := True\<rparr>
         else this' = this"
  using assms by (auto simp: CreateGadget_def split: if_splits prod.splits option.splits)

end
