(* ===== verification/Usb_Function.thy ===== *)
theory Usb_Function
  imports Gadget_Ctx
begin

text \<open>
  The part of \<open>core/usb/controller.go\<close> that every gadget function embeds: the function codes
  and \<open>UsbGadgetFunctionBase\<close>. Go's embedding is a record that the concrete functions extend.
  The locale \<open>usb_function\<close> is the Go interface \<open>UsbGadgetFunction\<close>: what the controller and
  the daemon rely on for any function.
\<close>

definition PROJECT_IDENT :: string where
  "PROJECT_IDENT = ''miruku-wifi-stick-usb-switcher''"

definition USB_GADGET_FUNCTION_CODE_NONE :: "32 word" where
  "USB_GADGET_FUNCTION_CODE_NONE = 0"

definition USB_GADGET_FUNCTION_CODE_RNDIS :: "32 word" where
  "USB_GADGET_FUNCTION_CODE_RNDIS = 1"

definition USB_GADGET_FUNCTION_CODE_ADB :: "32 word" where
  "USB_GADGET_FUNCTION_CODE_ADB = 1"

record function_context =
  fctx_C :: gadget_ctx
  ConfigFs :: string

record usb_function_base =
  fn_instance :: string
  fn_type :: string
  fn_code :: "32 word"
  fn_effected :: bool
  fn_submode :: int
  fn_max_submode :: int

definition SetSubmode :: "int \<Rightarrow> 'a usb_function_base_scheme \<Rightarrow> 'a usb_function_base_scheme" where
  "SetSubmode mode this = this\<lparr>fn_submode := mode\<rparr>"

definition set_instance :: "string \<Rightarrow> 'a usb_function_base_scheme \<Rightarrow> 'a usb_function_base_scheme" where
  "set_instance i this = this\<lparr>fn_instance := i\<rparr>"

definition set_effected :: "bool \<Rightarrow> 'a usb_function_base_scheme \<Rightarrow> 'a usb_function_base_scheme" where
  "set_effected e this = this\<lparr>fn_effected := e\<rparr>"

definition get_path :: "'a usb_function_base_scheme \<Rightarrow> string" where
  "get_path this = fn_type this @ ''.'' @ fn_instance this"

text \<open>The default methods of the base.\<close>

definition base_remove :: "function_context \<Rightarrow> 'a usb_function_base_scheme \<Rightarrow> usb_error option io" where
  "base_remove ctx this = return None"

definition base_enable ::
  "function_context \<Rightarrow> 'a usb_function_base_scheme \<Rightarrow> (usb_error option \<times> 'a usb_function_base_scheme) io" where
  "base_enable ctx this = return (None, this)"

section \<open>The function interface\<close>

text \<open>
  A function with its three phases. Whatever the machine answers, a phase keeps the name, the
  type, the bound on submodes and the effected flag; \<open>add\<close> and \<open>effect\<close> keep the submode, and
  \<open>enable\<close> leaves it unchanged or resets it to 0.
\<close>

locale usb_function =
  fixes add effect enable :: "function_context \<Rightarrow> 'f \<Rightarrow> (usb_error option \<times> 'f) io"
    and submode max_submode :: "'f \<Rightarrow> int" and put_submode :: "int \<Rightarrow> 'f \<Rightarrow> 'f"
    and effected :: "'f \<Rightarrow> bool" and put_effected :: "bool \<Rightarrow> 'f \<Rightarrow> 'f"
    and ident :: "'f \<Rightarrow> 'i"
  assumes add_keeps:
      "run_state (add ctx f) w = ((err, f'), w') \<Longrightarrow>
         submode f' = submode f \<and> max_submode f' = max_submode f \<and> ident f' = ident f \<and> effected f' = effected f"
    and effect_keeps:
      "run_state (effect ctx f) w = ((err, f'), w') \<Longrightarrow>
         submode f' = submode f \<and> max_submode f' = max_submode f \<and> ident f' = ident f \<and> effected f' = effected f"
    and enable_keeps:
      "run_state (enable ctx f) w = ((err, f'), w') \<Longrightarrow>
         (submode f' = submode f \<or> submode f' = 0) \<and> max_submode f' = max_submode f \<and>
         ident f' = ident f \<and> effected f' = effected f"
    and submode_put: "submode (put_submode m f) = m" "submode (put_effected b f) = submode f"
    and effected_put: "effected (put_effected b f) = b" "effected (put_submode m f) = effected f"
    and others_put:
      "max_submode (put_submode m f) = max_submode f" "ident (put_submode m f) = ident f"
      "max_submode (put_effected b f) = max_submode f" "ident (put_effected b f) = ident f"
begin

text \<open>A function whose submode is one of its own keeps it so through every phase.\<close>

definition submode_ok :: "'f \<Rightarrow> bool" where
  "submode_ok f \<longleftrightarrow> 0 \<le> submode f \<and> submode f \<le> max_submode f"

lemma add_submode_ok: "submode_ok f \<Longrightarrow> submode_ok (snd (fst (run_state (add ctx f) w)))"
  by (cases "run_state (add ctx f) w"; cases "fst (run_state (add ctx f) w)")
    (auto simp: submode_ok_def dest: add_keeps)

lemma effect_submode_ok: "submode_ok f \<Longrightarrow> submode_ok (snd (fst (run_state (effect ctx f) w)))"
  by (cases "run_state (effect ctx f) w"; cases "fst (run_state (effect ctx f) w)")
    (auto simp: submode_ok_def dest: effect_keeps)

lemma enable_submode_ok: "submode_ok f \<Longrightarrow> submode_ok (snd (fst (run_state (enable ctx f) w)))"
  by (cases "run_state (enable ctx f) w"; cases "fst (run_state (enable ctx f) w)")
    (auto simp: submode_ok_def dest: enable_keeps)

lemma cycle_submode_ok:
  assumes "submode_ok f"
  shows "submode_ok (put_submode (go_mod (submode f + 1) (max_submode f + 1)) f)"
  using assms go_mod_bounds [of "max_submode f + 1" "submode f + 1"]
  by (auto simp: submode_ok_def submode_put others_put)

end

end
