(* ===== verification/File_Model.thy ===== *)
theory File_Model
  imports OS_World
begin

text \<open>
  A machine whose files behave: the calls on files act on a map from paths to regular files and
  symbolic links as POSIX says, so that what the sources leave behind can be stated. Links are
  followed one level, which is what the sources meet. The other calls fail. \<open>fs_exec m F x F'\<close>
  says that on such a machine \<open>m\<close> answers \<open>x\<close> and turns the files \<open>F\<close> into \<open>F'\<close>.
\<close>

datatype fs_node = Regular string | SymLink string

type_synonym fs = "string \<rightharpoonup> fs_node"

definition fs_read :: "fs \<Rightarrow> string \<Rightarrow> string option" where
  "fs_read F p =
     (case F p of
        Some (Regular s) \<Rightarrow> Some s
      | Some (SymLink t) \<Rightarrow> (case F t of Some (Regular s) \<Rightarrow> Some s | _ \<Rightarrow> None)
      | None \<Rightarrow> None)"

text \<open>The name \<open>CreateTemp\<close> gives to a new file; on this machine it is free.\<close>

definition temp_name :: "string \<Rightarrow> string \<Rightarrow> string" where
  "temp_name d p = d @ ''/'' @ TrimSuffix p ''*'' @ ''0''"

definition fs_step :: "os_call \<Rightarrow> fs \<Rightarrow> fs" where
  "fs_step c F =
     (case c of
        WriteFile p s \<Rightarrow>
          (case F p of Some (SymLink t) \<Rightarrow> F(t \<mapsto> Regular s) | _ \<Rightarrow> F(p \<mapsto> Regular s))
      | Remove p \<Rightarrow> F(p := None)
      | Symlink t p \<Rightarrow> if F p = None then F(p \<mapsto> SymLink t) else F
      | CreateTemp d p \<Rightarrow> F(temp_name d p \<mapsto> Regular [])
      | FileWriteString p s \<Rightarrow>
          (case F p of Some (Regular r) \<Rightarrow> F(p \<mapsto> Regular (r @ s)) | _ \<Rightarrow> F)
      | Rename p q \<Rightarrow> (case F p of Some n \<Rightarrow> F(p := None, q \<mapsto> n) | None \<Rightarrow> F)
      | _ \<Rightarrow> F)"

definition fs_reply :: "fs \<Rightarrow> os_call \<Rightarrow> os_reply" where
  "fs_reply F c =
     (case c of
        ReadFile p \<Rightarrow> (case fs_read F p of Some s \<Rightarrow> Done [s] | None \<Rightarrow> Fail NotExist)
      | Stat p \<Rightarrow> (case fs_read F p of Some s \<Rightarrow> Done [''file''] | None \<Rightarrow> Fail NotExist)
      | Readlink p \<Rightarrow> (case F p of Some (SymLink t) \<Rightarrow> Done [t] | _ \<Rightarrow> Fail OtherErr)
      | WriteFile p s \<Rightarrow> Done []
      | Remove p \<Rightarrow> if F p = None then Fail NotExist else Done []
      | Symlink t p \<Rightarrow> if F p = None then Done [] else Fail OtherErr
      | MkdirAll p \<Rightarrow> Done []
      | CreateTemp d p \<Rightarrow> Done [temp_name d p]
      | FileChmod p n \<Rightarrow> Done []
      | FileWriteString p s \<Rightarrow> Done []
      | FileSync p \<Rightarrow> Done []
      | FileClose p \<Rightarrow> Done []
      | Rename p q \<Rightarrow> if F p = None then Fail NotExist else Done []
      | _ \<Rightarrow> Fail OtherErr)"

definition fs_env :: "fs \<Rightarrow> os_env" where
  "fs_env F0 h c = (fs_reply (fold fs_step h F0) c, 1)"

definition fs_world :: "fs \<Rightarrow> world" where
  "fs_world F = \<lparr>env = fs_env F, clock = 1, trace = [], fuel = 1, adbd_process = None\<rparr>"

definition fs_exec :: "'a io \<Rightarrow> fs \<Rightarrow> 'a \<Rightarrow> fs \<Rightarrow> bool" where
  "fs_exec m F x F' =
     (\<forall>F0 w. env w = fs_env F0 \<longrightarrow> fold fs_step (trace w) F0 = F \<longrightarrow>
        fst (run_state m w) = x \<and> env (snd (run_state m w)) = fs_env F0 \<and>
        fold fs_step (trace (snd (run_state m w))) F0 = F')"

lemma fs_exec_return: "fs_exec (return x) F x F"
  by (simp add: fs_exec_def)

lemma fs_exec_sys: "fs_exec (sys c) F (fs_reply F c) (fs_step c F)"
  by (simp add: fs_exec_def fst_sys_step fs_env_def)

lemma fs_exec_bind:
  assumes "fs_exec m F x F1" and "fs_exec (f x) F1 y F2"
  shows "fs_exec (m \<bind> f) F y F2"
  unfolding fs_exec_def
proof (intro allI impI)
  fix F0 and w :: world
  assume w: "env w = fs_env F0" "fold fs_step (trace w) F0 = F"
  obtain v w1 where r: "run_state m w = (v, w1)" by (cases "run_state m w")
  with assms(1) w have "v = x" "env w1 = fs_env F0" "fold fs_step (trace w1) F0 = F1"
    unfolding fs_exec_def by force+
  with assms(2) r show "fst (run_state (m \<bind> f) w) = y \<and> env (snd (run_state (m \<bind> f) w)) = fs_env F0 \<and>
    fold fs_step (trace (snd (run_state (m \<bind> f) w))) F0 = F2"
    unfolding fs_exec_def by force
qed

text \<open>Symbolic execution: one call at a time, then the result.\<close>

lemma fs_exec_call: "fs_exec (f (fs_reply F c)) (fs_step c F) y F2 \<Longrightarrow> fs_exec (sys c \<bind> f) F y F2"
  by (rule fs_exec_bind [OF fs_exec_sys])

lemma fs_exec_done: "x = y \<Longrightarrow> F = F' \<Longrightarrow> fs_exec (return x) F y F'"
  by (simp add: fs_exec_return)

lemma fs_step_reads [simp]:
  "fs_step (Stat f) F = F" "fs_step (Readlink f) F = F" "fs_step (ReadFile f) F = F"
  by (simp_all add: fs_step_def)

lemma fs_step_writes [simp]:
  "F p = None \<Longrightarrow> fs_step (WriteFile p s) F = F(p \<mapsto> Regular s)"
  "F p = Some (Regular r) \<Longrightarrow> fs_step (WriteFile p s) F = F(p \<mapsto> Regular s)"
  "F p = Some (SymLink t) \<Longrightarrow> fs_step (WriteFile p s) F = F(t \<mapsto> Regular s)"
  "fs_step (Remove p) F = F(p := None)"
  "F p = None \<Longrightarrow> fs_step (Symlink t p) F = F(p \<mapsto> SymLink t)"
  by (simp_all add: fs_step_def)

lemma fs_reply_simps [simp]:
  "fs_read F p = Some s \<Longrightarrow> fs_reply F (ReadFile p) = Done [s]"
  "fs_read F p = None \<Longrightarrow> fs_reply F (ReadFile p) = Fail NotExist"
  "fs_read F p = Some s \<Longrightarrow> fs_reply F (Stat p) = Done [''file'']"
  "fs_read F p = None \<Longrightarrow> fs_reply F (Stat p) = Fail NotExist"
  "F p = Some (SymLink t) \<Longrightarrow> fs_reply F (Readlink p) = Done [t]"
  "F p = Some (Regular r) \<Longrightarrow> fs_reply F (Readlink p) = Fail OtherErr"
  "F p = None \<Longrightarrow> fs_reply F (Readlink p) = Fail OtherErr"
  "fs_reply F (WriteFile p s) = Done []"
  "F p = None \<Longrightarrow> fs_reply F (Symlink t p) = Done []"
  by (simp_all add: fs_reply_def)

lemma fs_temp_simps [simp]:
  "fs_reply F (MkdirAll d) = Done []" "fs_step (MkdirAll d) F = F"
  "fs_reply F (CreateTemp d p) = Done [temp_name d p]" "fs_step (CreateTemp d p) F = F(temp_name d p \<mapsto> Regular [])"
  "fs_reply F (FileChmod q n) = Done []" "fs_step (FileChmod q n) F = F"
  "fs_reply F (FileWriteString q s) = Done []"
  "F q = Some (Regular r) \<Longrightarrow> fs_step (FileWriteString q s) F = F(q \<mapsto> Regular (r @ s))"
  "fs_reply F (FileSync q) = Done []" "fs_step (FileSync q) F = F"
  "fs_reply F (FileClose q) = Done []" "fs_step (FileClose q) F = F"
  "F q = Some node \<Longrightarrow> fs_reply F (Rename q p) = Done []" "F q = Some node \<Longrightarrow> fs_step (Rename q p) F = F(q := None, p \<mapsto> node)"
  by (simp_all add: fs_reply_def fs_step_def)

lemma fs_read_simps [simp]:
  "F p = None \<Longrightarrow> fs_read F p = None"
  "F p = Some (Regular s) \<Longrightarrow> fs_read F p = Some s"
  "F p = Some (SymLink t) \<Longrightarrow> F t = Some (Regular s) \<Longrightarrow> fs_read F p = Some s"
  by (simp_all add: fs_read_def)

lemma nth_item_single [simp]: "nth_item 0 (Done [x]) = x"
  by (simp add: nth_item_def)

lemma fs_exec_world:
  "fs_exec m F x F' \<Longrightarrow> fst (run_state m (fs_world F)) = x \<and>
     fold fs_step (trace (snd (run_state m (fs_world F)))) F = F'"
  by (simp add: fs_exec_def fs_world_def)

end
