(* ===== verification/Rndis.thy ===== *)
theory Rndis
  imports Usb_Function File_Model
begin

unbundle bit_operations_syntax

text \<open>
  \<open>core/usb/rndis.go\<close>: the RNDIS function. Gateway submode (0) gives the interface its address
  and starts a DHCP server for the USB host; client submode (1) takes a subnet from an upstream
  DHCP server, else tries the fixed Windows sharing network, else falls back to gateway submode.

  Commands, files and sockets are calls of the world. The time limits of external commands and
  sockets are part of their answers. A Go panic is the error \<open>GoPanic\<close>.
\<close>

section \<open>The function\<close>

record usb_gadget_rndis = usb_function_base +
  ip_addr :: prefix_ip
  connection_prefix :: string
  client_ip :: addr
  client_timeout :: int
  ics_timeout :: int
  dev_addr :: string
  host_addr :: string
  ifname :: string
  qmult :: string
  dnsmasq_args :: "string list"
  serial_number :: string
  manufacturer :: string
  product :: string

definition dnsmasq_pid_file :: "usb_gadget_rndis \<Rightarrow> string" where
  "dnsmasq_pid_file this = ''/tmp/dnsmasq-'' @ ifname this @ ''.pid''"

definition dnsmasq_lease_file :: "usb_gadget_rndis \<Rightarrow> string" where
  "dnsmasq_lease_file this = ''/tmp/dnsmasq-'' @ ifname this @ ''.leases''"

definition rndis_add :: "function_context \<Rightarrow> usb_gadget_rndis \<Rightarrow> (usb_error option \<times> usb_gadget_rndis) io" where
  "rndis_add ctx this = do {
     let this = set_instance ''rndis.1'' this;
     (case (if qmult this \<noteq> [] then ParseUint32 (qmult this) else Some 0) of
        None \<Rightarrow> return (Some (InvalidQmult (qmult this)), this)
      | Some q \<Rightarrow> do {
          err \<leftarrow> AddRndis (fn_instance this) (dev_addr this) (host_addr this) (ifname this) q (fctx_C ctx);
          return (err, this)
        })
   }"

definition resolve_ifname :: "function_context \<Rightarrow> usb_gadget_rndis \<Rightarrow> string io" where
  "resolve_ifname ctx this =
     (if fn_instance this = [] then return []
      else do {
        r \<leftarrow> sys (ReadFile (join_path [ConfigFs ctx, ''functions'', ''rndis.'' @ fn_instance this, ''ifname'']));
        return (if \<not> ok r then []
                else (let name = TrimSpace (data r) in if HasSuffix name ''%d'' then [] else name))
      })"

section \<open>dnsmasq\<close>

definition proc_file :: "int \<Rightarrow> string \<Rightarrow> string" where
  "proc_file pid name = ''/proc/'' @ Itoa pid @ ''/'' @ name"

definition read_dnsmasq_pid :: "string \<Rightarrow> int io" where
  "read_dnsmasq_pid pidFile = do {
     r \<leftarrow> sys (ReadFile pidFile);
     if \<not> ok r then return 0
     else (case Atoi (TrimSpace (data r)) of
             None \<Rightarrow> return 0
           | Some pidNum \<Rightarrow>
               if pidNum \<le> 0 then return 0
               else do {
                 cmdline \<leftarrow> sys (ReadFile (proc_file pidNum ''cmdline''));
                 return (if \<not> ok cmdline \<or> \<not> Contains (data cmdline) (''--pid-file='' @ pidFile)
                         then 0 else pidNum)
               })
   }"

definition stop_dnsmasq_one :: "string \<Rightarrow> unit option io" where
  "stop_dnsmasq_one pidFile = do {
     pidNum \<leftarrow> read_dnsmasq_pid pidFile;
     if pidNum \<le> 0 then return None
     else do {
       k \<leftarrow> sys (Kill pidNum);
       if \<not> ok k then return None
       else do { _ \<leftarrow> sys (Remove pidFile); return None }
     }
   }"

definition stop_dnsmasq_all :: "unit io" where
  "stop_dnsmasq_all = do {
     matches \<leftarrow> sys (Glob ''/tmp/dnsmasq-*.pid'');
     if \<not> ok matches then return ()
     else do { _ \<leftarrow> for_io (items matches) stop_dnsmasq_one; return () }
   }"

text \<open>The last address of a subnet.\<close>

definition subnet_last :: "prefix_ip \<Rightarrow> addr option" where
  "subnet_last p =
     (if \<not> pfx_IsValid p \<or> 32 \<le> pfx_bits p \<or> \<not> Is4 (pfx_addr p) then None
      else (case pfx_addr (Masked p) of
              Addr4 network \<Rightarrow>
                (let netmask = push_bit (nat (32 - pfx_bits p)) 0xffffffff in
                 Some (Addr4 (network OR NOT netmask)))
            | _ \<Rightarrow> None))"

text \<open>The DHCP pool of \<open>start_dnsmasq\<close>: behind the router's own address, before the broadcast.\<close>

definition dhcp_pool :: "prefix_ip \<Rightarrow> (addr \<times> addr) option" where
  "dhcp_pool p =
     (case subnet_last p of
        None \<Rightarrow> None
      | Some broadcast \<Rightarrow>
          (let start = addr_Next (pfx_addr p); stop = addr_Prev broadcast in
           if \<not> addr_IsValid start \<or> stop < start then None else Some (start, stop)))"

definition dnsmasq_command :: "usb_gadget_rndis \<Rightarrow> addr \<Rightarrow> addr \<Rightarrow> string list" where
  "dnsmasq_command this start stop =
     [''dnsmasq'', ''--conf-file=/dev/null'',
      ''--dhcp-range='' @ addr_String start @ '','' @ addr_String stop @ '',12h'',
      ''--dhcp-option=option:router,'' @ addr_String (pfx_addr (ip_addr this)),
      ''--port=0'', ''--no-resolv'', ''--no-hosts''] @
     dnsmasq_args this @
     [''--interface='' @ ifname this, ''--bind-interfaces'',
      ''--pid-file='' @ dnsmasq_pid_file this,
      ''--dhcp-leasefile='' @ dnsmasq_lease_file this]"

definition start_dnsmasq :: "usb_gadget_rndis \<Rightarrow> unit io" where
  "start_dnsmasq this = do {
     pidNum \<leftarrow> read_dnsmasq_pid (dnsmasq_pid_file this);
     if 0 < pidNum then return ()
     else (case dhcp_pool (ip_addr this) of
             None \<Rightarrow> return ()
           | Some (start, stop) \<Rightarrow> run_cmd (dnsmasq_command this start stop))
   }"

definition rndis_effect :: "function_context \<Rightarrow> usb_gadget_rndis \<Rightarrow> (usb_error option \<times> usb_gadget_rndis) io" where
  "rndis_effect ctx this =
     (if fn_instance this = [] then return (Some InstanceNotSet, this)
      else do {
        err \<leftarrow> all_of
          [SetGadgetAttrs 0x0200 0x18d1 0x4ee4 0x0223 0 0 0 (fctx_C ctx),
           SetStrs (serial_number this) (manufacturer this) (product this) (fctx_C ctx),
           SetConfigName ''RNDIS'' (fctx_C ctx),
           WriteConfigMaxPower 500 (fctx_C ctx),
           SetOsDesc 0xcd ''MSFT100'' (fctx_C ctx),
           SetFunctionOsDesc (fn_instance this) ''rndis'' ''RNDIS'' ''5162001'' (fctx_C ctx)];
        (case err of
           Some e \<Rightarrow> return (Some e, this)
         | None \<Rightarrow> do { _ \<leftarrow> stop_dnsmasq_all; return (None, this) })
      })"

section \<open>Interface addresses\<close>

definition has_iface_addr :: "string \<Rightarrow> string \<Rightarrow> bool io" where
  "has_iface_addr ifn ipSpec = do {
     iface \<leftarrow> sys (NetInterface ifn);
     if \<not> ok iface then return False
     else do {
       addrs \<leftarrow> sys (IfaceAddrs ifn);
       return (ok addrs \<and> ipSpec \<in> set (items addrs))
     }
   }"

text \<open>\<open>left\<close> counts the attempts still allowed after this one.\<close>

fun add_iface_addr_loop :: "nat \<Rightarrow> string \<Rightarrow> string \<Rightarrow> usb_error option io" where
  "add_iface_addr_loop left ifn ipSpec = do {
     r \<leftarrow> sys (Exec [''ip'', ''addr'', ''add'', ipSpec, ''dev'', ifn]);
     if ok r then return None
     else do {
       has \<leftarrow> has_iface_addr ifn ipSpec;
       if has then return None
       else (case left of
               0 \<Rightarrow> return (Some (AddrAddFailed ipSpec))
             | Suc n \<Rightarrow> do { _ \<leftarrow> sys (Sleep 500000000); add_iface_addr_loop n ifn ipSpec })
     }
   }"

declare add_iface_addr_loop.simps [simp del]

definition add_iface_addr :: "string \<Rightarrow> string \<Rightarrow> usb_error option io" where
  "add_iface_addr ifn ipSpec = add_iface_addr_loop 2 ifn ipSpec"

section \<open>resolv.conf\<close>

definition resolvConfPath :: string where
  "resolvConfPath = ''/etc/resolv.conf''"

definition resolvConfBackup :: string where
  "resolvConfBackup = ''/tmp/rndis-resolv.conf''"

definition backup_resolv_conf :: "unit io" where
  "backup_resolv_conf = do {
     stat \<leftarrow> sys (Stat resolvConfBackup);
     if ok stat then return ()
     else do {
       link \<leftarrow> sys (Readlink resolvConfPath);
       content \<leftarrow> sys (ReadFile resolvConfPath);
       if \<not> ok content then return ()
       else do {
         _ \<leftarrow> sys (WriteFile resolvConfBackup
                     (if ok link then ''LINK:'' @ data link @ newline @ data content else data content));
         return ()
       }
     }
   }"

definition resolv_conf_text :: "addr list \<Rightarrow> string" where
  "resolv_conf_text dns =
     ''# generated by '' @ PROJECT_IDENT @ '' RNDIS client submode'' @ newline @
     concat (map (\<lambda>d. ''nameserver '' @ addr_String d @ newline) dns)"

definition apply_dns :: "addr list \<Rightarrow> addr \<Rightarrow> unit io" where
  "apply_dns dns fallback = do {
     _ \<leftarrow> backup_resolv_conf;
     _ \<leftarrow> sys (Remove resolvConfPath);
     _ \<leftarrow> sys (WriteFile resolvConfPath (resolv_conf_text (if dns = [] then [fallback] else dns)));
     return ()
   }"

definition restore_dns :: "unit io" where
  "restore_dns = do {
     r \<leftarrow> sys (ReadFile resolvConfBackup);
     if \<not> ok r then return ()
     else do {
       _ \<leftarrow> sys (Remove resolvConfPath);
       (case Cut (char_of (10::nat)) (data r) of
          (link, rest, found) \<Rightarrow>
            if found \<and> HasPrefix link ''LINK:'' then do {
              l \<leftarrow> sys (Symlink (TrimPrefix link ''LINK:'') resolvConfPath);
              if \<not> ok l then return ()
              else do { _ \<leftarrow> sys (WriteFile resolvConfPath rest); return () }
            }
            else do { _ \<leftarrow> sys (WriteFile resolvConfPath (data r)); return () });
       _ \<leftarrow> sys (Remove resolvConfBackup);
       return ()
     }
   }"

section \<open>Address arithmetic\<close>

definition OnesCount32 :: "32 word \<Rightarrow> nat" where
  "OnesCount32 m = length (filter (bit m) [0..<32])"

text \<open>\<open>None\<close> is the result \<open>false\<close>; the mask has already been turned into an IPv4 address.\<close>

definition mask_to_prefix :: "32 word \<Rightarrow> nat option" where
  "mask_to_prefix m =
     (let bits = OnesCount32 m in
      if push_bit (32 - bits) 0xffffffff \<noteq> m then None else Some bits)"

text \<open>\<open>None\<close> is the panic of \<open>As4\<close>.\<close>

definition calc_client_ip :: "addr \<Rightarrow> nat \<Rightarrow> addr \<Rightarrow> addr option" where
  "calc_client_ip network bits client =
     (if bits mod 8 \<noteq> 0 then
        (let broadcast = (case subnet_last (PrefixFrom network (int bits)) of
                            Some a \<Rightarrow> a | None \<Rightarrow> AddrNone)
         in Some (addr_Prev (addr_Prev broadcast)))
      else (case (As4 network, As4 client) of
              (Some (n0, n1, n2, n3), Some (c0, c1, c2, c3)) \<Rightarrow>
                (let i = bits div 8 in
                 Some (AddrFrom4 (if i \<le> 0 then c0 else n0, if i \<le> 1 then c1 else n1,
                                  if i \<le> 2 then c2 else n2, if i \<le> 3 then c3 else n3)))
            | _ \<Rightarrow> None))"

definition dns_query :: "string \<Rightarrow> 8 word list" where
  "dns_query name =
     [0x12, 0x34, 0x01, 0x00, 0x00, 0x01, 0x00, 0x00, 0x00, 0x00, 0x00, 0x00] @
     concat (map (\<lambda>label. of_nat (length label) # map of_char label) (Split CHR ''.'' name)) @
     [0x00] @ [0x00, 0x01, 0x00, 0x01]"

section \<open>Upstream DHCP\<close>

text \<open>The callback script, without its comment line.\<close>

definition udhcpc_script_text :: string where
  "udhcpc_script_text =
     (let tab = [char_of (9::nat)] in
      Join newline
        [''#!/bin/sh'', ''case \"$1\" in'', tab @ ''bound|renew)'',
         tab @ tab @ ''echo \"RNDIS_SUBNET=$subnet\"'', tab @ tab @ ''echo \"RNDIS_ROUTER=$router\"'',
         tab @ tab @ ''echo \"RNDIS_DNS=$dns\"'', tab @ tab @ '';;'', ''esac'', []])"

definition udhcpc_script :: "usb_gadget_rndis \<Rightarrow> string option io" where
  "udhcpc_script this = do {
     let path = ''/tmp/rndis-udhcpc-'' @ ifname this @ ''.sh'';
     r \<leftarrow> sys (WriteFile path udhcpc_script_text);
     return (if ok r then Some path else None)
   }"

text \<open>\<open>ip.To4()\<close> converted to an array: a panic for an IPv6 address.\<close>

definition To4 :: "addr \<Rightarrow> addr option" where
  "To4 a = (if Is4 a then Some a else None)"

text \<open>
  The lines udhcpc prints: subnet, router and DNS servers so far. The error is the panic of an
  IPv6 address among the DNS servers.
\<close>

definition dns_field :: "addr list \<Rightarrow> string \<Rightarrow> (usb_error, addr list) result" where
  "dns_field dns s =
     (case ParseIP s of
        None \<Rightarrow> Inr dns
      | Some ip \<Rightarrow> (case To4 ip of None \<Rightarrow> Inl GoPanic | Some a \<Rightarrow> Inr (dns @ [a])))"

fun dns_fields :: "addr list \<Rightarrow> string list \<Rightarrow> (usb_error, addr list) result" where
  "dns_fields dns [] = Inr dns"
| "dns_fields dns (s # ss) = (case dns_field dns s of Inl e \<Rightarrow> Inl e | Inr dns \<Rightarrow> dns_fields dns ss)"

fun parse_lease_lines ::
  "addr option \<Rightarrow> addr option \<Rightarrow> addr list \<Rightarrow> string list \<Rightarrow>
     (usb_error, addr option \<times> addr option \<times> addr list) result" where
  "parse_lease_lines subnet router dns [] = Inr (subnet, router, dns)"
| "parse_lease_lines subnet router dns (line # ls) =
     (if HasPrefix line ''RNDIS_SUBNET=''
      then parse_lease_lines (ParseIP (TrimPrefix line ''RNDIS_SUBNET='')) router dns ls
      else if HasPrefix line ''RNDIS_ROUTER=''
      then parse_lease_lines subnet (ParseIP (TrimPrefix line ''RNDIS_ROUTER='')) dns ls
      else if HasPrefix line ''RNDIS_DNS=''
      then (case dns_fields dns (Fields (TrimPrefix line ''RNDIS_DNS='')) of
              Inl e \<Rightarrow> Inl e
            | Inr dns \<Rightarrow> parse_lease_lines subnet router dns ls)
      else parse_lease_lines subnet router dns ls)"

definition parse_lease :: "string \<Rightarrow> (usb_error, addr \<times> addr \<times> addr list) result" where
  "parse_lease out =
     (case parse_lease_lines None None [] (Split (char_of (10::nat)) out) of
        Inl e \<Rightarrow> Inl e
      | Inr (Some subnet, Some router, dns) \<Rightarrow>
          (case (To4 subnet, To4 router) of
             (Some s, Some r) \<Rightarrow> Inr (s, r, dns)
           | _ \<Rightarrow> Inl GoPanic)
      | Inr _ \<Rightarrow> Inl ProbeFailed)"

definition probe_upstream_dhcp ::
  "string \<Rightarrow> usb_gadget_rndis \<Rightarrow> (usb_error, addr \<times> addr \<times> addr list) result io" where
  "probe_upstream_dhcp ifn this = do {
     script \<leftarrow> udhcpc_script this;
     (case script of
        None \<Rightarrow> return (Inl ProbeFailed)
      | Some script \<Rightarrow> do {
          out \<leftarrow> sys (Exec [''udhcpc'', ''-i'', ifn, ''-p'', ''/tmp/rndis-udhcpc-'' @ ifn @ ''.pid'',
                           ''-q'', ''-n'', ''-R'', ''-t'', ''3'', ''-T'', ''2'', ''-s'', script]);
          _ \<leftarrow> sys (Remove script);
          return (if \<not> ok out then Inl ProbeFailed else parse_lease (data out))
        })
   }"

definition wait_rndis_carrier :: "string \<Rightarrow> int \<Rightarrow> unit io" where
  "wait_rndis_carrier ifn timeout = do {
     t \<leftarrow> now;
     _ \<leftarrow> poll_io (t + timeout) 50000000 (do {
       r \<leftarrow> sys (ReadFile (''/sys/class/net/'' @ ifn @ ''/carrier''));
       return (if ok r \<and> TrimSpace (data r) = ''1'' then Some () else None)
     });
     return ()
   }"

definition probe_upstream_dhcp_with_retry ::
  "string \<Rightarrow> usb_gadget_rndis \<Rightarrow> (usb_error, addr \<times> addr \<times> addr list) result io" where
  "probe_upstream_dhcp_with_retry ifn this = do {
     t \<leftarrow> now;
     let deadline = t + client_timeout this;
     _ \<leftarrow> wait_rndis_carrier ifn (deadline - t);
     r \<leftarrow> retry_io (deadline - 7000000000) 1000000000
       (\<lambda>lastErr. do {
          p \<leftarrow> probe_upstream_dhcp ifn this;
          return (case p of Inr lease \<Rightarrow> Inl (Inr lease)
                          | Inl e \<Rightarrow> if e = GoPanic then Inl (Inl GoPanic) else Inr e)
        }) ProbeFailed;
     return (case r of Inl p \<Rightarrow> p | Inr lastErr \<Rightarrow> Inl lastErr)
   }"

section \<open>Client and gateway submode\<close>

definition enable_gateway_mode :: "string \<Rightarrow> usb_gadget_rndis \<Rightarrow> (usb_error option \<times> usb_gadget_rndis) io" where
  "enable_gateway_mode ifn this = do {
     _ \<leftarrow> restore_dns;
     _ \<leftarrow> run_cmd [''ip'', ''route'', ''flush'', ''dev'', ifn];
     _ \<leftarrow> run_cmd [''ip'', ''addr'', ''flush'', ''dev'', ifn];
     _ \<leftarrow> add_iface_addr ifn (pfx_String (ip_addr this));
     _ \<leftarrow> start_dnsmasq this;
     return (None, this)
   }"

definition fallback_to_gateway_mode :: "usb_gadget_rndis \<Rightarrow> (usb_error option \<times> usb_gadget_rndis) io" where
  "fallback_to_gateway_mode this =
     (let this = SetSubmode 0 this in enable_gateway_mode (ifname this) this)"

definition probe_ics_dns :: "addr \<Rightarrow> bool io" where
  "probe_ics_dns gateway = do {
     r \<leftarrow> sys (UdpExchange (addr_String gateway @ '':53'') (dns_query ''dns.msftncsi.com''));
     return (ok r \<and> data r \<noteq> [])
   }"

definition ics_gateway :: addr where
  "ics_gateway = AddrFrom4 (192, 168, 137, 1)"

definition enable_ics_static_mode :: "string \<Rightarrow> usb_gadget_rndis \<Rightarrow> (usb_error option \<times> usb_gadget_rndis) io" where
  "enable_ics_static_mode ifn this =
     (case As4 (client_ip this) of
        None \<Rightarrow> return (Some GoPanic, this)
      | Some (_, _, _, host) \<Rightarrow> do {
          let ipSpec = addr_String (AddrFrom4 (192, 168, 137, host)) @ ''/24'';
          _ \<leftarrow> run_cmd [''ip'', ''addr'', ''flush'', ''dev'', ifn];
          err \<leftarrow> add_iface_addr ifn ipSpec;
          if err \<noteq> None then fallback_to_gateway_mode this
          else do {
            alive \<leftarrow> probe_ics_dns ics_gateway;
            if \<not> alive then fallback_to_gateway_mode this
            else do {
              _ \<leftarrow> run_cmd [''ip'', ''route'', ''add'', ''default'', ''via'', addr_String ics_gateway, ''dev'', ifn];
              _ \<leftarrow> apply_dns [] ics_gateway;
              return (None, this)
            }
          }
        })"

definition apply_dhcp_lease ::
  "string \<Rightarrow> addr \<Rightarrow> addr \<Rightarrow> addr list \<Rightarrow> usb_gadget_rndis \<Rightarrow> usb_error option io" where
  "apply_dhcp_lease ifn subnet router dns this =
     (case subnet of
        Addr4 m \<Rightarrow>
          (case mask_to_prefix m of
             None \<Rightarrow> return (Some NonContiguousMask)
           | Some bits \<Rightarrow>
               if 30 \<le> bits then return (Some (PrefixTooSmall bits))
               else do {
                 _ \<leftarrow> run_cmd [''ip'', ''addr'', ''flush'', ''dev'', ifn];
                 let network = pfx_addr (Masked (PrefixFrom router (int bits)));
                 (case calc_client_ip network bits (client_ip this) of
                    None \<Rightarrow> return (Some GoPanic)
                  | Some ip \<Rightarrow> do {
                      err \<leftarrow> add_iface_addr ifn (addr_String ip @ ''/'' @ Utoa bits);
                      if err \<noteq> None then return err
                      else do {
                        _ \<leftarrow> run_cmd [''ip'', ''route'', ''add'', ''default'', ''via'', addr_String router, ''dev'', ifn];
                        _ \<leftarrow> apply_dns dns router;
                        return None
                      }
                    })
               })
      | _ \<Rightarrow> return (Some GoPanic))"

definition enable_client_mode :: "string \<Rightarrow> usb_gadget_rndis \<Rightarrow> (usb_error option \<times> usb_gadget_rndis) io" where
  "enable_client_mode ifn this = do {
     _ \<leftarrow> stop_dnsmasq_all;
     _ \<leftarrow> add_iface_addr ifn (pfx_String (ip_addr this));
     lease \<leftarrow> probe_upstream_dhcp_with_retry ifn this;
     (case lease of
        Inr (subnet, router, dns) \<Rightarrow> do {
          err \<leftarrow> apply_dhcp_lease ifn subnet router dns this;
          (case err of
             None \<Rightarrow> return (None, this)
           | Some e \<Rightarrow> if e = GoPanic then return (Some GoPanic, this)
                       else enable_ics_static_mode ifn this)
        }
      | Inl e \<Rightarrow> if e = GoPanic then return (Some GoPanic, this) else enable_ics_static_mode ifn this)
   }"

section \<open>NetworkManager\<close>

definition unmanaged_conf :: "string \<Rightarrow> string" where
  "unmanaged_conf ifn = ''[device]'' @ newline @ ''match-device=interface-name:'' @ ifn @ newline @
     ''managed=0'' @ newline"

definition reload_network_manager :: "unit io" where
  "reload_network_manager =
     run_cmd [''sh'', ''-c'', ''kill -HUP $(pgrep -x NetworkManager) 2>/dev/null'']"

definition nm_device_is_unmanaged :: "string \<Rightarrow> (bool \<times> bool) io" where
  "nm_device_is_unmanaged ifn = do {
     r \<leftarrow> sys (Exec [''nmcli'', ''-t'', ''-f'', ''GENERAL.STATE'', ''device'', ''show'', ifn]);
     return (if \<not> ok r then (False, False) else (Contains (data r) ''unmanaged'', True))
   }"

definition unmanage_from_network_manager :: "string \<Rightarrow> unit io" where
  "unmanage_from_network_manager ifn = do {
     stat \<leftarrow> sys (Stat ''/etc/NetworkManager'');
     if \<not> ok stat then return ()
     else do {
       let confPath = join_path [''/etc/NetworkManager/conf.d'', PROJECT_IDENT @ ''.conf''];
       dir \<leftarrow> sys (MkdirAll (path_dir confPath));
       if \<not> ok dir then return ()
       else do {
         w \<leftarrow> sys (WriteFile confPath (unmanaged_conf ifn));
         if \<not> ok w then return ()
         else do {
           _ \<leftarrow> reload_network_manager;
           found \<leftarrow> for_io [0..<6] (\<lambda>_. do {
             (unmanaged, responsive) \<leftarrow> nm_device_is_unmanaged ifn;
             if \<not> responsive \<or> unmanaged then return (Some ())
             else do { _ \<leftarrow> reload_network_manager; _ \<leftarrow> sys (Sleep 500000000); return None }
           });
           (case found of
              Some _ \<Rightarrow> return ()
            | None \<Rightarrow> run_cmd [''nmcli'', ''device'', ''set'', ifn, ''managed'', ''no''])
         }
       }
     }
   }"

section \<open>enable\<close>

definition find_interface :: "function_context \<Rightarrow> usb_gadget_rndis \<Rightarrow> string \<Rightarrow> (string + string) io" where
  "find_interface ctx this ifn = do {
     r \<leftarrow> sys (NetInterface ifn);
     if ok r then return (Inl ifn)
     else do {
       resolved \<leftarrow> resolve_ifname ctx this;
       return (Inr (if resolved \<noteq> [] \<and> resolved \<noteq> ifn then resolved else ifn))
     }
   }"

definition rndis_enable :: "function_context \<Rightarrow> usb_gadget_rndis \<Rightarrow> (usb_error option \<times> usb_gadget_rndis) io" where
  "rndis_enable ctx this = do {
     t \<leftarrow> now;
     found \<leftarrow> retry_io (t + 5000000000 + 1) 50000000 (find_interface ctx this) (ifname this);
     (case found of
        Inr ifn \<Rightarrow> return (Some (IfaceNotFound ifn), this)
      | Inl ifn \<Rightarrow> do {
          let this = this\<lparr>ifname := ifn\<rparr>;
          _ \<leftarrow> unmanage_from_network_manager ifn;
          _ \<leftarrow> run_cmd [''ip'', ''link'', ''set'', ifn, ''up''];
          if fn_submode this = 0 then enable_gateway_mode ifn this
          else if fn_submode this = 1 then enable_client_mode ifn this
          else return (Some (NoSuchSubmode (fn_submode this)), this)
        })
   }"

definition SnapshotUsbGadgetRndis :: "string \<Rightarrow> usb_gadget_rndis" where
  "SnapshotUsbGadgetRndis i =
     \<lparr>fn_instance = TrimSpace i, fn_type = ''rndis'', fn_code = USB_GADGET_FUNCTION_CODE_RNDIS,
      fn_effected = False, fn_submode = 0, fn_max_submode = 1,
      ip_addr = \<lparr>pfx_addr = AddrNone, pfx_bits = - 1\<rparr>, connection_prefix = [], client_ip = AddrNone,
      client_timeout = 0, ics_timeout = 0, dev_addr = [], host_addr = [], ifname = [], qmult = [],
      dnsmasq_args = [], serial_number = [], manufacturer = [], product = []\<rparr>"

definition NewUsbGadgetRndis ::
  "prefix_ip \<Rightarrow> string \<Rightarrow> string \<Rightarrow> string \<Rightarrow> string \<Rightarrow> string \<Rightarrow> string list \<Rightarrow> addr \<Rightarrow> int \<Rightarrow> int \<Rightarrow>
     string \<Rightarrow> string \<Rightarrow> string \<Rightarrow> usb_gadget_rndis" where
  "NewUsbGadgetRndis ip conn dev host ifn q args client timeout ics serial manu prd =
     (SnapshotUsbGadgetRndis [])
       \<lparr>ip_addr := ip, connection_prefix := conn, client_ip := client, client_timeout := timeout,
        ics_timeout := ics, dev_addr := dev, host_addr := host, ifname := ifn, qmult := q,
        dnsmasq_args := args, serial_number := serial, manufacturer := manu, product := prd\<rparr>"

section \<open>What the phases keep\<close>

lemma enable_gateway_result:
  "fst (run_state (enable_gateway_mode ifn this) w) = (None, this)"
  by (simp add: enable_gateway_mode_def split: prod.splits)

lemma fallback_result:
  "fst (run_state (fallback_to_gateway_mode this) w) = (None, SetSubmode 0 this)"
  by (simp add: fallback_to_gateway_mode_def enable_gateway_result Let_def)

lemma enable_ics_result:
  "As4 (client_ip this) \<noteq> None \<Longrightarrow>
     fst (run_state (enable_ics_static_mode ifn this) w) \<in> {(None, this), (None, SetSubmode 0 this)}"
  by (auto simp: enable_ics_static_mode_def fallback_result Let_def split: prod.splits)

lemma enable_ics_this:
  "snd (fst (run_state (enable_ics_static_mode ifn this) w)) \<in> {this, SetSubmode 0 this}"
  by (auto simp: enable_ics_static_mode_def fallback_result Let_def split: prod.splits option.splits)

lemma enable_client_this:
  "snd (fst (run_state (enable_client_mode ifn this) w)) \<in> {this, SetSubmode 0 this}"
  using enable_ics_this [of ifn this]
  by (auto simp: enable_client_mode_def split: prod.splits sum.splits option.splits)

lemma rndis_enable_this:
  "\<exists>ifn. snd (fst (run_state (rndis_enable ctx this) w)) \<in>
     {this, this\<lparr>ifname := ifn\<rparr>, SetSubmode 0 (this\<lparr>ifname := ifn\<rparr>)}"
proof -
  have gw: "snd (fst (run_state (enable_gateway_mode ifn f) v)) = f" for ifn f v
    by (simp add: enable_gateway_result)
  have cl: "snd (fst (run_state (enable_client_mode ifn f) v)) \<in> {f, SetSubmode 0 f}" for ifn f v
    by (rule enable_client_this)
  show ?thesis
    using gw cl by (auto simp: rndis_enable_def Let_def split: prod.splits sum.splits) blast+
qed

interpretation rndis: usb_function rndis_add rndis_effect rndis_enable fn_submode fn_max_submode
    SetSubmode fn_effected set_effected fn_type
proof
  fix ctx err w w'
  fix f f' :: usb_gadget_rndis
  {
    assume "run_state (rndis_add ctx f) w = ((err, f'), w')"
    then have "f' = set_instance ''rndis.1'' f"
      by (auto simp: rndis_add_def Let_def split: option.splits prod.splits if_splits)
    then show "fn_submode f' = fn_submode f \<and> fn_max_submode f' = fn_max_submode f \<and>
      fn_type f' = fn_type f \<and> fn_effected f' = fn_effected f"
      by (simp add: set_instance_def)
  next
    assume "run_state (rndis_effect ctx f) w = ((err, f'), w')"
    then have "f' = f" by (auto simp: rndis_effect_def split: option.splits prod.splits if_splits)
    then show "fn_submode f' = fn_submode f \<and> fn_max_submode f' = fn_max_submode f \<and>
      fn_type f' = fn_type f \<and> fn_effected f' = fn_effected f"
      by simp
  next
    assume "run_state (rndis_enable ctx f) w = ((err, f'), w')"
    with rndis_enable_this [of ctx f w]
    have "\<exists>ifn. f' \<in> {f, f\<lparr>ifname := ifn\<rparr>, SetSubmode 0 (f\<lparr>ifname := ifn\<rparr>)}" by simp
    then show "(fn_submode f' = fn_submode f \<or> fn_submode f' = 0) \<and> fn_max_submode f' = fn_max_submode f \<and>
      fn_type f' = fn_type f \<and> fn_effected f' = fn_effected f"
      by (auto simp: SetSubmode_def)
  }
qed (simp_all add: SetSubmode_def set_effected_def)

section \<open>Masks and blocks of addresses\<close>

lemma all_ones32: "(0xffffffff :: 32 word) = mask 32"
  by (simp add: mask_eq_exp_minus_1)

lemma push_ones: "push_bit k (0xffffffff :: 32 word) = host_mask k"
  by (rule bit_word_eqI) (auto simp: all_ones32 bit_simps)

lemma filter_ge_upt: "k \<le> n \<Longrightarrow> filter (\<lambda>i. k \<le> i) [0..<n] = [k..<n]"
  by (induction n) (auto simp: le_Suc_eq upt_conv_Nil)

lemma OnesCount32_host_mask: "k \<le> 32 \<Longrightarrow> OnesCount32 (host_mask k) = 32 - k"
proof -
  assume "k \<le> 32"
  have "filter (bit (host_mask k :: 32 word)) [0..<32] = filter (\<lambda>i. k \<le> i) [0..<32]"
    by (rule filter_cong) auto
  with \<open>k \<le> 32\<close> show ?thesis by (simp add: OnesCount32_def filter_ge_upt)
qed

lemma OnesCount32_le: "OnesCount32 m \<le> 32"
proof -
  have "OnesCount32 m \<le> length [0..<32]"
    unfolding OnesCount32_def by (rule length_filter_le)
  then show ?thesis by simp
qed

lemma subnet_last_Addr4:
  assumes "pfx_addr p = Addr4 r" and "0 \<le> pfx_bits p" and "pfx_bits p < 32"
  shows "subnet_last p = Some (Addr4 (r OR mask (nat (32 - pfx_bits p))))"
proof -
  have "r AND host_mask k OR NOT (host_mask k) = r OR mask k" for k
    by (rule bit_word_eqI) (auto simp: bit_simps dest: bit_imp_le_length)
  with assms show ?thesis
    by (simp add: subnet_last_def pfx_IsValid_def Is4_def Masked_def push_ones Let_def)
qed

lemma subnet_last_None:
  "subnet_last p = None \<longleftrightarrow> \<not> (0 \<le> pfx_bits p \<and> pfx_bits p < 32 \<and> Is4 (pfx_addr p))"
  by (auto simp: subnet_last_def pfx_IsValid_def Masked_def Is4_def Let_def split: addr.splits)

lemma drop_bit_broadcast: "drop_bit k (r OR mask k) = drop_bit k (r :: 'a::len word)"
  by (rule bit_word_eqI) (auto simp: bit_simps)

lemma broadcast_ge: "r \<le> r OR (m :: 'a::len word)"
proof -
  have "r OR m = r + (m AND NOT r)"
    by (subst disjunctive_add_eq_or) (auto simp: bit_eq_iff bit_simps)
  moreover have "unat r + unat (m AND NOT r) < 2 ^ LENGTH('a)"
  proof -
    have "unat r + unat (m AND NOT r) = unat (r OR m)"
      by (simp add: unsigned_or_eq unsigned_and_eq unsigned_not_eq)
        (subst disjunctive_add_eq_or; auto simp: bit_eq_iff bit_simps dest: bit_imp_le_length)
    then show ?thesis using unsigned_less [of "r OR m", where 'a = nat] by simp
  qed
  ultimately show ?thesis by (metis le_add1 unat_add_lem word_le_nat_alt)
qed

lemma word_gt_iff:
  fixes r a :: "'a::len word"
  assumes "r + 1 \<noteq> 0"
  shows "r + 1 \<le> a \<longleftrightarrow> r < a"
  using assms by (metis add.commute less_eq_Suc_le unatSuc word_le_nat_alt word_less_nat_alt)

lemma word_lt_iff:
  fixes b a :: "'a::len word"
  assumes "b \<noteq> 0"
  shows "a \<le> b - 1 \<longleftrightarrow> a < b"
  using assms unat_minus_one [of b] unat_gt_0 [of b]
  by (auto simp: word_le_nat_alt word_less_nat_alt)

lemma word_succ_0: "r + 1 = 0 \<Longrightarrow> \<not> (r < (a :: 'a::len word))"
  by (metis add_eq_0_iff2 not_less word_order.extremum)

text \<open>The addresses of the subnet above the router and below the broadcast address.\<close>

definition pool_addrs :: "prefix_ip \<Rightarrow> 32 word \<Rightarrow> 32 word set" where
  "pool_addrs p r = {a. r < a \<and> a < r OR mask (nat (32 - pfx_bits p))}"

lemma dhcp_pool_cases:
  assumes "pfx_addr p = Addr4 r" and "0 \<le> pfx_bits p" and "pfx_bits p < 32"
  shows "(case dhcp_pool p of
     None \<Rightarrow> pool_addrs p r = {}
   | Some (start, stop) \<Rightarrow> \<exists>s e. start = Addr4 s \<and> stop = Addr4 e \<and> s \<le> e \<and> {s..e} = pool_addrs p r)"
proof -
  define b where "b = r OR mask (nat (32 - pfx_bits p))"
  have last: "subnet_last p = Some (Addr4 b)"
    using subnet_last_Addr4 [OF assms] by (simp add: b_def)
  have "b \<noteq> 0"
  proof -
    have "bit b 0" using assms(3) by (simp add: b_def bit_simps)
    then show ?thesis by auto
  qed
  show ?thesis
  proof (cases "r + 1 = 0")
    case True
    with word_succ_0 [OF True] show ?thesis
      by (simp add: dhcp_pool_def last assms(1) addr_IsValid_def pool_addrs_def)
  next
    case False
    have eq: "{r + 1..b - 1} = pool_addrs p r"
      using word_gt_iff [OF False] word_lt_iff [OF \<open>b \<noteq> 0\<close>] by (auto simp: pool_addrs_def b_def)
    with False \<open>b \<noteq> 0\<close> show ?thesis
      by (auto simp: dhcp_pool_def last assms(1) addr_IsValid_def not_less)
  qed
qed

lemma pool_addr_in_subnet:
  assumes "pfx_addr p = Addr4 r" and "0 \<le> pfx_bits p" and "a \<in> pool_addrs p r"
  shows "pfx_Contains p (Addr4 a)"
proof -
  define k where "k = nat (32 - pfx_bits p)"
  have "drop_bit k a = drop_bit k r"
  proof (rule drop_bit_between)
    show "r \<le> a" "a \<le> r OR mask k" using assms(3) by (auto simp: pool_addrs_def k_def)
    show "drop_bit k r = drop_bit k (r OR mask k)" by (rule drop_bit_broadcast [symmetric])
  qed
  with assms show ?thesis
    by (simp add: pfx_Contains_def pfx_IsValid_def drop_bit_XOR_0 k_def)
qed

section \<open>Properties of the network setup\<close>

text \<open>\<open>mask_to_prefix\<close> is exact: it answers \<open>n\<close> precisely for the netmask of \<open>n\<close> leading
  ones, \<open>n \<le> 32\<close>, and refuses every other, non-contiguous, mask.\<close>

theorem mask_to_prefix_exact:
  "mask_to_prefix m = Some n \<longleftrightarrow> n \<le> 32 \<and> m = host_mask (32 - n)"
proof
  assume "mask_to_prefix m = Some n"
  then show "n \<le> 32 \<and> m = host_mask (32 - n)"
    using OnesCount32_le [of m] by (auto simp: mask_to_prefix_def push_ones Let_def split: if_splits)
next
  assume "n \<le> 32 \<and> m = host_mask (32 - n)"
  then show "mask_to_prefix m = Some n"
    using OnesCount32_host_mask [of "32 - n"] by (simp add: mask_to_prefix_def push_ones Let_def)
qed

text \<open>C33: The DHCP pool is exactly the usable rest of the subnet. For an IPv4 prefix shorter than
  32 bits, \<open>start_dnsmasq\<close> serves the range of all addresses above its own and below the broadcast
  address, each inside the subnet, and serves nothing exactly when there is no such address.\<close>

theorem dhcp_pool_exact:
  assumes "pfx_addr p = Addr4 r" and "0 \<le> pfx_bits p" and "pfx_bits p < 32"
  shows "case dhcp_pool p of
     None \<Rightarrow> pool_addrs p r = {}
   | Some (start, stop) \<Rightarrow>
       \<exists>s e. start = Addr4 s \<and> stop = Addr4 e \<and> s \<le> e \<and> {s..e} = pool_addrs p r \<and>
         (\<forall>a \<in> {s..e}. pfx_Contains p (Addr4 a) \<and> a \<noteq> r \<and> subnet_last p \<noteq> Some (Addr4 a))"
  using dhcp_pool_cases [OF assms] pool_addr_in_subnet [OF assms(1,2)] subnet_last_Addr4 [OF assms]
  by (auto simp: pool_addrs_def split: option.splits) 

theorem dhcp_pool_exact_witness:
  "dhcp_pool (PrefixFrom (Addr4 0x0a162101) 24) = Some (Addr4 0x0a162102, Addr4 0x0a1621fe) \<and>
   pool_addrs (PrefixFrom (Addr4 0x0a162101) 24) 0x0a162101 = {0x0a162102..0x0a1621fe}"
proof -
  have p: "dhcp_pool (PrefixFrom (Addr4 0x0a162101) 24) = Some (Addr4 0x0a162102, Addr4 0x0a1621fe)"
    by code_simp
  from dhcp_pool_exact [where p = "PrefixFrom (Addr4 0x0a162101) 24" and r = "0x0a162101"] p show ?thesis
    by (auto simp: PrefixFrom_def BitLen_def without_zone_def)
qed

lemma broadcast_minus_2:
  fixes r :: "32 word"
  assumes "3 \<le> k" and "k \<le> 32"
  defines "b \<equiv> r OR mask k"
  shows "r AND host_mask k < b - 2" and "b - 2 < b" and "2 \<le> b"
proof -
  define n where "n = r AND host_mask k"
  have "b = n + mask k"
    unfolding b_def n_def by (subst disjunctive_add_eq_or) (auto simp: bit_eq_iff bit_simps dest: bit_imp_le_length)
  moreover have "unat n + unat (mask k :: 32 word) < 2 ^ 32"
  proof -
    have "unat n + unat (mask k :: 32 word) = unat (n OR mask k)"
      by (simp add: unsigned_or_eq n_def) (subst disjunctive_add_eq_or; auto simp: unsigned_and_eq bit_eq_iff bit_simps)
    then show ?thesis using unsigned_less [of "n OR mask k", where 'a = nat] by simp
  qed
  ultimately have ub: "unat b = unat n + unat (mask k :: 32 word)"
    by (simp add: unat_add_lem [THEN iffD1])
  have "mask 3 \<le> (mask k :: nat)" using power_increasing [OF assms(1), of "2 :: nat"] by (simp add: mask_eq_exp_minus_1 diff_le_mono)
  moreover have "unat (mask k :: 32 word) = mask k" using assms(2)
    by (intro bit_eqI) (auto simp: bit_unsigned_iff bit_mask_iff)
  ultimately have m: "7 \<le> unat (mask k :: 32 word)" by (simp add: mask_eq_exp_minus_1)
  have two: "2 \<le> b" using ub m by (simp add: word_le_nat_alt)
  then have "unat (b - 2) = unat b - 2" by (simp add: unat_sub)
  with ub m show "r AND host_mask k < b - 2" "b - 2 < b"
    by (simp_all add: word_less_nat_alt n_def [symmetric])
  from two show "2 \<le> b" .
qed

lemma Masked_Addr4:
  "bits \<le> 32 \<Longrightarrow> pfx_addr (Masked (PrefixFrom (Addr4 r) (int bits))) = Addr4 (r AND host_mask (32 - bits))"
  by (simp add: Masked_def PrefixFrom_def BitLen_def pfx_IsValid_def without_zone_def nat_diff_distrib)

lemma bit_Uint32:
  "bit (Uint32 (a, b, c, d)) n =
     (if n < 8 then bit d n else if n < 16 then bit c (n - 8) else if n < 24 then bit b (n - 16)
      else n < 32 \<and> bit a (n - 24))"
proof -
  have out: "bit (x :: 8 word) i \<Longrightarrow> i < 8" for x i using bit_imp_le_length [of x i] by simp
  show ?thesis
    by (auto simp: bit_simps dest: out)
qed

lemma calc_aligned:
  assumes "bits \<in> {0, 8, 16, 24}"
  shows "\<exists>a. calc_client_ip (Addr4 n) bits (Addr4 c) = Some (Addr4 a) \<and>
     (\<forall>i < 32. bit a i = (if 32 - bits \<le> i then bit n i else bit c i))"
  using assms
  by (auto simp: calc_client_ip_def As4_def AddrFrom4_def PutUint32_def Let_def bit_Uint32 bit_simps
      simp del: Uint32.simps)

lemma word_xor_0: "v XOR w = 0 \<longleftrightarrow> v = (w :: 'a::len word)"
  by (auto simp: bit_eq_iff bit_simps)

lemma Contains_Addr4:
  "bits \<le> 32 \<Longrightarrow> pfx_Contains (PrefixFrom (Addr4 r) (int bits)) (Addr4 a) \<longleftrightarrow>
     drop_bit (32 - bits) a = drop_bit (32 - bits) r"
  by (auto simp: pfx_Contains_def PrefixFrom_def BitLen_def pfx_IsValid_def without_zone_def
      nat_diff_distrib word_xor_0)

lemma calc_unaligned:
  fixes r :: "32 word"
  assumes "bits < 30" and "bits mod 8 \<noteq> 0"
  defines "n \<equiv> r AND host_mask (32 - bits)" and "b \<equiv> r OR mask (32 - bits)"
  shows "calc_client_ip (Addr4 n) bits (Addr4 c) = Some (Addr4 (b - 2))"
proof -
  have last: "subnet_last (PrefixFrom (Addr4 n) (int bits)) = Some (Addr4 b)"
  proof -
    have "n OR mask (32 - bits) = b"
      unfolding n_def b_def by (rule bit_word_eqI) (auto simp: bit_simps dest: bit_imp_le_length)
    then show ?thesis
      using assms(1) subnet_last_Addr4 [of "PrefixFrom (Addr4 n) (int bits)" n]
      by (simp add: PrefixFrom_def BitLen_def without_zone_def nat_diff_distrib)
  qed
  have "2 \<le> b" using broadcast_minus_2(3) [of "32 - bits" r] assms(1) by (simp add: b_def)
  then have "b \<noteq> 0" "b - 1 \<noteq> 0" by (auto simp: word_le_nat_alt)
  moreover have "b - 1 - 1 = b - 2" by simp
  ultimately show ?thesis using assms(2) last by (simp add: calc_client_ip_def Let_def)
qed

text \<open>C34: The address the client submode takes is always inside the upstream subnet. For a prefix
  of fewer than 30 bits around any router: with a length that is a multiple of 8 its host bits are
  those of the configured template; otherwise it is neither the network nor the broadcast
  address.\<close>

theorem client_ip_in_subnet:
  assumes "bits < 30"
  shows "\<exists>a. calc_client_ip (pfx_addr (Masked (PrefixFrom (Addr4 r) (int bits)))) bits (Addr4 c) = Some (Addr4 a) \<and>
    pfx_Contains (PrefixFrom (Addr4 r) (int bits)) (Addr4 a) \<and>
    (if bits mod 8 = 0 then take_bit (32 - bits) a = take_bit (32 - bits) c
     else Addr4 a \<noteq> pfx_addr (Masked (PrefixFrom (Addr4 r) (int bits))) \<and>
          subnet_last (PrefixFrom (Addr4 r) (int bits)) \<noteq> Some (Addr4 a))"
proof (cases "bits mod 8 = 0")
  case True
  then have "bits \<in> {0, 8, 16, 24}" using assms by auto
  from calc_aligned [OF this, of "r AND host_mask (32 - bits)" c] obtain a where
    a: "calc_client_ip (Addr4 (r AND host_mask (32 - bits))) bits (Addr4 c) = Some (Addr4 a)"
      "\<And>i. i < 32 \<Longrightarrow> bit a i = (if 32 - bits \<le> i then bit (r AND host_mask (32 - bits)) i else bit c i)"
    by blast
  have out: "\<not> bit (x :: 32 word) i" if "32 \<le> i" for x i
    using that bit_imp_le_length [of x i] by auto
  have bits: "bit a i = (if 32 - bits \<le> i then bit r i else bit c i)" for i
    using a(2) [of i] out [of i] by (cases "i < 32") (auto simp: bit_simps)
  have "drop_bit (32 - bits) a = drop_bit (32 - bits) r" "take_bit (32 - bits) a = take_bit (32 - bits) c"
    by (auto intro!: bit_word_eqI simp: bit_drop_bit_eq bit_take_bit_iff bits)
  with a(1) True assms show ?thesis by (simp add: Masked_Addr4 Contains_Addr4)
next
  case False
  define k b where "k = 32 - bits" and "b = r OR mask k"
  have k: "3 \<le> k" "k \<le> 32" using assms by (simp_all add: k_def)
  note lt = broadcast_minus_2 [OF k, of r, folded b_def]
  have "drop_bit k (b - 2) = drop_bit k (r AND host_mask k)"
    by (rule drop_bit_between [of _ _ b])
      (use lt in \<open>simp_all add: less_imp_le host_mask_drop b_def drop_bit_broadcast del: drop_bit_or drop_bit_and\<close>)
  with assms have "pfx_Contains (PrefixFrom (Addr4 r) (int bits)) (Addr4 (b - 2))"
    by (simp add: Contains_Addr4 k_def [symmetric] host_mask_drop del: drop_bit_and)
  moreover have "subnet_last (PrefixFrom (Addr4 r) (int bits)) = Some (Addr4 b)"
    using assms subnet_last_Addr4 [of "PrefixFrom (Addr4 r) (int bits)" r]
    by (simp add: PrefixFrom_def BitLen_def without_zone_def nat_diff_distrib b_def k_def)
  moreover have "calc_client_ip (Addr4 (r AND host_mask k)) bits (Addr4 c) = Some (Addr4 (b - 2))"
    using calc_unaligned [OF assms False, of r c] by (simp add: k_def b_def)
  ultimately show ?thesis
    using False assms lt by (auto simp: Masked_Addr4 k_def [symmetric])
qed

theorem client_ip_in_subnet_witness:
  "pfx_Contains (PrefixFrom (Addr4 0xc0a88901) 24) (Addr4 0xc0a88921)"
proof -
  have "calc_client_ip (pfx_addr (Masked (PrefixFrom (Addr4 0xc0a88901) 24))) 24 (Addr4 0x21) = Some (Addr4 0xc0a88921)"
    by code_simp
  then show ?thesis using client_ip_in_subnet [of 24 "0xc0a88901" "0x21"] by auto
qed


text \<open>A machine on which every command, file and socket fails at once.\<close>

definition dead_world :: world where
  "dead_world = \<lparr>env = \<lambda>h c. (Fail OtherErr, 1), clock = 5, trace = [], fuel = 1, adbd_process = None\<rparr>"

definition sample_rndis :: usb_gadget_rndis where
  "sample_rndis = NewUsbGadgetRndis (PrefixFrom (Addr4 0x0a162101) 24) [] ''02:12:34:56:78:9a''
     ''02:98:76:54:32:10'' ''usb0'' ''8'' [] (Addr4 33) 100000000 2000000000 ''s'' ''m'' ''p''"


section \<open>Which processes dnsmasq control signals\<close>

text \<open>
  The answer to the last call shows that process \<open>n\<close> was started with a \<open>--pid-file\<close> option.
\<close>

definition dnsmasq_verified :: "os_env \<Rightarrow> os_call list \<Rightarrow> int \<Rightarrow> bool" where
  "dnsmasq_verified E pre n =
     (\<exists>before pidFile.
        pre = before @ [ReadFile (proc_file n ''cmdline'')] \<and>
        ok (fst (E before (ReadFile (proc_file n ''cmdline'')))) \<and>
        Contains (data (fst (E before (ReadFile (proc_file n ''cmdline''))))) (''--pid-file='' @ pidFile))"

lemma emits_read_dnsmasq_pid [emits_rules]:
  "(\<And>f. P (ReadFile f)) \<Longrightarrow> emits P (read_dnsmasq_pid pidFile)"
  unfolding read_dnsmasq_pid_def by (intro emits_rules) (auto intro!: emits_rules)

lemma read_dnsmasq_pid_verified:
  assumes "run_state (read_dnsmasq_pid pidFile) w = (n, w')" and "0 < n"
  shows "dnsmasq_verified (env w') (trace w') n"
proof -
  obtain r w1 where 1: "sys_step (ReadFile pidFile) w = (r, w1)" by (cases "sys_step (ReadFile pidFile) w")
  have w1: "env w1 = env w" using sys_step_world(1) [of "ReadFile pidFile" w] 1 by simp
  obtain c w2 where 2: "sys_step (ReadFile (proc_file n ''cmdline'')) w1 = (c, w2)"
    by (cases "sys_step (ReadFile (proc_file n ''cmdline'')) w1")
  from assms 1 2 have "w' = w2" "ok c" "Contains (data c) (''--pid-file='' @ pidFile)"
    by (auto simp: read_dnsmasq_pid_def split: if_splits option.splits prod.splits)
  moreover have "c = fst (env w1 (trace w1) (ReadFile (proc_file n ''cmdline'')))"
    using fst_sys_step [of "ReadFile (proc_file n ''cmdline'')" w1] 2 by simp
  moreover have "trace w2 = trace w1 @ [ReadFile (proc_file n ''cmdline'')]" "env w2 = env w1"
    using sys_step_world [of "ReadFile (proc_file n ''cmdline'')" w1] 2 by simp_all
  ultimately show ?thesis unfolding dnsmasq_verified_def by metis
qed

lemma keeps_stop_dnsmasq_one: "keeps_kills dnsmasq_verified (stop_dnsmasq_one pidFile)"
  unfolding stop_dnsmasq_one_def
  by (intro keeps_kills_guarded read_dnsmasq_pid_verified emits_rules) auto



section \<open>resolv.conf\<close>

lemma fs_exec_if:
  "(b \<Longrightarrow> fs_exec m F x F') \<Longrightarrow> (\<not> b \<Longrightarrow> fs_exec n F x F') \<Longrightarrow> fs_exec (if b then m else n) F x F'"
  by simp

text \<open>A resolv.conf before the client submode: a plain file, or a link to one, and no backup.\<close>

definition resolv_initial :: "fs \<Rightarrow> bool" where
  "resolv_initial F =
     (F resolvConfBackup = None \<and>
      (case F resolvConfPath of
         Some (Regular s) \<Rightarrow> \<not> HasPrefix s ''LINK:''
       | Some (SymLink t) \<Rightarrow>
           t \<noteq> resolvConfPath \<and> t \<noteq> resolvConfBackup \<and> char_of (10::nat) \<notin> set t \<and>
           (case F t of Some (Regular s) \<Rightarrow> True | _ \<Rightarrow> False)
       | None \<Rightarrow> False))"

lemma resolv_initialE:
  assumes "resolv_initial F"
  obtains (plain) s where "F resolvConfPath = Some (Regular s)" "F resolvConfBackup = None"
      "\<not> HasPrefix s ''LINK:''" "fs_read F resolvConfPath = Some s"
  | (linked) t s where "F resolvConfPath = Some (SymLink t)" "F resolvConfBackup = None"
      "F t = Some (Regular s)" "t \<noteq> resolvConfPath" "t \<noteq> resolvConfBackup"
      "char_of (10::nat) \<notin> set t" "fs_read F resolvConfPath = Some s"
proof (cases "F resolvConfPath")
  case None
  with assms show thesis by (simp add: resolv_initial_def)
next
  case (Some node)
  show thesis
  proof (cases node)
    case (Regular s)
    with Some assms show thesis by (intro plain [of s]) (simp_all add: resolv_initial_def fs_read_def)
  next
    case (SymLink t)
    with Some assms obtain s where "F t = Some (Regular s)"
      by (cases "F t") (auto simp: resolv_initial_def split: fs_node.splits)
    with Some SymLink assms show thesis
      by (intro linked [of t s]) (simp_all add: resolv_initial_def fs_read_def)
  qed
qed

definition backup_text :: "fs \<Rightarrow> string" where
  "backup_text F =
     (case F resolvConfPath of
        Some (SymLink t) \<Rightarrow> ''LINK:'' @ t @ newline @ the (fs_read F resolvConfPath)
      | _ \<Rightarrow> the (fs_read F resolvConfPath))"

lemma paths_differ [simp]: "resolvConfPath \<noteq> resolvConfBackup" "resolvConfBackup \<noteq> resolvConfPath"
  by (simp_all add: resolvConfPath_def resolvConfBackup_def)

text \<open>In the client submode: the backup is there and resolv.conf is a generated plain file.\<close>

definition resolv_client :: "fs \<Rightarrow> fs \<Rightarrow> bool" where
  "resolv_client F F' =
     (\<exists>y. F' = F(resolvConfBackup \<mapsto> Regular (backup_text F), resolvConfPath \<mapsto> Regular y))"

lemma backup_first:
  assumes "resolv_initial F"
  shows "fs_exec backup_resolv_conf F () (F(resolvConfBackup \<mapsto> Regular (backup_text F)))"
  using assms
proof (cases rule: resolv_initialE)
  case (plain s)
  then show ?thesis
    unfolding backup_resolv_conf_def
    by (intro fs_exec_call; simp?)+ (auto simp: backup_text_def intro: fs_exec_done)
next
  case (linked t s)
  then show ?thesis
    unfolding backup_resolv_conf_def
    by (intro fs_exec_call; simp?)+ (auto simp: backup_text_def intro: fs_exec_done)
qed

lemma backup_again:
  "fs_read F resolvConfBackup = Some x \<Longrightarrow> fs_exec backup_resolv_conf F () F"
  unfolding backup_resolv_conf_def
  by (intro fs_exec_call; simp?)+ (auto intro: fs_exec_done)

lemma write_resolv_conf:
  "fs_exec (do { _ \<leftarrow> sys (Remove resolvConfPath); _ \<leftarrow> sys (WriteFile resolvConfPath x); return () }) F ()
     (F(resolvConfPath \<mapsto> Regular x))"
  by (intro fs_exec_call; simp?)+ (auto intro: fs_exec_done)

lemma apply_dns_first:
  assumes "resolv_initial F"
  shows "\<exists>F'. fs_exec (apply_dns dns fallback) F () F' \<and> resolv_client F F'"
proof (intro exI conjI)
  define x where "x = resolv_conf_text (if dns = [] then [fallback] else dns)"
  show "fs_exec (apply_dns dns fallback) F ()
      (F(resolvConfBackup \<mapsto> Regular (backup_text F), resolvConfPath \<mapsto> Regular x))"
    unfolding apply_dns_def x_def [symmetric]
    by (rule fs_exec_bind, rule backup_first [OF assms], rule write_resolv_conf)
  show "resolv_client F (F(resolvConfBackup \<mapsto> Regular (backup_text F), resolvConfPath \<mapsto> Regular x))"
    by (auto simp: resolv_client_def)
qed

lemma apply_dns_again:
  assumes "resolv_client F G"
  shows "\<exists>F'. fs_exec (apply_dns dns fallback) G () F' \<and> resolv_client F F'"
proof -
  define x where "x = resolv_conf_text (if dns = [] then [fallback] else dns)"
  have "fs_read G resolvConfBackup = Some (backup_text F)"
    using assms by (auto simp: resolv_client_def)
  note backup_again [OF this]
  then have "fs_exec (apply_dns dns fallback) G () (G(resolvConfPath \<mapsto> Regular x))"
    unfolding apply_dns_def x_def [symmetric]
    by (rule fs_exec_bind) (rule write_resolv_conf)
  moreover have "resolv_client F (G(resolvConfPath \<mapsto> Regular x))"
    using assms by (auto simp: resolv_client_def)
  ultimately show ?thesis by blast
qed

lemma restore_dns_client:
  assumes init: "resolv_initial F" and client: "resolv_client F G"
  shows "fs_exec restore_dns G () F"
proof -
  obtain y where G: "G = F(resolvConfBackup \<mapsto> Regular (backup_text F), resolvConfPath \<mapsto> Regular y)"
    using client by (auto simp: resolv_client_def)
  from init show ?thesis
  proof (cases rule: resolv_initialE)
    case (plain s)
    obtain l r b where c: "Cut (char_of (10::nat)) s = (l, r, b)" by (metis surj_pair)
    have "b \<Longrightarrow> \<not> HasPrefix l ''LINK:''"
    proof
      assume "b" "HasPrefix l ''LINK:''"
      moreover from c \<open>b\<close> have "prefix l s"
        by (auto simp: Cut_def takeWhile_is_prefix split: if_splits)
      ultimately show False using plain(3) by (auto simp: HasPrefix_def)
    qed
    with plain c show ?thesis
      unfolding restore_dns_def G backup_text_def
      by (intro fs_exec_call; simp?)+ (auto intro!: fs_exec_call fs_exec_done)
  next
    case (linked t s)
    have bt: "backup_text F = ''LINK:'' @ t @ newline @ s" using linked by (simp add: backup_text_def)
    have nl: "char_of (10::nat) \<notin> set ''LINK:''" by code_simp
    have cut: "Cut (char_of (10::nat)) (backup_text F) = (''LINK:'' @ t, s, True)"
      using Cut_append [of "char_of (10::nat)" "''LINK:'' @ t" s] linked(6) nl by (simp add: bt newline_def)
    have trim: "HasPrefix (''LINK:'' @ t) ''LINK:''" "TrimPrefix (''LINK:'' @ t) ''LINK:'' = t"
      using HasPrefix_append [of "''LINK:''" t] TrimPrefix_append [of "''LINK:''" t] by simp_all
    have F: "(G(resolvConfPath \<mapsto> SymLink t, t \<mapsto> Regular s))(resolvConfBackup := None) = F"
      using linked by (auto simp: G fun_eq_iff)
    have b: "fs_read G resolvConfBackup = Some (backup_text F)" by (simp add: G)
    show ?thesis
      unfolding restore_dns_def
      by (intro fs_exec_call, simp add: b cut trim del: append.simps,
          (intro fs_exec_call; simp?)+, auto intro!: fs_exec_done simp: F)
  qed
qed

fun apply_dns_all :: "(addr list \<times> addr) list \<Rightarrow> unit io" where
  "apply_dns_all [] = return ()"
| "apply_dns_all ((dns, fallback) # rest) = do { _ \<leftarrow> apply_dns dns fallback; apply_dns_all rest }"

lemma apply_dns_all_client:
  "resolv_client F G \<Longrightarrow> \<exists>G'. fs_exec (apply_dns_all leases) G () G' \<and> resolv_client F G'"
proof (induction leases arbitrary: G)
  case Nil
  then show ?case by (auto intro: fs_exec_return)
next
  case (Cons lease leases)
  obtain dns fallback where l: "lease = (dns, fallback)" by (cases lease)
  obtain G1 where 1: "fs_exec (apply_dns dns fallback) G () G1" "resolv_client F G1"
    using apply_dns_again [OF Cons.prems] by blast
  with Cons.IH obtain G2 where "fs_exec (apply_dns_all leases) G1 () G2" "resolv_client F G2" by blast
  with 1 show ?case by (auto simp: l intro: fs_exec_bind)
qed

text \<open>C37: Leaving the client submode restores the name resolution exactly. On a machine whose files
  behave, from a resolv.conf that is a plain file (not starting with the backup's own marker) or a
  link to one, with no backup left over: after one or more rounds of \<open>apply_dns\<close> with any servers,
  \<open>restore_dns\<close> gives back the very same files, link and target included, and removes its backup.\<close>

theorem resolv_conf_restored:
  assumes "resolv_initial F"
  shows "fs_exec (do { _ \<leftarrow> apply_dns dns fallback; _ \<leftarrow> apply_dns_all leases; restore_dns }) F () F"
proof -
  obtain G where G: "fs_exec (apply_dns dns fallback) F () G" "resolv_client F G"
    using apply_dns_first [OF assms] by blast
  obtain H where H: "fs_exec (apply_dns_all leases) G () H" "resolv_client F H"
    using apply_dns_all_client [OF G(2)] by blast
  from G H restore_dns_client [OF assms H(2)] show ?thesis by (blast intro: fs_exec_bind)
qed

theorem resolv_conf_restored_witness:
  "fs_exec (do { _ \<leftarrow> apply_dns [] (Addr4 1); _ \<leftarrow> apply_dns_all [([], Addr4 2)]; restore_dns })
     [resolvConfPath \<mapsto> SymLink ''/run/stub'', ''/run/stub'' \<mapsto> Regular ''nameserver ::1''] ()
     [resolvConfPath \<mapsto> SymLink ''/run/stub'', ''/run/stub'' \<mapsto> Regular ''nameserver ::1'']"
proof (rule resolv_conf_restored)
  have "char_of (10::nat) \<notin> set ''/run/stub''" by code_simp
  then show "resolv_initial [resolvConfPath \<mapsto> SymLink ''/run/stub'', ''/run/stub'' \<mapsto> Regular ''nameserver ::1'']"
    by (simp add: resolv_initial_def resolvConfPath_def resolvConfBackup_def)
qed

text \<open>Without a resolv.conf there is nothing to back up, and leaving the client submode then
  keeps the generated file in place instead of deleting it.\<close>

theorem missing_resolv_conf_not_restored:
  assumes "F resolvConfPath = None" and "F resolvConfBackup = None"
  shows "fs_exec (do { _ \<leftarrow> apply_dns dns fallback; restore_dns }) F ()
     (F(resolvConfPath \<mapsto> Regular (resolv_conf_text (if dns = [] then [fallback] else dns))))"
proof -
  have "fs_exec backup_resolv_conf F () F"
    unfolding backup_resolv_conf_def using assms
    by (intro fs_exec_call; simp?)+ (auto intro: fs_exec_done)
  then have "fs_exec (apply_dns dns fallback) F ()
      (F(resolvConfPath \<mapsto> Regular (resolv_conf_text (if dns = [] then [fallback] else dns))))"
    unfolding apply_dns_def by (rule fs_exec_bind) (rule write_resolv_conf)
  moreover have "fs_exec restore_dns G () G" if "G resolvConfBackup = None" for G
    unfolding restore_dns_def using that by (intro fs_exec_call; simp?)+ (auto intro: fs_exec_done)
  ultimately show ?thesis using assms by (auto intro!: fs_exec_bind)
qed

theorem missing_resolv_conf_not_restored_witness:
  "fs_exec (do { _ \<leftarrow> apply_dns [Addr4 8] (Addr4 1); restore_dns }) (\<lambda>_. None) ()
     [resolvConfPath \<mapsto> Regular (resolv_conf_text [Addr4 8])]"
  using missing_resolv_conf_not_restored [of "\<lambda>_. None" "[Addr4 8]" "Addr4 1"] by simp

section \<open>The lease\<close>

text \<open>A line of udhcpc's output that carries no answer of the callback script.\<close>

definition noise_line :: "string \<Rightarrow> bool" where
  "noise_line l = (\<not> HasPrefix l ''RNDIS_SUBNET='' \<and> \<not> HasPrefix l ''RNDIS_ROUTER='' \<and>
     \<not> HasPrefix l ''RNDIS_DNS='' \<and> char_of (10::nat) \<notin> set l)"

lemma parse_lease_noise:
  "list_all noise_line ns \<Longrightarrow>
     parse_lease_lines subnet router dns (ns @ ls) = parse_lease_lines subnet router dns ls"
  by (induction ns) (simp_all add: noise_line_def)

lemma dns_fields_show: "dns_fields dns (map show4 ds) = Inr (dns @ map Addr4 ds)"
  by (induction ds arbitrary: dns) (simp_all add: dns_field_def To4_def Is4_def)

definition lease_lines :: "32 word \<Rightarrow> 32 word \<Rightarrow> 32 word list \<Rightarrow> string list" where
  "lease_lines s r ds =
     [''RNDIS_SUBNET='' @ show4 s, ''RNDIS_ROUTER='' @ show4 r,
      ''RNDIS_DNS='' @ Join '' '' (map show4 ds)]"

lemma prefix_literals:
  "HasPrefix (''RNDIS_SUBNET='' @ x) ''RNDIS_SUBNET=''" "HasPrefix (''RNDIS_ROUTER='' @ x) ''RNDIS_ROUTER=''"
  "HasPrefix (''RNDIS_DNS='' @ x) ''RNDIS_DNS=''"
  "\<not> HasPrefix (''RNDIS_ROUTER='' @ x) ''RNDIS_SUBNET=''" "\<not> HasPrefix (''RNDIS_DNS='' @ x) ''RNDIS_SUBNET=''"
  "\<not> HasPrefix (''RNDIS_DNS='' @ x) ''RNDIS_ROUTER=''"
  by (simp_all add: HasPrefix_def)

lemma parse_line:
  "parse_lease_lines subnet router dns ((''RNDIS_SUBNET='' @ x) # ls) =
     parse_lease_lines (ParseIP x) router dns ls"
  "parse_lease_lines subnet router dns ((''RNDIS_ROUTER='' @ x) # ls) =
     parse_lease_lines subnet (ParseIP x) dns ls"
  "parse_lease_lines subnet router dns ((''RNDIS_DNS='' @ x) # ls) =
     (case dns_fields dns (Fields x) of Inl e \<Rightarrow> Inl e | Inr dns \<Rightarrow> parse_lease_lines subnet router dns ls)"
  by (simp_all only: parse_lease_lines.simps prefix_literals TrimPrefix_append if_True if_False)

lemma parse_lease_lines_show:
  "parse_lease_lines subnet router dns (lease_lines s r ds @ ls) =
     parse_lease_lines (Some (Addr4 s)) (Some (Addr4 r)) (dns @ map Addr4 ds) ls"
proof -
  have "Fields (Join '' '' (map show4 ds)) = map show4 ds"
    by (rule Fields_Join) (auto simp: show4_no_space)
  moreover have "lease_lines s r ds @ ls = (''RNDIS_SUBNET='' @ show4 s) # (''RNDIS_ROUTER='' @ show4 r) #
      (''RNDIS_DNS='' @ Join '' '' (map show4 ds)) # ls"
    by (simp add: lease_lines_def)
  ultimately show ?thesis
    by (simp only: parse_line ParseIP_show4 dns_fields_show sum.case)
qed

lemma lease_line_no_newline: "l \<in> set (lease_lines s r ds) \<Longrightarrow> char_of (10::nat) \<notin> set l"
proof -
  have sp: "go_space (char_of (10::nat))" by (simp add: go_space_def)
  have j: "char_of (10::nat) \<notin> set (Join '' '' (map show4 ds))"
  proof (induction ds)
    case (Cons d ds)
    have "char_of (10::nat) \<noteq> CHR '' ''" by code_simp
    with Cons sp show4_no_space [of d] show ?case by (cases ds) auto
  qed simp
  have lit: "char_of (10::nat) \<notin> set ''RNDIS_SUBNET=''" "char_of (10::nat) \<notin> set ''RNDIS_ROUTER=''"
    "char_of (10::nat) \<notin> set ''RNDIS_DNS=''"
    by code_simp+
  assume "l \<in> set (lease_lines s r ds)"
  then show ?thesis
    using j lit sp show4_no_space [of s] show4_no_space [of r] unfolding lease_lines_def by auto
qed

text \<open>C38: What the callback script prints is what the daemon reads: from udhcpc's output, with any
  other lines before and after, \<open>parse_lease\<close> recovers the IPv4 subnet mask, router and DNS servers
  printed by the script.\<close>

theorem lease_roundtrip:
  assumes "list_all noise_line before" and "list_all noise_line after"
  shows "parse_lease (Join newline (before @ lease_lines s r ds @ after)) =
     Inr (Addr4 s, Addr4 r, map Addr4 ds)"
proof -
  have "Split (char_of (10::nat)) (Join newline (before @ lease_lines s r ds @ after)) =
      before @ lease_lines s r ds @ after"
    unfolding newline_def
  proof (rule Split_Join)
    show "before @ lease_lines s r ds @ after \<noteq> []" by (simp add: lease_lines_def)
    show "\<forall>p \<in> set (before @ lease_lines s r ds @ after). char_of (10::nat) \<notin> set p"
      using assms lease_line_no_newline by (auto simp: noise_line_def list_all_iff)
  qed
  moreover have "parse_lease_lines None None [] (before @ lease_lines s r ds @ after) =
      Inr (Some (Addr4 s), Some (Addr4 r), map Addr4 ds)"
    using parse_lease_noise [OF assms(1)] parse_lease_noise [OF assms(2), of _ _ _ "[]"]
    by (simp add: parse_lease_lines_show)
  ultimately show ?thesis by (simp add: parse_lease_def To4_def Is4_def)
qed

theorem lease_roundtrip_witness:
  "parse_lease (Join newline ([''udhcpc: lease obtained''] @ lease_lines 0xffffff00 0xc0a88901 [0x01010101] @ [[]])) =
     Inr (Addr4 0xffffff00, Addr4 0xc0a88901, [Addr4 0x01010101])"
proof -
  have "noise_line ''udhcpc: lease obtained''" "noise_line []" by code_simp+
  then show ?thesis using lease_roundtrip [of "[''udhcpc: lease obtained'']" "[[]]"] by simp
qed

text \<open>The control options of dnsmasq cannot be overridden from the command line: whatever
  \<open>--dnsmasq-arg\<close> options are configured, the command ends with the interface, the binding, the pid
  file and the lease file of this instance.\<close>

theorem dnsmasq_control_last:
  "\<exists>front. dnsmasq_command this start stop = front @ dnsmasq_args this @
     [''--interface='' @ ifname this, ''--bind-interfaces'', ''--pid-file=/tmp/dnsmasq-'' @ ifname this @ ''.pid'',
      ''--dhcp-leasefile=/tmp/dnsmasq-'' @ ifname this @ ''.leases''] \<and>
     hd front = ''dnsmasq''"
  by (simp add: dnsmasq_command_def dnsmasq_pid_file_def dnsmasq_lease_file_def)

end
