(* ===== verification/Adb.thy ===== *)
theory Adb
  imports Rndis
begin

text \<open>
  \<open>core/usb/adb.go\<close>: the ADB function. It mounts FunctionFS, starts adbd under the configured
  identity and waits until adbd has published its descriptors.

  The package variable \<open>adbd_process\<close> is a field of the world: the pid of the started process
  (a command that has not been started has no process and counts as \<open>nil\<close>). The reply to an
  account lookup is uid, gid, user name and home directory.
\<close>

section \<open>Mounts and processes\<close>

fun umount_loop :: "nat \<Rightarrow> string \<Rightarrow> unit io" where
  "umount_loop 0 ffs_path = return ()"
| "umount_loop (Suc n) ffs_path = do {
     r \<leftarrow> sys (Exec [''umount'', ffs_path]);
     if \<not> ok r then return () else umount_loop n ffs_path
   }"

definition umount_ffs :: "string \<Rightarrow> unit io" where
  "umount_ffs ffs_path = do { n \<leftarrow> get_fuel; umount_loop n ffs_path }"

definition adbdPidFile :: string where
  "adbdPidFile = ''/tmp/'' @ PROJECT_IDENT @ ''-adbd.pid''"

definition adbdReadyTimeout :: int where
  "adbdReadyTimeout = 2000000000"

definition adbd_ffs_path :: string where
  "adbd_ffs_path = ''/dev/usb-ffs/adb''"

definition read_proc_comm :: "int \<Rightarrow> string io" where
  "read_proc_comm pid = do {
     r \<leftarrow> sys (ReadFile (proc_file pid ''comm''));
     return (if ok r then TrimSpace (data r) else [])
   }"

text \<open>\<open>stop_process\<close> after its \<open>SIGTERM\<close> was accepted: wait two seconds, then kill and wait.\<close>

definition await_exit :: "int \<Rightarrow> os_reply \<Rightarrow> unit io" where
  "await_exit pid sent =
     (if \<not> ok sent then return ()
      else do {
        exited \<leftarrow> sys (WaitProcess pid (Some 2000000000));
        if ok exited then return ()
        else do {
          _ \<leftarrow> sys (SigKill pid);
          _ \<leftarrow> sys (WaitProcess pid None);
          return ()
        }
      })"

definition stop_process :: "int \<Rightarrow> unit io" where
  "stop_process pid = do {
     sent \<leftarrow> sys (Kill pid);
     await_exit pid sent
   }"

text \<open>The process \<open>kill_adbd\<close> stops: its own handle, else a verified pid file; 0 for none.\<close>

definition adbd_from_file :: "int io" where
  "adbd_from_file = do {
     r \<leftarrow> sys (ReadFile adbdPidFile);
     if \<not> ok r then return 0
     else (case Atoi (TrimSpace (data r)) of
             None \<Rightarrow> return 0
           | Some pid \<Rightarrow>
               if pid \<le> 0 then return 0
               else do {
                 comm \<leftarrow> read_proc_comm pid;
                 return (if comm \<noteq> ''adbd'' then 0 else pid)
               })
   }"

definition kill_adbd :: "unit io" where
  "kill_adbd = do {
     handle \<leftarrow> get_adbd;
     _ \<leftarrow> (case handle of
              Some pid \<Rightarrow> do { _ \<leftarrow> set_adbd None; stop_process pid }
            | None \<Rightarrow> do {
                pid \<leftarrow> adbd_from_file;
                if pid \<le> 0 then return () else do { sent \<leftarrow> sys (Kill pid); await_exit pid sent }
              });
     _ \<leftarrow> sys (Remove adbdPidFile);
     return ()
   }"

definition CleanupRuntime :: "unit io" where
  "CleanupRuntime = do {
     _ \<leftarrow> kill_adbd;
     _ \<leftarrow> stop_dnsmasq_all;
     umount_ffs adbd_ffs_path
   }"

section \<open>Identity and environment\<close>

record usb_gadget_adb = usb_function_base +
  dev_name :: string
  ffs_path :: string
  adb_serial_number :: string
  adb_manufacturer :: string
  adb_product :: string
  run_as_user :: string
  run_as_group :: string
  envs :: "string list"

definition adbdHomeDir :: "string \<Rightarrow> string io" where
  "adbdHomeDir user = do {
     account \<leftarrow> (if user \<noteq> [] then sys (UserLookup user) else return (Fail NotExist));
     if ok account \<and> nth_item 3 account \<noteq> [] then return (nth_item 3 account)
     else do {
       current \<leftarrow> sys UserCurrent;
       if ok current \<and> nth_item 3 current \<noteq> [] then return (nth_item 3 current)
       else do {
         home \<leftarrow> sys UserHomeDir;
         if \<not> ok home \<or> data home = [] then do {
           euid \<leftarrow> sys Geteuid;
           return (if data euid = ''0'' then ''/root'' else ''/'')
         }
         else return (data home)
       }
     }
   }"

record adbd_identity =
  uid :: nat
  gid :: nat
  groups :: "nat list"
  id_user :: string
  id_home :: string

definition identity_env :: "adbd_identity \<Rightarrow> string list" where
  "identity_env this =
     (if id_home this \<noteq> [] then [''HOME='' @ id_home this] else []) @
     (if id_user this \<noteq> [] then [''USER='' @ id_user this, ''LOGNAME='' @ id_user this] else [])"

definition append_group :: "nat list \<Rightarrow> nat \<Rightarrow> nat list" where
  "append_group gs g = (if g \<in> set gs then gs else gs @ [g])"

fun add_groups :: "nat list \<Rightarrow> string list \<Rightarrow> nat list option" where
  "add_groups gs [] = Some gs"
| "add_groups gs (s # ss) =
     (case ParseUint32 s of None \<Rightarrow> None | Some g \<Rightarrow> add_groups (append_group gs g) ss)"

text \<open>The part of \<open>resolve_adbd_identity\<close> that reads an account and its groups.\<close>

definition account_identity :: "os_reply \<Rightarrow> os_reply \<Rightarrow> adbd_identity \<Rightarrow> adbd_identity option" where
  "account_identity account group_ids this =
     (case (if nth_item 0 account \<noteq> [] then ParseUint32 (nth_item 0 account) else Some (uid this)) of
        None \<Rightarrow> None
      | Some u \<Rightarrow>
     (case (if nth_item 1 account \<noteq> [] then ParseUint32 (nth_item 1 account) else Some (gid this)) of
        None \<Rightarrow> None
      | Some g \<Rightarrow>
     (if \<not> ok group_ids then None
      else (case add_groups (groups this) (items group_ids) of
              None \<Rightarrow> None
            | Some gs \<Rightarrow>
                Some (this\<lparr>uid := u, gid := g, id_user := nth_item 2 account,
                           id_home := (if nth_item 3 account \<noteq> [] then nth_item 3 account
                                       else id_home this),
                           groups := gs\<rparr>)))))"

definition id_of :: "os_reply \<Rightarrow> nat" where
  "id_of r = (case parse_decimal (data r) of Some n \<Rightarrow> n mod 2 ^ 32 | None \<Rightarrow> 0)"

definition resolve_adbd_identity :: "string \<Rightarrow> string \<Rightarrow> adbd_identity option io" where
  "resolve_adbd_identity user_name group_name = do {
     euid \<leftarrow> sys Geteuid;
     egid \<leftarrow> sys Getegid;
     home \<leftarrow> adbdHomeDir user_name;
     let this = \<lparr>uid = id_of euid, gid = id_of egid, groups = [], id_user = [], id_home = home\<rparr>;
     account \<leftarrow> sys (if user_name \<noteq> [] then UserLookup user_name else UserCurrent);
     if user_name \<noteq> [] \<and> \<not> ok account then return None
     else do {
       this \<leftarrow> (if \<not> ok account then return (Some this)
               else do {
                 group_ids \<leftarrow> sys (UserGroupIds (nth_item 2 account));
                 return (account_identity account group_ids this)
               });
       (case this of
          None \<Rightarrow> return None
        | Some this \<Rightarrow>
            if group_name \<noteq> [] then do {
              group \<leftarrow> sys (LookupGroup group_name);
              return (if \<not> ok group then None
                      else (case ParseUint32 (data group) of
                              None \<Rightarrow> None
                            | Some g \<Rightarrow> Some (this\<lparr>gid := g, groups := append_group (groups this) g\<rparr>)))
            }
            else return (Some (this\<lparr>groups := append_group (groups this) (gid this)\<rparr>)))
     }
   }"

definition env_key :: "string \<Rightarrow> string" where
  "env_key extra = takeWhile (\<lambda>c. c \<noteq> CHR ''='') extra @ ''=''"

definition merge_env :: "string \<Rightarrow> string list \<Rightarrow> string list" where
  "merge_env extra vars =
     (if extra = [] then vars
      else if \<exists>kv \<in> set vars. HasPrefix kv (env_key extra)
      then map (\<lambda>kv. if HasPrefix kv (env_key extra) then extra else kv) vars
      else vars @ [extra])"

definition merge_envs :: "string list \<Rightarrow> string list \<Rightarrow> string list" where
  "merge_envs environ extras = fold merge_env extras environ"

section \<open>The function\<close>

definition adb_GetName :: "usb_gadget_adb \<Rightarrow> string" where
  "adb_GetName this = ''adb''"

definition adb_add :: "function_context \<Rightarrow> usb_gadget_adb \<Rightarrow> (usb_error option \<times> usb_gadget_adb) io" where
  "adb_add ctx this = do {
     let this = set_instance ''adb'' this;
     err \<leftarrow> AddFfs ''adb'' (fctx_C ctx);
     return (err, this)
   }"

text \<open>Waiting for adbd: the endpoint appears, the process has gone, or neither yet.\<close>

definition adbd_probe :: "int \<Rightarrow> string \<Rightarrow> usb_error option option io" where
  "adbd_probe pid ep1 = do {
     stat \<leftarrow> sys (Stat ep1);
     if ok stat then return (Some None)
     else do {
       alive \<leftarrow> sys (SignalZero pid);
       if \<not> ok alive then do { _ \<leftarrow> kill_adbd; return (Some (Some AdbdExited)) }
       else return None
     }
   }"

definition pid_of :: "os_reply \<Rightarrow> int" where
  "pid_of r = (case Atoi (data r) of Some n \<Rightarrow> n | None \<Rightarrow> 0)"

text \<open>From \<open>adbd_process.Start\<close> on.\<close>

definition launch_adbd ::
  "string \<Rightarrow> string \<Rightarrow> string list \<Rightarrow> (nat \<times> nat \<times> nat list) option \<Rightarrow> usb_gadget_adb \<Rightarrow> usb_error option io" where
  "launch_adbd adbd_path dir extras credential this = do {
     environ \<leftarrow> sys Environ;
     started \<leftarrow> sys (StartProcess [adbd_path, ''-D''] dir
                       (merge_envs (items environ) (extras @ envs this)) credential);
     if \<not> ok started then do { _ \<leftarrow> set_adbd None; return (Some StartAdbdFailed) }
     else do {
       let pid = pid_of started;
       _ \<leftarrow> set_adbd (Some pid);
       _ \<leftarrow> sys (WriteFile adbdPidFile (Itoa pid @ newline));
       t \<leftarrow> now;
       r \<leftarrow> poll_io (t + adbdReadyTimeout) 20000000 (adbd_probe pid (join_path [ffs_path this, ''ep1'']));
       (case r of
          Some err \<Rightarrow> return err
        | None \<Rightarrow> do { _ \<leftarrow> kill_adbd; return (Some AdbdTimeout) })
     }
   }"

definition start_adbd :: "string \<Rightarrow> usb_gadget_adb \<Rightarrow> usb_error option io" where
  "start_adbd adbd_path this =
     (if run_as_user this \<noteq> [] \<or> run_as_group this \<noteq> [] then do {
        identity \<leftarrow> resolve_adbd_identity (run_as_user this) (run_as_group this);
        (case identity of
           None \<Rightarrow> do { _ \<leftarrow> set_adbd None; return (Some IdentityFailed) }
         | Some identity \<Rightarrow> do {
             m \<leftarrow> sys (Chmod (ffs_path this) 0x1F8);
             if \<not> ok m then do { _ \<leftarrow> set_adbd None; return (Some FfsPermissions) }
             else do {
               c \<leftarrow> sys (Chown (ffs_path this) (uid identity) (gid identity));
               if \<not> ok c then do { _ \<leftarrow> set_adbd None; return (Some FfsPermissions) }
               else launch_adbd adbd_path (id_home identity) (identity_env identity)
                      (Some (uid identity, gid identity, groups identity)) this
             }
           })
      }
      else do {
        dir \<leftarrow> adbdHomeDir [];
        account \<leftarrow> sys UserCurrent;
        launch_adbd adbd_path dir
          ([''HOME='' @ dir] @
           (if ok account then [''USER='' @ nth_item 2 account, ''LOGNAME='' @ nth_item 2 account] else []))
          None this
      })"

definition adb_effect :: "function_context \<Rightarrow> usb_gadget_adb \<Rightarrow> (usb_error option \<times> usb_gadget_adb) io" where
  "adb_effect ctx this =
     (if fn_instance this = [] then return (Some InstanceNotSet, this)
      else do {
        err \<leftarrow> all_of
          [SetGadgetAttrs 0x0200 0x18d1 0x4ee7 0 0 0 0 (fctx_C ctx),
           SetStrs (adb_serial_number this) (adb_manufacturer this) (adb_product this) (fctx_C ctx),
           do {
             _ \<leftarrow> umount_ffs (ffs_path this);
             r \<leftarrow> sys (MkdirAll (ffs_path this));
             return (if ok r then None else Some (MkdirFailed (ffs_path this)))
           },
           do {
             r \<leftarrow> sys (Exec [''mount'', ''-t'', ''functionfs'', ''adb'', ffs_path this]);
             return (if ok r then None else Some MountFailed)
           },
           do {
             _ \<leftarrow> kill_adbd;
             r \<leftarrow> sys (LookPath ''adbd'');
             if \<not> ok r then return (Some AdbdNotFound) else start_adbd (data r) this
           }];
        return (err, this)
      })"

definition SnapshotUsbGadgetAdb :: "string \<Rightarrow> usb_gadget_adb" where
  "SnapshotUsbGadgetAdb i =
     \<lparr>fn_instance = TrimSpace i, fn_type = ''ffs'', fn_code = USB_GADGET_FUNCTION_CODE_ADB,
      fn_effected = False, fn_submode = 0, fn_max_submode = 0, dev_name = [], ffs_path = [],
      adb_serial_number = [], adb_manufacturer = [], adb_product = [], run_as_user = [],
      run_as_group = [], envs = []\<rparr>"

definition NewUsbGadgetAdb ::
  "string \<Rightarrow> string \<Rightarrow> string \<Rightarrow> string \<Rightarrow> string list \<Rightarrow> string \<Rightarrow> string \<Rightarrow> usb_gadget_adb" where
  "NewUsbGadgetAdb path serial manu prd es user grp =
     (SnapshotUsbGadgetAdb [])
       \<lparr>dev_name := ''adb'', ffs_path := path, adb_serial_number := serial, adb_manufacturer := manu,
        adb_product := prd, envs := es, run_as_user := user, run_as_group := grp\<rparr>"

section \<open>The function interface\<close>

lemma adb_effect_this: "run_state (adb_effect ctx f) w = ((err, f'), w') \<Longrightarrow> f' = f"
  by (auto simp: adb_effect_def split: if_splits prod.splits)

interpretation adb: usb_function adb_add adb_effect base_enable fn_submode fn_max_submode
    SetSubmode fn_effected set_effected fn_type
  by unfold_locales
    (auto simp: adb_add_def base_enable_def SetSubmode_def set_effected_def set_instance_def Let_def
      split: prod.splits dest!: adb_effect_this)

section \<open>Unmounting\<close>

text \<open>The loop ends at the first failing \<open>umount\<close>, unless the fuel is shorter than the stack of
  mounts.\<close>

lemma umount_loop_calls:
  assumes "\<And>i. i < k \<Longrightarrow> ok (fst (env w (trace w @ replicate i (Exec [''umount'', p])) (Exec [''umount'', p])))"
    and "\<not> ok (fst (env w (trace w @ replicate k (Exec [''umount'', p])) (Exec [''umount'', p])))"
    and "k < n"
  shows "trace (snd (run_state (umount_loop n p) w)) = trace w @ replicate (Suc k) (Exec [''umount'', p])"
  using assms
proof (induction k arbitrary: n w)
  case 0
  then obtain m where "n = Suc m" by (cases n) auto
  with 0 show ?case
    by (auto split: prod.splits dest: sys_stepD)
next
  case (Suc k)
  then obtain m where n: "n = Suc m" by (cases n) auto
  obtain r v where s: "sys_step (Exec [''umount'', p]) w = (r, v)" by (cases "sys_step (Exec [''umount'', p]) w")
  note v = sys_stepD [OF s]
  have "ok r" using Suc.prems(1) [of 0] v by simp
  moreover have "trace (snd (run_state (umount_loop m p) v)) = trace v @ replicate (Suc k) (Exec [''umount'', p])"
  proof (rule Suc.IH)
    fix i
    assume "i < k"
    with Suc.prems(1) [of "Suc i"] v
    show "ok (fst (env v (trace v @ replicate i (Exec [''umount'', p])) (Exec [''umount'', p])))" by simp
  next
    show "\<not> ok (fst (env v (trace v @ replicate k (Exec [''umount'', p])) (Exec [''umount'', p])))"
      using Suc.prems(2) v by simp
  qed (use Suc.prems(3) n in simp)
  ultimately show ?case using s v n by simp
qed

section \<open>Groups\<close>

lemma append_group_props:
  "distinct gs \<Longrightarrow> distinct (append_group gs g)"
  "set (append_group gs g) = insert g (set gs)"
  by (auto simp: append_group_def)

lemma add_groups_props:
  "add_groups gs ss = Some gs' \<Longrightarrow> distinct gs \<Longrightarrow>
     distinct gs' \<and> set gs' = set gs \<union> {g. \<exists>s \<in> set ss. ParseUint32 s = Some g}"
  by (induction gs ss rule: add_groups.induct)
    (auto split: option.splits simp: append_group_props)

section \<open>Environment\<close>

text \<open>The entries of an environment for a variable.\<close>

definition env_entries :: "string \<Rightarrow> string list \<Rightarrow> string list" where
  "env_entries name vars = filter (\<lambda>kv. HasPrefix kv (name @ ''='')) vars"

lemma env_key_eq: "CHR ''='' \<notin> set name \<Longrightarrow> env_key (name @ ''='' @ v) = name @ ''=''"
  by (induction name) (auto simp: env_key_def)

lemma HasPrefix_key_unique:
  assumes "HasPrefix kv (a @ ''='')" and "HasPrefix kv (b @ ''='')"
    and "CHR ''='' \<notin> set a" and "CHR ''='' \<notin> set b"
  shows "a = b"
proof -
  have "takeWhile (\<lambda>c. c \<noteq> CHR ''='') (x @ CHR ''='' # y) = x" if "CHR ''='' \<notin> set x" for x y
    using that by (induction x) auto
  moreover obtain y where "kv = a @ CHR ''='' # y"
    using assms(1) by (auto simp: HasPrefix_def prefix_def)
  moreover obtain z where "kv = b @ CHR ''='' # z"
    using assms(2) by (auto simp: HasPrefix_def prefix_def)
  ultimately show ?thesis using assms(3,4) by metis
qed

lemma merge_env_same:
  assumes "CHR ''='' \<notin> set name"
  shows "\<exists>n. env_entries name (merge_env (name @ ''='' @ v) vars) = replicate (Suc n) (name @ ''='' @ v)"
proof (cases "\<exists>kv \<in> set vars. HasPrefix kv (name @ ''='')")
  case True
  define e where "e = name @ ''='' @ v"
  have pe: "HasPrefix e (name @ ''='')" using HasPrefix_append [of "name @ ''=''" v] by (simp add: e_def)
  have "env_entries name (map (\<lambda>kv. if HasPrefix kv (name @ ''='') then e else kv) xs) =
      replicate (length (env_entries name xs)) e" for xs
    using pe by (induction xs) (auto simp: env_entries_def)
  moreover obtain n where "length (env_entries name vars) = Suc n"
    using True by (cases "env_entries name vars") (auto simp: env_entries_def filter_empty_conv)
  moreover have "merge_env e vars = map (\<lambda>kv. if HasPrefix kv (name @ ''='') then e else kv) vars"
    using True env_key_eq [OF assms, of v] unfolding merge_env_def e_def [symmetric] by (auto simp: e_def)
  ultimately show ?thesis unfolding e_def [symmetric] by auto
next
  case False
  then have "env_entries name vars = []" by (auto simp: env_entries_def filter_empty_conv)
  with False env_key_eq [OF assms, of v] HasPrefix_append [of "name @ ''=''" v] show ?thesis
    by (intro exI [of _ 0]) (simp add: merge_env_def env_entries_def)
qed

lemma merge_env_other:
  assumes "CHR ''='' \<notin> set name" and "CHR ''='' \<notin> set other" and "name \<noteq> other"
  shows "env_entries name (merge_env (other @ ''='' @ v) vars) = env_entries name vars"
proof -
  have o: "\<not> HasPrefix (other @ ''='' @ v) (name @ ''='')"
    using HasPrefix_key_unique [of "other @ ''='' @ v" name other] HasPrefix_append [of "other @ ''=''" v] assms by auto
  have k: "HasPrefix kv (other @ ''='') \<Longrightarrow> \<not> HasPrefix kv (name @ ''='')" for kv
    using HasPrefix_key_unique [of kv name other] assms by auto
  have m: "env_entries name (map (\<lambda>kv. if HasPrefix kv (other @ ''='') then e else kv) xs) = env_entries name xs"
    if "\<not> HasPrefix e (name @ ''='')" for xs e
    using that k by (induction xs) (auto simp: env_entries_def)
  have "env_entries name (vars @ [e]) = env_entries name vars" if "\<not> HasPrefix e (name @ ''='')" for e
    using that by (simp add: env_entries_def)
  with m o env_key_eq [OF assms(2), of v] show ?thesis by (simp only: merge_env_def split: if_split) blast
qed

lemma merge_envs_snoc: "merge_envs environ (extras @ [e]) = merge_env e (merge_envs environ extras)"
  by (simp add: merge_envs_def)

section \<open>Calls\<close>

lemma emits_await_exit [emits_rules]:
  "(\<And>n t. P (WaitProcess n t)) \<Longrightarrow> (\<And>n. P (SigKill n)) \<Longrightarrow> emits P (await_exit pid sent)"
  unfolding await_exit_def by (intro emits_rules) auto

lemma emits_adbd_from_file [emits_rules]: "(\<And>f. P (ReadFile f)) \<Longrightarrow> emits P adbd_from_file"
  unfolding adbd_from_file_def read_proc_comm_def by (intro emits_rules) (auto intro!: emits_rules)

lemma emits_kill_adbd: "emits (\<lambda>_. True) kill_adbd"
  unfolding kill_adbd_def stop_process_def
  by (intro emits_rules) (auto intro!: emits_rules split: option.splits)

lemma adbd_probe_emits: "emits (\<lambda>_. True) (adbd_probe pid ep1)"
  unfolding adbd_probe_def by (intro emits_rules emits_kill_adbd) auto

text \<open>Process \<open>n\<close> has just been seen to be an adbd.\<close>

definition adbd_verified :: "os_env \<Rightarrow> os_call list \<Rightarrow> int \<Rightarrow> bool" where
  "adbd_verified E pre n =
     (\<exists>before. pre = before @ [ReadFile (proc_file n ''comm'')] \<and>
        TrimSpace (data (fst (E before (ReadFile (proc_file n ''comm''))))) = ''adbd'')"

lemma adbd_from_file_verified:
  assumes "run_state adbd_from_file w = (n, w')" and "0 < n"
  shows "adbd_verified (env w') (trace w') n"
proof -
  obtain r w1 where 1: "sys_step (ReadFile adbdPidFile) w = (r, w1)" by (cases "sys_step (ReadFile adbdPidFile) w")
  obtain c w2 where 2: "sys_step (ReadFile (proc_file n ''comm'')) w1 = (c, w2)"
    by (cases "sys_step (ReadFile (proc_file n ''comm'')) w1")
  from assms 1 2 have "w' = w2" "ok c" "TrimSpace (data c) = ''adbd''"
    by (auto simp: adbd_from_file_def read_proc_comm_def split: if_splits option.splits prod.splits)
  with sys_stepD [OF 2] show ?thesis unfolding adbd_verified_def by metis
qed

section \<open>Properties of ADB\<close>

text \<open>C39: When the daemon holds no handle (after a restart), \<open>kill_adbd\<close> sends \<open>SIGTERM\<close> to a
  process only right after reading that its command name is \<open>adbd\<close>; a stale pid file never kills
  another program.\<close>

theorem only_adbd_killed:
  assumes "adbd_process w = None" and "kills_ok adbd_verified (env w) (trace w)"
  shows "kills_ok adbd_verified (env w) (trace (snd (run_state kill_adbd w)))"
proof -
  have "keeps_kills adbd_verified (do {
      _ \<leftarrow> do {
        pid \<leftarrow> adbd_from_file;
        if pid \<le> 0 then return () else sys (Kill pid) \<bind> await_exit pid
      };
      _ \<leftarrow> sys (Remove adbdPidFile);
      return () })" (is "keeps_kills _ ?m")
  proof (rule keeps_kills_bind)
    show "keeps_kills adbd_verified (adbd_from_file \<bind>
        (\<lambda>pid. if pid \<le> 0 then return () else sys (Kill pid) \<bind> await_exit pid))"
      by (intro keeps_kills_guarded adbd_from_file_verified emits_rules) auto
  qed (intro keeps_kills_emits emits_rules, simp)
  moreover have "run_state kill_adbd w = run_state ?m w"
    using assms(1) by (simp add: kill_adbd_def split: prod.splits)
  ultimately show ?thesis using assms(2) by (simp add: keeps_kills_def)
qed

theorem only_adbd_killed_witness:
  "kills_ok adbd_verified (env dead_world) (trace (snd (run_state kill_adbd dead_world)))"
  by (rule only_adbd_killed) (simp_all add: kills_ok_def dead_world_def)

lemma adbd_probe_ready:
  assumes "run_state (adbd_probe pid ep1) w = (Some None, w')"
  shows "\<exists>before. trace w' = before @ [Stat ep1] \<and> ok (fst (env w' before (Stat ep1)))"
proof -
  obtain r w1 where 1: "sys_step (Stat ep1) w = (r, w1)" by (cases "sys_step (Stat ep1) w")
  with assms have "ok r \<and> w' = w1"
    by (auto simp: adbd_probe_def split: if_splits prod.splits)
  with sys_stepD [OF 1] show ?thesis by auto
qed

lemma launch_adbd_ready:
  assumes "run_state (launch_adbd path dir extras cred this) w = (None, w')"
  shows "\<exists>before. trace w' = before @ [Stat (join_path [ffs_path this, ''ep1''])] \<and>
     ok (fst (env w' before (Stat (join_path [ffs_path this, ''ep1'']))))"
proof -
  from assms obtain d pid v where
    "poll d 20000000 (adbd_probe pid (join_path [ffs_path this, ''ep1''])) v = (Some None, w')"
    by (auto simp: launch_adbd_def poll_io_def Let_def split: prod.splits if_splits option.splits)
  from poll_Some_body [OF adbd_probe_emits _ this] adbd_probe_ready show ?thesis by auto
qed

lemma start_adbd_ready:
  assumes "run_state (start_adbd path this) w = (None, w')"
  shows "\<exists>before. trace w' = before @ [Stat (join_path [ffs_path this, ''ep1''])] \<and>
     ok (fst (env w' before (Stat (join_path [ffs_path this, ''ep1'']))))"
  using assms
  by (auto simp: start_adbd_def split: prod.splits if_splits option.splits dest!: launch_adbd_ready)

text \<open>C40: \<open>effect\<close> reports success only when adbd is ready: its last call then is the test for the
  endpoint file below the FunctionFS mount, and the machine answered that it exists.\<close>

theorem adb_effect_ready:
  assumes "run_state (adb_effect ctx this) w = ((None, this'), w')"
  shows "\<exists>before. trace w' = before @ [Stat (join_path [ffs_path this, ''ep1''])] \<and>
     ok (fst (env w' before (Stat (join_path [ffs_path this, ''ep1'']))))"
proof -
  from assms obtain path v where "run_state (start_adbd path this) v = (None, w')"
    by (auto simp: adb_effect_def split: if_splits prod.splits elim!: and_then_ok)
  then show ?thesis by (rule start_adbd_ready)
qed

text \<open>A machine on which everything succeeds at once.\<close>

definition fine_env :: os_env where
  "fine_env h c =
     (case c of
        ReadFile f \<Rightarrow> (Fail NotExist, 1)
      | Exec argv \<Rightarrow> (if hd argv = ''umount'' then Fail OtherErr else Done [[]], 1)
      | Glob f \<Rightarrow> (Done [], 1)
      | ReadDir f \<Rightarrow> (Done [''ci_hdrc.0''], 1)
      | StartProcess a d e i \<Rightarrow> (Done [''77''], 1)
      | _ \<Rightarrow> (Done [''x''], 1))"

definition fine_world :: world where
  "fine_world = \<lparr>env = fine_env, clock = 5, trace = [], fuel = 3, adbd_process = None\<rparr>"

definition sample_ctx :: function_context where
  "sample_ctx = \<lparr>fctx_C = \<lparr>ctx_state = True, ctx_gadget = True, ctx_config = True, cfg_root = ''/c'',
     ctx_config_fs = ''/c/g'', gadget_name = ''g''\<rparr>, ConfigFs = ''/c/g''\<rparr>"

definition sample_adb :: usb_gadget_adb where
  "sample_adb = (NewUsbGadgetAdb ''/f'' ''s'' ''m'' ''p'' [] [] [])\<lparr>fn_instance := ''adb''\<rparr>"

theorem adb_effect_ready_witness:
  "\<exists>before. trace (snd (run_state (adb_effect sample_ctx sample_adb) fine_world)) = before @ [Stat ''/f/ep1'']"
proof -
  define r where "r = run_state (adb_effect sample_ctx sample_adb) fine_world"
  have e: "fst (fst r) = None" unfolding r_def by code_simp
  have p: "join_path [ffs_path sample_adb, ''ep1''] = ''/f/ep1''" by code_simp
  have "run_state (adb_effect sample_ctx sample_adb) fine_world = ((None, snd (fst r)), snd r)"
    using e by (simp add: r_def [symmetric] prod_eq_iff)
  from adb_effect_ready [OF this] show ?thesis by (auto simp: r_def [symmetric] p)
qed

text \<open>Variables given to adbd take precedence and the last one wins. After merging settings
  \<open>NAME=VALUE\<close> into any inherited environment, every entry of a set variable is its last setting,
  there is at least one, and the entries of all other variables are the inherited ones.\<close>

theorem merge_envs_last_wins:
  assumes "\<forall>(n, v) \<in> set settings. CHR ''='' \<notin> set n" and "CHR ''='' \<notin> set name"
  shows "\<exists>k. env_entries name (merge_envs environ (map (\<lambda>(n, v). n @ ''='' @ v) settings)) =
     (case map_of (rev settings) name of
        None \<Rightarrow> env_entries name environ
      | Some v \<Rightarrow> replicate (Suc k) (name @ ''='' @ v))"
  using assms
proof (induction settings rule: rev_induct)
  case Nil
  then show ?case by (simp add: merge_envs_def)
next
  case (snoc setting settings)
  obtain n v where s: "setting = (n, v)" by (cases setting)
  define vars where "vars = merge_envs environ (map (\<lambda>(n, v). n @ ''='' @ v) settings)"
  have step: "merge_envs environ (map (\<lambda>(n, v). n @ ''='' @ v) (settings @ [setting])) =
      merge_env (n @ ''='' @ v) vars"
    by (simp add: merge_envs_snoc s vars_def)
  show ?case
  proof (cases "n = name")
    case True
    with merge_env_same [OF snoc.prems(2), of v vars] step s show ?thesis by simp
  next
    case False
    with snoc s have "env_entries name (merge_env (n @ ''='' @ v) vars) = env_entries name vars"
      by (intro merge_env_other) auto
    with snoc False s step show ?thesis by (simp add: vars_def)
  qed
qed

theorem merge_envs_last_wins_witness:
  "\<exists>k. env_entries ''TERM'' (merge_envs [''TERM=a'', ''HOME=/''] [''TERM=b'', ''X=1'', ''TERM=c'']) =
     replicate (Suc k) ''TERM=c''"
  using merge_envs_last_wins [of "[(''TERM'', ''b''), (''X'', ''1''), (''TERM'', ''c'')]" "''TERM''"
      "[''TERM=a'', ''HOME=/'']"]
  by simp

text \<open>The identity adbd runs under is complete: its supplementary groups have no duplicates and
  contain its primary group, so the root groups of the daemon are never inherited.\<close>

theorem identity_groups:
  assumes "fst (run_state (resolve_adbd_identity user grp) w) = Some i"
  shows "distinct (groups i) \<and> gid i \<in> set (groups i)"
proof -
  have acc: "distinct (groups this')" if "account_identity a g this = Some this'" "groups this = []"
    for a g this this'
    using that add_groups_props [of "[]"]
    by (auto simp: account_identity_def split: option.splits if_splits)
  show ?thesis
    using assms
    by (auto simp: resolve_adbd_identity_def Let_def append_group_props split: prod.splits if_splits option.splits
        dest: acc)
qed

theorem identity_groups_witness:
  "\<exists>i. fst (run_state (resolve_adbd_identity [] []) dead_world) = Some i \<and> gid i \<in> set (groups i)"
proof -
  have "\<exists>i. fst (run_state (resolve_adbd_identity [] []) dead_world) = Some i"
    by (simp add: resolve_adbd_identity_def adbdHomeDir_def dead_world_def sys_step_def Let_def)
  then show ?thesis using identity_groups [of "[]" "[]" dead_world] by blast
qed

end
