(* ===== verification/Controller.thy ===== *)
theory Controller
  imports Adb
begin

text \<open>
  \<open>core/usb/controller.go\<close> and \<open>adapter.go\<close>: the controller that rebuilds the gadget from its
  target functions, and the adapter from stored descriptions.

  A function value is a \<open>gadget_function\<close>. The daemon and the controller share the function
  objects: they live in a list, and the controller's map holds their positions, so a change
  through one is seen through the other. Go iterates over a map in an unspecified order, anew in
  each loop: the orders are arguments of \<open>apply_functions\<close> and \<open>Enable\<close>.
\<close>

section \<open>Functions\<close>

datatype gadget_function = FnRndis usb_gadget_rndis | FnAdb usb_gadget_adb

definition fn_add :: "function_context \<Rightarrow> gadget_function \<Rightarrow> (usb_error option \<times> gadget_function) io" where
  "fn_add ctx f =
     (case f of
        FnRndis r \<Rightarrow> do { (err, r) \<leftarrow> rndis_add ctx r; return (err, FnRndis r) }
      | FnAdb a \<Rightarrow> do { (err, a) \<leftarrow> adb_add ctx a; return (err, FnAdb a) })"

definition fn_effect :: "function_context \<Rightarrow> gadget_function \<Rightarrow> (usb_error option \<times> gadget_function) io" where
  "fn_effect ctx f =
     (case f of
        FnRndis r \<Rightarrow> do { (err, r) \<leftarrow> rndis_effect ctx r; return (err, FnRndis r) }
      | FnAdb a \<Rightarrow> do { (err, a) \<leftarrow> adb_effect ctx a; return (err, FnAdb a) })"

definition fn_enable :: "function_context \<Rightarrow> gadget_function \<Rightarrow> (usb_error option \<times> gadget_function) io" where
  "fn_enable ctx f =
     (case f of
        FnRndis r \<Rightarrow> do { (err, r) \<leftarrow> rndis_enable ctx r; return (err, FnRndis r) }
      | FnAdb a \<Rightarrow> do { (err, a) \<leftarrow> base_enable ctx a; return (err, FnAdb a) })"

definition fn_remove :: "function_context \<Rightarrow> gadget_function \<Rightarrow> usb_error option io" where
  "fn_remove ctx f = (case f of FnRndis r \<Rightarrow> base_remove ctx r | FnAdb a \<Rightarrow> base_remove ctx a)"

definition GetSubmode :: "gadget_function \<Rightarrow> int" where
  "GetSubmode f = (case f of FnRndis r \<Rightarrow> fn_submode r | FnAdb a \<Rightarrow> fn_submode a)"

definition MaxSubmode :: "gadget_function \<Rightarrow> int" where
  "MaxSubmode f = (case f of FnRndis r \<Rightarrow> fn_max_submode r | FnAdb a \<Rightarrow> fn_max_submode a)"

definition fn_SetSubmode :: "int \<Rightarrow> gadget_function \<Rightarrow> gadget_function" where
  "fn_SetSubmode m f =
     (case f of FnRndis r \<Rightarrow> FnRndis (SetSubmode m r) | FnAdb a \<Rightarrow> FnAdb (SetSubmode m a))"

definition get_effected :: "gadget_function \<Rightarrow> bool" where
  "get_effected f = (case f of FnRndis r \<Rightarrow> fn_effected r | FnAdb a \<Rightarrow> fn_effected a)"

definition fn_set_effected :: "bool \<Rightarrow> gadget_function \<Rightarrow> gadget_function" where
  "fn_set_effected b f =
     (case f of FnRndis r \<Rightarrow> FnRndis (set_effected b r) | FnAdb a \<Rightarrow> FnAdb (set_effected b a))"

definition GetName :: "gadget_function \<Rightarrow> string" where
  "GetName f = (case f of FnRndis r \<Rightarrow> fn_type r | FnAdb a \<Rightarrow> adb_GetName a)"

definition fn_path :: "gadget_function \<Rightarrow> string" where
  "fn_path f = (case f of FnRndis r \<Rightarrow> get_path r | FnAdb a \<Rightarrow> get_path a)"

definition is_rndis :: "gadget_function \<Rightarrow> bool" where
  "is_rndis f = (case f of FnRndis _ \<Rightarrow> True | FnAdb _ \<Rightarrow> False)"

section \<open>adapter.go\<close>

definition normalize_mac :: "string \<Rightarrow> string" where
  "normalize_mac s =
     (let parts = Split CHR '':'' s in
      if length parts \<noteq> 6 then s
      else Join '':'' (map (\<lambda>p. if length p = 1 then ''0'' @ p else p) parts))"

definition field :: "(string \<rightharpoonup> string) \<Rightarrow> string \<Rightarrow> string" where
  "field attrs k = (case attrs k of Some v \<Rightarrow> v | None \<Rightarrow> [])"

definition AdaptUsbGadgetFunction ::
  "string \<Rightarrow> string \<Rightarrow> (string \<rightharpoonup> string) \<Rightarrow> (usb_error, gadget_function) result" where
  "AdaptUsbGadgetFunction ty i attrs =
     (if ty = ''rndis'' then
        Inr (FnRndis ((SnapshotUsbGadgetRndis i)
          \<lparr>dev_addr := normalize_mac (field attrs ''dev_addr''),
           host_addr := normalize_mac (field attrs ''host_addr''),
           ifname := field attrs ''ifname'', qmult := field attrs ''qmult''\<rparr>))
      else if ty = ''adb'' \<or> ty = ''ffs'' then
        Inr (FnAdb ((SnapshotUsbGadgetAdb i)\<lparr>dev_name := field attrs ''dev_name''\<rparr>))
      else Inl (NoSuchFunctionType ty))"

section \<open>The controller\<close>

record usb_gadget_controller =
  ctl_ctx :: gadget_ctx
  ctl_config_fs :: string
  current_functions :: "(string \<times> nat) list"
  target_functions :: "(string \<times> nat) list"

type_synonym function_errors = "(string \<times> usb_error) list"

definition reset_functions :: "bool \<Rightarrow> usb_gadget_controller \<Rightarrow> usb_gadget_controller" where
  "reset_functions targets this =
     (let this = this\<lparr>current_functions := []\<rparr> in
      if targets then this\<lparr>target_functions := []\<rparr> else this)"

definition ClearFunctions :: "usb_gadget_controller \<Rightarrow> usb_gadget_controller" where
  "ClearFunctions this = reset_functions True this"

definition AddFunction ::
  "nat \<Rightarrow> gadget_function list \<Rightarrow> usb_gadget_controller \<Rightarrow> gadget_function list \<times> usb_gadget_controller" where
  "AddFunction i objs this =
     (let objs = objs[i := fn_set_effected False (objs ! i)]; path = fn_path (objs ! i) in
      (objs, this\<lparr>target_functions := filter (\<lambda>(p, _). p \<noteq> path) (target_functions this) @ [(path, i)]\<rparr>))"

definition fctx_of :: "usb_gadget_controller \<Rightarrow> function_context" where
  "fctx_of this = \<lparr>fctx_C = ctl_ctx this, ConfigFs = ctl_config_fs this\<rparr>"

definition wait_gadget_removed :: "int \<Rightarrow> usb_gadget_controller \<Rightarrow> unit io" where
  "wait_gadget_removed timeout this = do {
     t \<leftarrow> now;
     _ \<leftarrow> poll_io (t + timeout) 20000000 (do {
       stat \<leftarrow> sys (Stat (ctl_config_fs this));
       return (if stat = Fail NotExist then Some () else None)
     });
     return ()
   }"

text \<open>The first loop: \<open>function_add_status\<close> in the order of the loop, the objects, the errors.\<close>

definition safeAdd ::
  "function_context \<Rightarrow> nat \<Rightarrow> gadget_function list \<Rightarrow> (bool \<times> gadget_function list \<times> function_errors) io" where
  "safeAdd ctx i objs = do {
     (err, f) \<leftarrow> fn_add ctx (objs ! i);
     return (case err of
         Some e \<Rightarrow> (False, objs[i := f], [(''call_add_'' @ fn_path f, e)])
       | None \<Rightarrow> (True, objs[i := f], []))
   }"

fun add_all ::
  "function_context \<Rightarrow> nat list \<Rightarrow> gadget_function list \<Rightarrow>
     (bool list \<times> gadget_function list \<times> function_errors) io" where
  "add_all ctx [] objs = return ([], objs, [])"
| "add_all ctx (i # is) objs = do {
     (b, objs, errs) \<leftarrow> (if get_effected (objs ! i) then return (True, objs, []) else safeAdd ctx i objs);
     (bs, objs, errs') \<leftarrow> add_all ctx is objs;
     return (b # bs, objs, errs @ errs')
   }"

text \<open>The second loop; \<open>added\<close> is indexed by the position in the second order.\<close>

definition safeRemove :: "function_context \<Rightarrow> gadget_function \<Rightarrow> function_errors io" where
  "safeRemove ctx f = do {
     err \<leftarrow> fn_remove ctx f;
     return (case err of Some e \<Rightarrow> [(''call_remove_'' @ fn_path f, e)] | None \<Rightarrow> [])
   }"

definition effect_one ::
  "function_context \<Rightarrow> bool \<Rightarrow> nat \<Rightarrow> gadget_function list \<Rightarrow> (gadget_function list \<times> function_errors) io" where
  "effect_one ctx added i objs =
     (if \<not> added then do { errs \<leftarrow> safeRemove ctx (objs ! i); return (objs, errs) }
      else do {
        (err, f) \<leftarrow> fn_effect ctx (objs ! i);
        (case err of
           None \<Rightarrow> return (objs[i := fn_set_effected True f], [])
         | Some e \<Rightarrow> do {
             errs \<leftarrow> safeRemove ctx f;
             return (objs[i := f], (''call_effect_'' @ fn_path f, e) # errs)
           })
      })"

fun effect_all ::
  "function_context \<Rightarrow> bool list \<Rightarrow> nat list \<Rightarrow> gadget_function list \<Rightarrow>
     (gadget_function list \<times> function_errors) io" where
  "effect_all ctx (added # bs) (i # is) objs = do {
     (objs, errs) \<leftarrow> effect_one ctx added i objs;
     (objs, errs') \<leftarrow> effect_all ctx bs is objs;
     return (objs, errs @ errs')
   }"
| "effect_all ctx _ _ objs = return (objs, [])"

definition apply_functions ::
  "nat list \<Rightarrow> nat list \<Rightarrow> gadget_function list \<Rightarrow> usb_gadget_controller \<Rightarrow>
     (function_errors \<times> gadget_function list \<times> usb_gadget_controller) io" where
  "apply_functions order1 order2 objs this = do {
     (err, c) \<leftarrow> CleanAll (ctl_ctx this);
     let this = this\<lparr>ctl_ctx := c\<rparr>;
     (case err of
        Some e \<Rightarrow> return ([(''clean_all'', e)], objs, this)
      | None \<Rightarrow> do {
          _ \<leftarrow> wait_gadget_removed 2000000000 this;
          (err, c) \<leftarrow> CreateGadget (ctl_ctx this);
          let this = this\<lparr>ctl_ctx := c\<rparr>;
          (case err of
             Some e \<Rightarrow> return ([(''create_gadget'', e)], objs, this)
           | None \<Rightarrow> do {
               (added, objs, errs) \<leftarrow> add_all (fctx_of this) order1 objs;
               (objs, errs') \<leftarrow> effect_all (fctx_of this) added order2 objs;
               return (errs @ errs', objs, this)
             })
        })
   }"

definition find_udc :: "(usb_error, string) result io" where
  "find_udc = do {
     entries \<leftarrow> sys (ReadDir ''/sys/class/udc'');
     return (if \<not> ok entries then Inl ListUdcFailed
             else (case items entries of [] \<Rightarrow> Inl NoUdcFound | e # _ \<Rightarrow> Inr e))
   }"

definition enable_gadget :: "usb_gadget_controller \<Rightarrow> usb_error option io" where
  "enable_gadget this = do {
     udc \<leftarrow> find_udc;
     (case udc of Inl e \<Rightarrow> return (Some e) | Inr u \<Rightarrow> CtxEnable u (ctl_ctx this))
   }"

fun enable_all ::
  "function_context \<Rightarrow> (string \<times> nat) list \<Rightarrow> gadget_function list \<Rightarrow>
     (function_errors \<times> gadget_function list) io" where
  "enable_all ctx [] objs = return ([], objs)"
| "enable_all ctx ((path, i) # ts) objs = do {
     (err, f) \<leftarrow> fn_enable ctx (objs ! i);
     (errs, objs) \<leftarrow> enable_all ctx ts (objs[i := f]);
     return ((case err of Some e \<Rightarrow> [(''call_enable_'' @ path, e)] | None \<Rightarrow> []) @ errs, objs)
   }"

definition Enable ::
  "(string \<times> nat) list \<Rightarrow> gadget_function list \<Rightarrow> usb_gadget_controller \<Rightarrow>
     (function_errors \<times> gadget_function list) io" where
  "Enable order objs this = do {
     err \<leftarrow> enable_gadget this;
     (case err of
        Some e \<Rightarrow> return ([(''enable_gadget'', e)], objs)
      | None \<Rightarrow> enable_all (fctx_of this) order objs)
   }"

definition ReconfigureFunction ::
  "nat \<Rightarrow> gadget_function list \<Rightarrow> usb_gadget_controller \<Rightarrow> (usb_error option \<times> gadget_function list) io" where
  "ReconfigureFunction i objs this = do {
     (err, f) \<leftarrow> fn_enable (fctx_of this) (objs ! i);
     return (err, objs[i := f])
   }"

definition NewUsbGadgetController :: "string \<Rightarrow> (usb_error, usb_gadget_controller) result io" where
  "NewUsbGadgetController config_fs = do {
     c \<leftarrow> New config_fs;
     return (case c of
         Inl e \<Rightarrow> Inl e
       | Inr ctx \<Rightarrow> Inr (reset_functions True
           \<lparr>ctl_ctx = ctx, ctl_config_fs = config_fs, current_functions = [], target_functions = []\<rparr>))
   }"

section \<open>The function interface\<close>

lemmas fn_access_defs = GetSubmode_def MaxSubmode_def fn_SetSubmode_def get_effected_def
  fn_set_effected_def GetName_def is_rndis_def

definition fn_ident :: "gadget_function \<Rightarrow> string \<times> bool" where
  "fn_ident f = (GetName f, is_rndis f)"

text \<open>Both concrete functions implement the interface, so the function value does.\<close>

interpretation fn: usb_function fn_add fn_effect fn_enable GetSubmode MaxSubmode fn_SetSubmode
    get_effected fn_set_effected fn_ident
proof
  fix ctx f err f' w w'
  show "run_state (fn_add ctx f) w = ((err, f'), w') \<Longrightarrow>
      GetSubmode f' = GetSubmode f \<and> MaxSubmode f' = MaxSubmode f \<and> fn_ident f' = fn_ident f \<and>
      get_effected f' = get_effected f"
    by (auto simp: fn_add_def fn_ident_def fn_access_defs adb_GetName_def
        split: gadget_function.splits prod.splits dest: rndis.add_keeps adb.add_keeps)
  show "run_state (fn_effect ctx f) w = ((err, f'), w') \<Longrightarrow>
      GetSubmode f' = GetSubmode f \<and> MaxSubmode f' = MaxSubmode f \<and> fn_ident f' = fn_ident f \<and>
      get_effected f' = get_effected f"
    by (auto simp: fn_effect_def fn_ident_def fn_access_defs adb_GetName_def
        split: gadget_function.splits prod.splits dest: rndis.effect_keeps adb.effect_keeps)
  show "run_state (fn_enable ctx f) w = ((err, f'), w') \<Longrightarrow>
      (GetSubmode f' = GetSubmode f \<or> GetSubmode f' = 0) \<and> MaxSubmode f' = MaxSubmode f \<and>
      fn_ident f' = fn_ident f \<and> get_effected f' = get_effected f"
    by (auto simp: fn_enable_def fn_ident_def fn_access_defs adb_GetName_def
        split: gadget_function.splits prod.splits dest: rndis.enable_keeps adb.enable_keeps)
qed (auto simp: fn_ident_def fn_access_defs adb_GetName_def rndis.submode_put rndis.effected_put
      rndis.others_put adb.submode_put adb.effected_put adb.others_put split: gadget_function.splits)

text \<open>
  Two lists of function objects that differ only in ways the phases may change them: same length,
  same kinds of functions, each submode kept or reset to 0.
\<close>

definition same_functions :: "gadget_function list \<Rightarrow> gadget_function list \<Rightarrow> bool" where
  "same_functions objs objs' \<longleftrightarrow>
     length objs' = length objs \<and>
     (\<forall>i < length objs. fn_ident (objs' ! i) = fn_ident (objs ! i) \<and>
        MaxSubmode (objs' ! i) = MaxSubmode (objs ! i) \<and>
        (GetSubmode (objs' ! i) = GetSubmode (objs ! i) \<or> GetSubmode (objs' ! i) = 0))"

lemma same_functions_refl [simp]: "same_functions objs objs"
  by (simp add: same_functions_def)

lemma same_functions_trans: "same_functions a b \<Longrightarrow> same_functions b c \<Longrightarrow> same_functions a c"
  unfolding same_functions_def by (metis (no_types))

lemma same_functions_update:
  assumes "i < length objs \<Longrightarrow> fn_ident f = fn_ident (objs ! i) \<and> MaxSubmode f = MaxSubmode (objs ! i) \<and>
      (GetSubmode f = GetSubmode (objs ! i) \<or> GetSubmode f = 0)"
  shows "same_functions objs (objs[i := f])"
  using assms by (cases "i < length objs") (auto simp: same_functions_def nth_list_update)

lemma same_functions_effected: "same_functions objs (objs[i := fn_set_effected b (objs ! i)])"
  by (rule same_functions_update) (simp add: fn.others_put fn.submode_put)

lemma safeAdd_same:
  "run_state (safeAdd ctx i objs) w = ((b, objs', errs), w') \<Longrightarrow> same_functions objs objs'"
  by (auto simp: safeAdd_def split: prod.splits option.splits
      intro!: same_functions_update dest!: fn.add_keeps)

lemma add_all_same:
  "run_state (add_all ctx is objs) w = ((bs, objs', errs), w') \<Longrightarrow> same_functions objs objs'"
proof (induction ctx "is" objs arbitrary: w bs errs w' objs' rule: add_all.induct)
  case (2 ctx i "is" objs)
  then show ?case
    by (auto split: prod.splits if_splits dest!: safeAdd_same intro: same_functions_trans)
qed simp

lemma effect_one_same:
  "run_state (effect_one ctx added i objs) w = ((objs', errs), w') \<Longrightarrow> same_functions objs objs'"
  by (auto simp: effect_one_def fn.others_put fn.submode_put split: prod.splits option.splits if_splits
      intro!: same_functions_update dest!: fn.effect_keeps)

lemma effect_all_same:
  "run_state (effect_all ctx added is objs) w = ((objs', errs), w') \<Longrightarrow> same_functions objs objs'"
proof (induction ctx added "is" objs arbitrary: w errs w' objs' rule: effect_all.induct)
  case (1 ctx added bs i "is" objs)
  then show ?case
    by (auto split: prod.splits dest!: effect_one_same intro: same_functions_trans)
qed simp_all

lemma apply_functions_same:
  assumes "run_state (apply_functions order1 order2 objs this) w = ((errs, objs', this'), w')"
  shows "same_functions objs objs'"
  using assms
  by (auto simp: apply_functions_def Let_def split: prod.splits option.splits
      dest!: add_all_same effect_all_same intro: same_functions_trans)

lemma enable_all_same:
  "run_state (enable_all ctx ts objs) w = ((errs, objs'), w') \<Longrightarrow> same_functions objs objs'"
proof (induction ctx ts objs arbitrary: w errs w' objs' rule: enable_all.induct)
  case (2 ctx path i ts objs)
  obtain err f w1 where 1: "run_state (fn_enable ctx (objs ! i)) w = ((err, f), w1)" by (metis surj_pair)
  obtain errs2 objs2 w2 where 2: "run_state (enable_all ctx ts (objs[i := f])) w1 = ((errs2, objs2), w2)"
    by (metis surj_pair)
  have "same_functions objs (objs[i := f])"
    using fn.enable_keeps [OF 1] by (intro same_functions_update) simp
  moreover have "same_functions (objs[i := f]) objs2" by (rule "2.IH" [OF 2])
  moreover have "objs' = objs2" using "2.prems" 1 2 by simp
  ultimately show ?case by (auto intro: same_functions_trans)
qed simp

lemma Enable_same:
  assumes "run_state (Enable order objs this) w = ((errs, objs'), w')"
  shows "same_functions objs objs'"
  using assms by (auto simp: Enable_def split: prod.splits option.splits dest!: enable_all_same)

lemma ReconfigureFunction_same:
  assumes "run_state (ReconfigureFunction i objs this) w = ((err, objs'), w')"
  shows "same_functions objs objs'"
  using assms
  by (auto simp: ReconfigureFunction_def split: prod.splits dest!: fn.enable_keeps intro!: same_functions_update)

section \<open>No binding before Enable\<close>

definition not_bind :: "os_call \<Rightarrow> bool" where
  "not_bind c = (c \<noteq> Usbg usbg_enable_gadget)"

lemma not_bind_simps [simp]:
  "not_bind (Exec a)" "not_bind (ReadFile f)" "not_bind (WriteFile f s)" "not_bind (Stat f)"
  "not_bind (Remove f)" "not_bind (MkdirAll f)" "not_bind (ReadDir f)" "not_bind (Glob f)"
  "not_bind (Chmod f m)" "not_bind (Chown f x g)" "not_bind (Sleep n)" "not_bind (Kill n)"
  "not_bind (SignalZero n)" "not_bind (WaitProcess n u)" "not_bind (SigKill n)"
  "not_bind (StartProcess a f e i)" "not_bind (LookPath f)" "not_bind (UserLookup f)"
  "not_bind UserCurrent" "not_bind (UserGroupIds f)" "not_bind (LookupGroup f)" "not_bind UserHomeDir"
  "not_bind Geteuid" "not_bind Getegid" "not_bind Environ"
  "not_bind (Usbg c) \<longleftrightarrow> c \<noteq> usbg_enable_gadget"
  by (simp_all add: not_bind_def)

lemma nb_ctx_ops [emits_rules]:
  "emits not_bind (AddRndis i d h n q c)" "emits not_bind (AddFfs i c)"
  "emits not_bind (SetGadgetAttrs a1 a2 a3 a4 a5 a6 a7 c)" "emits not_bind (SetStrs s m p c)"
  "emits not_bind (SetOsDesc v s c)" "emits not_bind (SetFunctionOsDesc i n x y c)"
  "emits not_bind (SetConfigName n c)" "emits not_bind (WriteConfigMaxPower mA c)"
  unfolding AddRndis_def AddFfs_def SetGadgetAttrs_def SetStrs_def SetOsDesc_def SetFunctionOsDesc_def
    SetConfigName_def WriteConfigMaxPower_def
  by ((intro emits_rules); auto intro!: emits_rules)+

lemma nb_dnsmasq [emits_rules]: "emits not_bind stop_dnsmasq_all"
  unfolding stop_dnsmasq_all_def stop_dnsmasq_one_def by (intro emits_rules) auto

lemma nb_umount_loop [emits_rules]: "emits not_bind (umount_loop n p)"
  by (induction n) (auto intro!: emits_rules)

lemma nb_adb_parts [emits_rules]:
  "emits not_bind (umount_ffs p)" "emits not_bind kill_adbd" "emits not_bind (adbdHomeDir u)"
  unfolding umount_ffs_def kill_adbd_def stop_process_def adbdHomeDir_def
  by ((intro emits_rules); auto intro!: emits_rules split: option.splits)+

lemma nb_identity [emits_rules]: "emits not_bind (resolve_adbd_identity u g)"
  unfolding resolve_adbd_identity_def by (intro emits_rules) (auto intro!: emits_rules split: option.splits)

lemma nb_launch [emits_rules]: "emits not_bind (launch_adbd p d x c a)"
  unfolding launch_adbd_def adbd_probe_def by (intro emits_rules) (auto intro!: emits_rules split: option.splits)

lemma nb_start [emits_rules]: "emits not_bind (start_adbd p a)"
  unfolding start_adbd_def by (intro emits_rules) (auto intro!: emits_rules split: option.splits)

lemma nb_phases [emits_rules]:
  "emits not_bind (rndis_add ctx r)" "emits not_bind (rndis_effect ctx r)"
  "emits not_bind (adb_add ctx a)" "emits not_bind (adb_effect ctx a)"
  unfolding rndis_add_def rndis_effect_def adb_add_def adb_effect_def
  by ((intro emits_rules); auto intro!: emits_rules split: option.splits)+

lemma nb_functions [emits_rules]:
  "emits not_bind (fn_add ctx f)" "emits not_bind (fn_effect ctx f)" "emits not_bind (fn_remove ctx f)"
  unfolding fn_add_def fn_effect_def fn_remove_def base_remove_def
  by (cases f; auto intro!: emits_rules)+

lemma nb_add_all [emits_rules]: "emits not_bind (add_all ctx is objs)"
  by (induction ctx "is" objs rule: add_all.induct)
    (auto simp: safeAdd_def intro!: emits_rules split: option.splits)

lemma nb_effect_all [emits_rules]: "emits not_bind (effect_all ctx added is objs)"
  by (induction ctx added "is" objs rule: effect_all.induct)
    (auto simp: effect_one_def safeRemove_def intro!: emits_rules split: option.splits)

lemma nb_clean_create [emits_rules]: "emits not_bind (CleanAll c)" "emits not_bind (CreateGadget c)"
  unfolding CleanAll_def CreateGadget_def by ((intro emits_rules); auto intro!: emits_rules)+

lemma nb_wait [emits_rules]: "emits not_bind (wait_gadget_removed t this)"
  unfolding wait_gadget_removed_def by (intro emits_rules) auto

section \<open>Properties of the controller\<close>

text \<open>Rebuilding never binds the gadget. Whatever the machine answers and in whatever order the
  functions are visited, the calls of \<open>apply_functions\<close> do not include the binding of the USB
  device controller, so the host never sees a half-built gadget.\<close>

theorem apply_never_binds:
  "list_all (\<lambda>c. c \<noteq> Usbg usbg_enable_gadget) (calls_of (apply_functions order1 order2 objs this) w)"
proof -
  have "emits not_bind (apply_functions order1 order2 objs this)"
    unfolding apply_functions_def by (intro emits_rules)
  from emits_calls_of [OF this, of w] show ?thesis by (simp add: list_all_iff not_bind_def)
qed

text \<open>A rebuild of one function that reports no error is complete: the gadget and its
  configuration exist, the function counts as effected, and its submode is the one asked for.\<close>

theorem apply_one_success:
  assumes "i < length objs" and "\<not> get_effected (objs ! i)"
    and "run_state (apply_functions [i] [i] objs this) w = (([], objs', this'), w')"
  shows "ctx_gadget (ctl_ctx this') \<and> ctx_config (ctl_ctx this') \<and> length objs' = length objs \<and>
    get_effected (objs' ! i) \<and> GetSubmode (objs' ! i) = GetSubmode (objs ! i) \<and>
    (\<forall>j < length objs. j \<noteq> i \<longrightarrow> objs' ! j = objs ! j)"
proof -
  obtain c v v1 f f1 ctx where
    create: "run_state (CreateGadget c) v = ((None, ctl_ctx this'), v1)" and
    add: "\<exists>x y. run_state (fn_add ctx (objs ! i)) x = ((None, f), y)" and
    eff: "\<exists>x y. run_state (fn_effect ctx f) x = ((None, f1), y)" and
    objs': "objs' = objs[i := f, i := fn_set_effected True f1]"
    using assms
    by (auto simp: apply_functions_def safeAdd_def effect_one_def Let_def
        split: prod.splits option.splits) blast
  have "ctx_gadget (ctl_ctx this')" "ctx_config (ctl_ctx this')"
    using CreateGadget_result [OF create] by auto
  moreover have "GetSubmode f1 = GetSubmode (objs ! i)"
    using add eff by (auto dest!: fn.add_keeps fn.effect_keeps)
  ultimately show ?thesis
    using assms(1) by (simp add: objs' fn.effected_put fn.submode_put)
qed

definition sample_controller :: usb_gadget_controller where
  "sample_controller = \<lparr>ctl_ctx = fctx_C sample_ctx, ctl_config_fs = ''/c/g'', current_functions = [],
     target_functions = []\<rparr>"

theorem apply_one_success_witness:
  "get_effected (fst (snd (fst (run_state (apply_functions [1] [1] [FnRndis sample_rndis, FnAdb sample_adb]
     sample_controller) fine_world))) ! 1)"
proof -
  define r where "r = run_state (apply_functions [1] [1] [FnRndis sample_rndis, FnAdb sample_adb]
    sample_controller) fine_world"
  have e: "fst (fst r) = []" unfolding r_def by code_simp
  have n: "\<not> get_effected ([FnRndis sample_rndis, FnAdb sample_adb] ! 1)" by code_simp
  have "r = (([], fst (snd (fst r)), snd (snd (fst r))), snd r)" using e by (simp add: prod_eq_iff)
  from apply_one_success [OF _ n this [unfolded r_def]] show ?thesis by simp
qed

text \<open>With more than one target function the two loops of \<open>apply_functions\<close> need not visit them
  in the same order, but share their status by position. There is an order in which a function whose
  \<open>add\<close> failed is nevertheless effected, and the one that was added is not.\<close>

theorem status_by_position_confuses_functions:
  "let bad = FnRndis (sample_rndis\<lparr>qmult := ''x''\<rparr>); good = FnAdb sample_adb;
       r = fst (run_state (apply_functions [0, 1] [1, 0] [bad, good] sample_controller) fine_world)
   in map fst (fst r) = [''call_add_rndis.rndis.1''] \<and>
      get_effected (fst (snd r) ! 0) \<and> \<not> get_effected (fst (snd r) ! 1)"
  by code_simp

end
