(* ===== verification/Daemon.thy ===== *)
theory Daemon
  imports Controller Led Input_Device
begin

text \<open>
  \<open>core/daemon/daemon.go\<close>: the daemon. Its main loop turns button events and IPC requests into
  mode changes; a change is applied by goroutines (\<open>apply_function\<close>, then, after a delay,
  \<open>finish_apply\<close>) while the main loop goes on.

  The state is the record \<open>daemon\<close>, field by field. A buffered channel is its contents, an atomic
  is its value. The functions the daemon switches between (\<open>modes\<close>) are the objects the controller
  refers to by position. A goroutine is a \<open>task\<close> that says what it does next, cut at every operation on
  the gadget and at every sleep. \<open>TaskApply\<close> is \<open>apply_function\<close> as launched, \<open>TaskWork\<close> has taken its snapshot and is
  about to rebuild or reconfigure, \<open>TaskSubmodeDone\<close> has reconfigured, \<open>TaskSend\<close> waits for room in \<open>rebind_chan\<close>.
  \<open>TaskFinish\<close> is \<open>finish_apply\<close> and \<open>TaskEnabled\<close> what it does after the gadget is bound. \<open>TaskFailed\<close> enters
  \<open>handle_apply_failure\<close>, the \<open>TaskRollback\<close> tasks are its operations on the gadget, \<open>TaskConclude\<close> its end. The \<open>TaskLed\<close>
  tasks are \<open>led_init_indication\<close> between its sleeps. The pieces interleave with the main loop and with everything
  else; each piece, so each operation on the gadget, is atomic. The goroutines are also given as they stand
  (\<open>apply_work\<close>, \<open>finish_apply\<close>, \<open>handle_apply_failure\<close>): what the pieces do when nothing comes between.
\<close>

section \<open>Data\<close>

record apply_target =
  tgt_mode :: nat
  tgt_submode :: int

datatype gadget_error =
    EmptyGadgetName string
  | InvalidSubmode string
  | NoSuchGadget string
  | SubmodeTooLarge string int int

record gadget_response =
  resp_gadget :: string
  resp_err :: "gadget_error option"

record daemon =
  input_device :: input_device
  controller :: usb_gadget_controller
  interpreters :: "led_interpreter option list"
  modes :: "gadget_function list"
  current_mode :: nat
  current_mode_rndis :: bool
  mode_changed :: bool
  mode_changing :: bool
  submode_changed :: bool
  reapply :: bool
  first_apply :: bool
  apply_done :: bool
  led_init_done :: bool
  turn_off_leds :: bool
  ipc_allow_other_user :: bool
  submode_selection :: bool
  submode_entry_done :: bool
  submode_entry_mode :: led_mode
  LED_MODE_BLINK :: led_mode
  shutdown_threshold :: int
  shutdown_command :: string
  shutdown_shell :: string
  shutdown_timeout :: int
  shutting_down :: bool
  stopped :: bool
  gadget_reqs :: "string list"
  gadget_resps :: "gadget_response list"
  rebind_chan :: "int option"
  rebind_delay :: int
  pending_enable :: bool
  enable_deadline :: int
  pending_apply :: apply_target
  last_good_mode :: nat
  last_good_submode :: int
  apply_error :: bool
  status :: string
  effect_kind :: string
  wake_chan :: bool

datatype apply_task =
    TaskApply
  | TaskWork apply_target bool
  | TaskSubmodeDone apply_target
  | TaskSend int
  | TaskFinish
  | TaskEnabled apply_target
  | TaskFailed apply_target bool
  | TaskRollback
  | TaskRollbackBind
  | TaskRollbackSubmode nat
  | TaskConclude bool
  | TaskLedInit
  | TaskLedOn nat
  | TaskLedOff nat

section \<open>Status and LEDs\<close>

definition update_status :: "daemon \<Rightarrow> daemon" where
  "update_status this =
     this\<lparr>status :=
       (if shutting_down this then ''shutting_down''
        else if mode_changing this then
          ''effecting::gadget::'' @ (if effect_kind this = [] then ''mode'' else effect_kind this)
        else ''running'')\<rparr>"

definition RequestStatus :: "daemon \<Rightarrow> string" where
  "RequestStatus this = status this"

definition LED_SUBMODE_MODES :: "led_mode list" where
  "LED_SUBMODE_MODES =
     [MODE_PRESET_ON, ModeDone (Wait 500000000 (OnDuration 500000000 NewLedMode))]"

text \<open>\<open>submode % 2\<close>, made non-negative.\<close>

definition submode_led_mode :: "daemon \<Rightarrow> led_mode" where
  "submode_led_mode this =
     (let index = go_mod (GetSubmode (modes this ! current_mode this)) 2 in
      LED_SUBMODE_MODES ! nat (if index < 0 then index + 2 else index))"

definition current_interpreter :: "daemon \<Rightarrow> led_interpreter option" where
  "current_interpreter this =
     (if current_mode this < length (interpreters this) then interpreters this ! current_mode this else None)"

text \<open>\<open>if interpreter := this.current_interpreter(); interpreter != nil { SetMode }\<close>.\<close>

definition led_current :: "led_mode \<Rightarrow> daemon \<Rightarrow> daemon" where
  "led_current m this =
     (case current_interpreter this of
        None \<Rightarrow> this
      | Some i \<Rightarrow> this\<lparr>interpreters := (interpreters this)[current_mode this := Some (SetMode m i)]\<rparr>)"

definition turn_off_all_leds :: "daemon \<Rightarrow> daemon" where
  "turn_off_all_leds this =
     this\<lparr>interpreters := map (map_option (SetMode MODE_PRESET_OFF)) (interpreters this)\<rparr>"

definition display_mode_state :: "daemon \<Rightarrow> daemon" where
  "display_mode_state this =
     (if apply_error this then turn_off_all_leds this
      else if \<not> turn_off_leds this then led_current (submode_led_mode this) this
      else led_current MODE_PRESET_OFF this)"

definition apply_led_state :: "daemon \<Rightarrow> daemon" where
  "apply_led_state this =
     (if apply_error this then turn_off_all_leds this
      else if turn_off_leds this then led_current MODE_PRESET_OFF this
      else led_current (submode_led_mode this) this)"

definition SetTurnOffLeds :: "bool \<Rightarrow> daemon \<Rightarrow> daemon" where
  "SetTurnOffLeds off this = apply_led_state (this\<lparr>turn_off_leds := off\<rparr>)"

section \<open>Gadget requests\<close>

definition parse_gadget_spec :: "string \<Rightarrow> (gadget_error, string \<times> int) result" where
  "parse_gadget_spec spec =
     (case Cut CHR ''.'' spec of
        (name, submode_str, has_submode) \<Rightarrow>
          if name = [] then Inl (EmptyGadgetName spec)
          else if \<not> has_submode then Inr (name, 0)
          else (case Atoi submode_str of
                  None \<Rightarrow> Inl (InvalidSubmode spec)
                | Some submode \<Rightarrow>
                    if submode < 0 then Inl (InvalidSubmode spec) else Inr (name, submode)))"

definition current_gadget_spec :: "daemon \<Rightarrow> string" where
  "current_gadget_spec this =
     (let mode = modes this ! current_mode this in GetName mode @ ''.'' @ Itoa (GetSubmode mode))"

definition set_current_mode :: "nat \<Rightarrow> daemon \<Rightarrow> daemon" where
  "set_current_mode index this =
     this\<lparr>current_mode := index, current_mode_rndis := is_rndis (modes this ! index)\<rparr>"

definition set_mode_submode :: "nat \<Rightarrow> int \<Rightarrow> daemon \<Rightarrow> daemon" where
  "set_mode_submode index submode this =
     this\<lparr>modes := (modes this)[index := fn_SetSubmode submode (modes this ! index)]\<rparr>"

text \<open>The first mode with a name.\<close>

fun find_mode :: "string \<Rightarrow> nat \<Rightarrow> gadget_function list \<Rightarrow> nat option" where
  "find_mode name i [] = None"
| "find_mode name i (m # ms) = (if GetName m = name then Some i else find_mode name (Suc i) ms)"

definition handle_gadget_request :: "string \<Rightarrow> daemon \<Rightarrow> gadget_response \<times> daemon" where
  "handle_gadget_request spec this =
     (let spec = TrimSpace spec in
      if spec = [] then (\<lparr>resp_gadget = current_gadget_spec this, resp_err = None\<rparr>, this)
      else (case parse_gadget_spec spec of
              Inl e \<Rightarrow> (\<lparr>resp_gadget = [], resp_err = Some e\<rparr>, this)
            | Inr (name, submode) \<Rightarrow>
                (case find_mode name 0 (modes this) of
                   None \<Rightarrow> (\<lparr>resp_gadget = [], resp_err = Some (NoSuchGadget name)\<rparr>, this)
                 | Some index \<Rightarrow>
                     (let mode = modes this ! index in
                      if MaxSubmode mode < submode
                      then (\<lparr>resp_gadget = [],
                             resp_err = Some (SubmodeTooLarge name submode (MaxSubmode mode))\<rparr>, this)
                      else
                        (let this =
                           (if index \<noteq> current_mode this then
                              (set_mode_submode index submode (set_current_mode index this))
                                \<lparr>mode_changed := True, submode_changed := False\<rparr>
                            else if GetSubmode mode \<noteq> submode then
                              (set_mode_submode index submode this)
                                \<lparr>mode_changed := True, submode_changed := True\<rparr>
                            else this)
                         in (\<lparr>resp_gadget = current_gadget_spec this, resp_err = None\<rparr>, this))))))"

text \<open>The requests waiting in the channel, in order; each answer goes to its requester.\<close>

fun handle_requests :: "string list \<Rightarrow> daemon \<Rightarrow> daemon" where
  "handle_requests [] this = this"
| "handle_requests (spec # specs) this =
     (case handle_gadget_request spec this of
        (resp, this) \<Rightarrow> handle_requests specs (this\<lparr>gadget_resps := gadget_resps this @ [resp]\<rparr>))"

definition handle_gadget_requests :: "daemon \<Rightarrow> daemon" where
  "handle_gadget_requests this = handle_requests (gadget_reqs this) (this\<lparr>gadget_reqs := []\<rparr>)"

definition daemon_signal_wake :: "daemon \<Rightarrow> daemon" where
  "daemon_signal_wake this = this\<lparr>wake_chan := True\<rparr>"

text \<open>\<open>RequestGadget\<close> up to the wait for the answer: the channel holds four requests.\<close>

definition RequestGadget :: "string \<Rightarrow> daemon \<Rightarrow> daemon option" where
  "RequestGadget spec this =
     (if 4 \<le> length (gadget_reqs this) then None
      else Some (daemon_signal_wake (this\<lparr>gadget_reqs := gadget_reqs this @ [spec]\<rparr>)))"

definition daemon_Stop :: "daemon \<Rightarrow> daemon" where
  "daemon_Stop this = this\<lparr>stopped := True\<rparr>"

section \<open>Simulated buttons\<close>

text \<open>The target is a \<open>uint8\<close>; values other than the four named ones reach the code too.\<close>

datatype simulate_target =
    SIMULATE_BUTTON_TAP
  | SIMULATE_BUTTON_LONG
  | SIMULATE_BUTTON_SHUTDOWN
  | SIMULATE_BUTTON_MULTI
  | SIMULATE_BUTTON_OTHER nat

datatype simulate_error = CountTooSmall | CountTooLarge int nat

definition synthetic :: "int \<Rightarrow> input_event_type \<Rightarrow> input_event" where
  "synthetic t ty = \<lparr>ev_Time = t, ev_Devnode = [], ev_Type = ty, ev_Duration = 0, ev_TapCount = 1,
     ev_Error = None, ev_Status = DEVICE_STATUS_NORMAL\<rparr>"

definition with_input :: "(input_device \<Rightarrow> input_device) \<Rightarrow> daemon \<Rightarrow> daemon" where
  "with_input f this = this\<lparr>input_device := f (input_device this)\<rparr>"

text \<open>\<open>SimulateButton\<close> at time \<open>t\<close>.\<close>

definition SimulateButton ::
  "int \<Rightarrow> simulate_target \<Rightarrow> int \<Rightarrow> daemon \<Rightarrow> simulate_error option \<times> daemon" where
  "SimulateButton t target count this =
     (let config = Config (input_device this);
          past = t - (MultipleTapThreshold config + Millisecond) in
      case target of
        SIMULATE_BUTTON_TAP \<Rightarrow> (None, with_input (InjectEvent (Some (synthetic past INPUT_TAP))) this)
      | SIMULATE_BUTTON_LONG \<Rightarrow> (None, with_input (InjectEvent (Some (synthetic past INPUT_LONG_TAP))) this)
      | SIMULATE_BUTTON_SHUTDOWN \<Rightarrow>
          (let d = (if shutdown_threshold this \<le> 0 then Second else shutdown_threshold this) in
           (None, with_input (InjectPress t (d + Second)) this))
      | SIMULATE_BUTTON_MULTI \<Rightarrow>
          (let m = MultipleTapMaxCount config in
           if count < 2 then (Some CountTooSmall, this)
           else if 0 < m \<and> int m < count then (Some (CountTooLarge count m), this)
           else (None, with_input (InjectEvent (Some (synthetic t INPUT_TAP)) ^^ nat count) this))
      | SIMULATE_BUTTON_OTHER _ \<Rightarrow> (None, this))"

section \<open>Applying a mode\<close>

definition commit_mode :: "apply_target \<Rightarrow> daemon \<Rightarrow> daemon" where
  "commit_mode target this =
     this\<lparr>last_good_mode := tgt_mode target, last_good_submode := tgt_submode target, apply_error := False\<rparr>"

definition should_rollback :: "nat \<Rightarrow> apply_target \<Rightarrow> apply_target \<Rightarrow> bool" where
  "should_rollback modes_len failed last_good \<longleftrightarrow>
     1 < modes_len \<and> (tgt_mode failed \<noteq> tgt_mode last_good \<or> tgt_submode failed \<noteq> tgt_submode last_good)"

text \<open>
  \<open>ClearFunctions\<close>, \<open>AddFunction\<close> and \<open>ApplyFunctions\<close> for one mode, and \<open>Enable\<close>. The map of
  targets then has one entry, so the order of its iterations is fixed.
\<close>

definition add_only :: "nat \<Rightarrow> daemon \<Rightarrow> daemon" where
  "add_only i this =
     (case AddFunction i (modes this) (ClearFunctions (controller this)) of
        (objs, c) \<Rightarrow> this\<lparr>modes := objs, controller := c\<rparr>)"

definition target_order :: "daemon \<Rightarrow> nat list" where
  "target_order this = map snd (target_functions (controller this))"

definition rebuild :: "daemon \<Rightarrow> (bool \<times> daemon) io" where
  "rebuild this = do {
     (errs, objs, c) \<leftarrow> apply_functions (target_order this) (target_order this) (modes this) (controller this);
     return (errs = [], this\<lparr>modes := objs, controller := c\<rparr>)
   }"

definition enable_targets :: "daemon \<Rightarrow> (bool \<times> daemon) io" where
  "enable_targets this = do {
     (errs, objs) \<leftarrow> Enable (target_functions (controller this)) (modes this) (controller this);
     return (errs = [], this\<lparr>modes := objs\<rparr>)
   }"

definition reconfigure :: "nat \<Rightarrow> daemon \<Rightarrow> (bool \<times> daemon) io" where
  "reconfigure i this = do {
     (err, objs) \<leftarrow> ReconfigureFunction i (modes this) (controller this);
     return (err = None, this\<lparr>modes := objs\<rparr>)
   }"

text \<open>The wait before the gadget of a rollback is bound, and binding it.\<close>

definition rollback_bind :: "daemon \<Rightarrow> (bool \<times> daemon) io" where
  "rollback_bind this = do {
     _ \<leftarrow> (if 0 < rebind_delay this then do { _ \<leftarrow> sys (Sleep (rebind_delay this)); return () }
           else return ());
     enable_targets this
   }"

definition rollback_mode :: "daemon \<Rightarrow> (bool \<times> daemon) io" where
  "rollback_mode this =
     (if length (modes this) \<le> last_good_mode this then return (False, this)
      else do {
        let this = set_current_mode (last_good_mode this)
                     (set_mode_submode (last_good_mode this) (last_good_submode this) this);
        (built, this) \<leftarrow> rebuild (add_only (last_good_mode this) this);
        if \<not> built then return (False, this)
        else rollback_bind this
      })"

definition rollback_submode :: "daemon \<Rightarrow> (bool \<times> daemon) io" where
  "rollback_submode this =
     (if length (modes this) \<le> last_good_mode this then return (False, this)
      else do {
        let this = set_current_mode (last_good_mode this)
                     (set_mode_submode (last_good_mode this) (last_good_submode this) this);
        reconfigure (last_good_mode this) this
      })"

text \<open>The end of \<open>handle_apply_failure\<close>, after a rollback or without one.\<close>

definition conclude_failure :: "bool \<Rightarrow> daemon \<Rightarrow> daemon" where
  "conclude_failure rolled_back this =
     (let this = (if rolled_back then this\<lparr>apply_error := False\<rparr>
                  else (let this = this\<lparr>apply_error := True\<rparr> in
                        if last_good_mode this < length (modes this)
                        then set_mode_submode (last_good_mode this) (last_good_submode this) this
                        else this));
          this = (if led_init_done this then display_mode_state this else this)
      in this\<lparr>mode_changing := False\<rparr>)"

definition handle_apply_failure :: "apply_target \<Rightarrow> bool \<Rightarrow> daemon \<Rightarrow> daemon io" where
  "handle_apply_failure failed submode_only this = do {
     let this = turn_off_all_leds (this\<lparr>apply_done := True\<rparr>);
     let can_rollback = should_rollback (length (modes this)) failed
            \<lparr>tgt_mode = last_good_mode this, tgt_submode = last_good_submode this\<rparr>;
     (rolled_back, this) \<leftarrow> (if can_rollback then (if submode_only then rollback_submode this else rollback_mode this)
                            else return (False, this));
     return (conclude_failure rolled_back this)
   }"

text \<open>\<open>apply_function\<close> up to the external work: the snapshot, the flags, the LED.\<close>

definition apply_begin :: "daemon \<Rightarrow> apply_task \<times> daemon" where
  "apply_begin this =
     (let target = \<lparr>tgt_mode = current_mode this, tgt_submode = GetSubmode (modes this ! current_mode this)\<rparr>;
          submode_only = submode_changed this;
          this = this\<lparr>submode_changed := False, mode_changing := True\<rparr> in
      if submode_only then (TaskWork target True, led_current MODE_PRESET_OFF this)
      else
        (let again = reapply this; first = first_apply this;
             this = this\<lparr>reapply := False, first_apply := False\<rparr>;
             this = (if first then this
                     else if submode_selection this \<and> \<not> again then led_current MODE_PRESET_OFF this
                     else led_current (LED_MODE_BLINK this) this)
         in (TaskWork target False, add_only (tgt_mode target) this)))"

text \<open>The end of a change of submode.\<close>

definition submode_applied :: "apply_target \<Rightarrow> daemon \<Rightarrow> daemon" where
  "submode_applied target this =
     (let this = commit_mode target this in
      if \<not> turn_off_leds this then led_current (submode_led_mode this) this
      else led_current MODE_PRESET_OFF this)\<lparr>mode_changing := False\<rparr>"

text \<open>The rest of \<open>apply_function\<close>, up to the message to the main loop.\<close>

definition apply_work :: "apply_target \<Rightarrow> bool \<Rightarrow> daemon \<Rightarrow> (apply_task list \<times> daemon) io" where
  "apply_work target submode_only this =
     (if submode_only then do {
        (done, this) \<leftarrow> reconfigure (tgt_mode target) this;
        if \<not> done then do { this \<leftarrow> handle_apply_failure target True this; return ([], this) }
        else return ([], submode_applied target this)
      }
      else do {
        (built, this) \<leftarrow> rebuild this;
        if \<not> built then do { this \<leftarrow> handle_apply_failure target False this; return ([], this) }
        else do {
          t \<leftarrow> now;
          return ([TaskSend (t + rebind_delay this)], this\<lparr>pending_apply := target\<rparr>)
        }
      })"

text \<open>The \<open>select\<close> at the end of \<open>apply_function\<close>: the message is sent once the channel has room
  (\<open>None\<close> while it has not), or dropped once the daemon is stopped.\<close>

definition rebind_send :: "int \<Rightarrow> daemon \<Rightarrow> daemon option" where
  "rebind_send deadline this =
     (case rebind_chan this of
        None \<Rightarrow> Some (this\<lparr>rebind_chan := Some deadline\<rparr>)
      | Some _ \<Rightarrow> None)"

definition rebind_drop :: "daemon \<Rightarrow> daemon option" where
  "rebind_drop this = (if stopped this then Some this else None)"

text \<open>The end of a change of mode.\<close>

definition mode_applied :: "apply_target \<Rightarrow> daemon \<Rightarrow> daemon" where
  "mode_applied target this =
     (let this = (commit_mode target this)\<lparr>apply_done := True\<rparr>;
          this = (if led_init_done this then display_mode_state this else this)
      in this\<lparr>mode_changing := False\<rparr>)"

definition finish_apply :: "daemon \<Rightarrow> daemon io" where
  "finish_apply this = do {
     let target = pending_apply this;
     (enabled, this) \<leftarrow> enable_targets this;
     if \<not> enabled then handle_apply_failure target False this
     else return (mode_applied target this)
   }"

section \<open>The goroutines of an apply, piece by piece\<close>

definition work_piece :: "apply_target \<Rightarrow> bool \<Rightarrow> daemon \<Rightarrow> (apply_task list \<times> daemon) io" where
  "work_piece target submode_only this =
     (if submode_only then do {
        (done, this) \<leftarrow> reconfigure (tgt_mode target) this;
        return ([if done then TaskSubmodeDone target else TaskFailed target True], this)
      }
      else do {
        (built, this) \<leftarrow> rebuild this;
        if \<not> built then return ([TaskFailed target False], this)
        else do {
          t \<leftarrow> now;
          return ([TaskSend (t + rebind_delay this)], this\<lparr>pending_apply := target\<rparr>)
        }
      })"

definition finish_piece :: "daemon \<Rightarrow> (apply_task list \<times> daemon) io" where
  "finish_piece this = do {
     let target = pending_apply this;
     (enabled, this) \<leftarrow> enable_targets this;
     return ([if enabled then TaskEnabled target else TaskFailed target False], this)
   }"

text \<open>\<open>handle_apply_failure\<close> and the rollback it calls, up to the operation on the gadget.\<close>

definition failed_piece :: "apply_target \<Rightarrow> bool \<Rightarrow> daemon \<Rightarrow> apply_task list \<times> daemon" where
  "failed_piece failed submode_only this =
     (let this = turn_off_all_leds (this\<lparr>apply_done := True\<rparr>);
          i = last_good_mode this in
      if \<not> should_rollback (length (modes this)) failed \<lparr>tgt_mode = i, tgt_submode = last_good_submode this\<rparr> \<or>
         length (modes this) \<le> i
      then ([TaskConclude False], this)
      else
        (let this = set_current_mode i (set_mode_submode i (last_good_submode this) this) in
         if submode_only then ([TaskRollbackSubmode i], this) else ([TaskRollback], add_only i this)))"

definition rollback_piece :: "daemon \<Rightarrow> (apply_task list \<times> daemon) io" where
  "rollback_piece this = do {
     (built, this) \<leftarrow> rebuild this;
     return ([if built then TaskRollbackBind else TaskConclude False], this)
   }"

definition rollback_bind_piece :: "daemon \<Rightarrow> (apply_task list \<times> daemon) io" where
  "rollback_bind_piece this = do {
     (enabled, this) \<leftarrow> rollback_bind this;
     return ([TaskConclude enabled], this)
   }"

definition rollback_submode_piece :: "nat \<Rightarrow> daemon \<Rightarrow> (apply_task list \<times> daemon) io" where
  "rollback_submode_piece i this = do {
     (done, this) \<leftarrow> reconfigure i this;
     return ([TaskConclude done], this)
   }"

section \<open>Events\<close>

text \<open>One drained event. An event with an error status is only logged.\<close>

definition handle_event :: "input_event \<Rightarrow> daemon \<Rightarrow> daemon" where
  "handle_event event this =
     (if ev_Status event \<noteq> DEVICE_STATUS_NORMAL then this
      else (case ev_Type event of
        INPUT_TAP \<Rightarrow>
          if submode_selection this then
            (let i = current_mode this; mode = modes this ! i in
             (set_mode_submode i (go_mod (GetSubmode mode + 1) (MaxSubmode mode + 1)) this)
               \<lparr>mode_changed := True, submode_changed := True\<rparr>)
          else
            (set_current_mode ((current_mode this + 1) mod length (modes this)) this)
              \<lparr>mode_changed := True, submode_changed := False\<rparr>
      | INPUT_LONG_TAP \<Rightarrow>
          led_current (submode_entry_mode this)
            (this\<lparr>submode_selection := \<not> submode_selection this, submode_entry_done := False\<rparr>)
      | INPUT_MULTIPLE_TAP \<Rightarrow> this\<lparr>reapply := True, mode_changed := True, submode_changed := False\<rparr>
      | INPUT_ERROR \<Rightarrow> this))"

text \<open>The LED after the dark period of entering or leaving the selection.\<close>

definition show_submode_after_entry :: "daemon \<Rightarrow> daemon" where
  "show_submode_after_entry this =
     (if submode_entry_done this then this
      else (case current_interpreter this of
              Some i \<Rightarrow>
                if 1 \<le> loop_count i
                then led_current (submode_led_mode this) (this\<lparr>submode_entry_done := True\<rparr>) else this
            | None \<Rightarrow> this))"

definition start_change :: "daemon \<Rightarrow> apply_task list \<times> daemon" where
  "start_change this =
     (if mode_changed this \<and> \<not> mode_changing this
      then ([TaskApply],
            turn_off_all_leds (this\<lparr>mode_changed := False, mode_changing := True,
              effect_kind := (if submode_changed this then ''submode'' else ''mode'')\<rparr>))
      else ([], this))"

definition wait_led_settled :: "nat \<Rightarrow> int \<Rightarrow> daemon \<Rightarrow> unit io" where
  "wait_led_settled i timeout this = do {
     t \<leftarrow> now;
     _ \<leftarrow> poll_io (t + timeout) 5000000
            (return (case interpreters this ! i of
                       Some itp \<Rightarrow> if 0 \<le> loop_count itp then Some () else None
                     | None \<Rightarrow> Some ()));
     return ()
   }"

definition led_at :: "nat \<Rightarrow> led_mode \<Rightarrow> daemon \<Rightarrow> daemon" where
  "led_at i m this =
     this\<lparr>interpreters := (interpreters this)[i := map_option (SetMode m) (interpreters this ! i)]\<rparr>"

fun shutdown_leds :: "nat list \<Rightarrow> nat option \<Rightarrow> daemon \<Rightarrow> (nat option \<times> daemon) io" where
  "shutdown_leds [] last_led this = return (last_led, this)"
| "shutdown_leds (i # is) last_led this =
     (if interpreters this ! i = None then shutdown_leds is last_led this
      else do {
        let this = led_at i MODE_PRESET_ON this;
        _ \<leftarrow> wait_led_settled i 50000000 this;
        _ \<leftarrow> sys (Sleep 500000000);
        shutdown_leds is (Some i) (led_at i MODE_PRESET_OFF this)
      })"

definition shell_from_env :: "string list \<Rightarrow> string" where
  "shell_from_env vars =
     (case filter (\<lambda>kv. HasPrefix kv ''SHELL='') vars of [] \<Rightarrow> [] | kv # _ \<Rightarrow> TrimPrefix kv ''SHELL='')"

text \<open>
  The command runs in a goroutine while the last LED is lit again, and the daemon waits for it up to
  \<open>shutdown_timeout\<close>; neither the order of the two nor the outcome of the wait changes the state, so
  the command comes first here and the wait is left out.
\<close>

definition do_shutdown :: "daemon \<Rightarrow> daemon io" where
  "do_shutdown this = do {
     environ \<leftarrow> (if TrimSpace (shutdown_shell this) = [] then sys Environ else return (Done []));
     let shell = TrimSpace (shutdown_shell this);
     let shell = (if shell = [] then shell_from_env (items environ) else shell);
     let shell = (if shell = [] then ''/bin/bash'' else shell);
     let this = turn_off_all_leds this;
     (last_led, this) \<leftarrow> shutdown_leds (rev [0..<length (interpreters this)]) None this;
     _ \<leftarrow> sys (Exec [shell, ''-c'', shutdown_command this]);
     (case last_led of
        None \<Rightarrow> return this
      | Some i \<Rightarrow> do {
          let this = led_at i MODE_PRESET_ON this;
          _ \<leftarrow> wait_led_settled i 50000000 this;
          return this
        })
   }"

text \<open>Is the button held for longer than the shutdown threshold?\<close>

definition shutdown_due :: "int \<Rightarrow> daemon \<Rightarrow> bool" where
  "shutdown_due t this \<longleftrightarrow>
     0 < shutdown_threshold this \<and>
     (case InputState t (input_device this) of
        Some st \<Rightarrow> shutdown_threshold this \<le> ev_Duration st
      | None \<Rightarrow> False)"

definition handle_events :: "daemon \<Rightarrow> (apply_task list \<times> daemon) io" where
  "handle_events this = do {
     let this = update_status this;
     t \<leftarrow> now;
     let (finish, this) = (if pending_enable this \<and> enable_deadline this \<le> t
                           then ([TaskFinish], this\<lparr>pending_enable := False\<rparr>) else ([], this));
     if shutting_down this then return (finish, this)
     else if shutdown_due t this then do {
       this \<leftarrow> do_shutdown (update_status (this\<lparr>shutting_down := True\<rparr>));
       return (finish, this)
     }
     else do {
       let (events, dev) = DrainEvents t (input_device this);
       let this = fold handle_event events (this\<lparr>input_device := dev\<rparr>);
       let (start, this) = start_change (show_submode_after_entry (handle_gadget_requests this));
       return (finish @ start, this)
     }
   }"

section \<open>The main loop\<close>

text \<open>The deadline \<open>arm_lazy_wait\<close> arms its timer for, at time \<open>t\<close>.\<close>

definition lazy_deadline :: "int \<Rightarrow> daemon \<Rightarrow> int option" where
  "lazy_deadline t this =
     (let enable = (if pending_enable this \<and> enable_deadline this \<noteq> 0 then Some (enable_deadline this) else None) in
      if 0 < shutdown_threshold this \<and> \<not> shutting_down this then
        (case InputState t (input_device this) of
           None \<Rightarrow> enable
         | Some st \<Rightarrow>
             (let d = ev_Time st + (shutdown_threshold this - ev_Duration st) in
              case enable of None \<Rightarrow> Some d | Some e \<Rightarrow> Some (if d < e then d else e)))
      else enable)"

datatype wakeup = WakeStop | WakeInput | WakeChan | WakeRebind | WakeTimer

text \<open>What the \<open>select\<close> of the loop takes; \<open>None\<close> when that case is not ready at time \<open>t\<close>.\<close>

definition take_wakeup :: "int \<Rightarrow> wakeup \<Rightarrow> daemon \<Rightarrow> daemon option" where
  "take_wakeup t s this =
     (case s of
        WakeStop \<Rightarrow> if stopped this then Some this else None
      | WakeInput \<Rightarrow>
          if wake (input_device this) = Some True
          then Some (with_input (\<lambda>d. d\<lparr>wake := Some False\<rparr>) this) else None
      | WakeChan \<Rightarrow> if wake_chan this then Some (this\<lparr>wake_chan := False\<rparr>) else None
      | WakeRebind \<Rightarrow>
          (case rebind_chan this of
             None \<Rightarrow> None
           | Some deadline \<Rightarrow>
               Some (this\<lparr>rebind_chan := None, enable_deadline := deadline, pending_enable := True\<rparr>))
      | WakeTimer \<Rightarrow>
          (case lazy_deadline t this of Some d \<Rightarrow> if d \<le> t then Some this else None | None \<Rightarrow> None))"

text \<open>
  \<open>led_init_indication\<close>: everything off, then each LED in turn on, 500 ms, off; the pieces
  before and after the sleep are \<open>led_init_on\<close> and \<open>led_init_off\<close>.
\<close>

definition led_init_start :: "daemon \<Rightarrow> apply_task list \<times> daemon" where
  "led_init_start this = ([TaskLedOn 0], turn_off_all_leds this)"

definition led_init_end :: "daemon \<Rightarrow> daemon" where
  "led_init_end this =
     (let this = this\<lparr>led_init_done := True\<rparr> in if apply_done this then display_mode_state this else this)"

definition led_init_on :: "nat \<Rightarrow> daemon \<Rightarrow> apply_task list \<times> daemon" where
  "led_init_on i this =
     (if length (interpreters this) \<le> i \<or> apply_error this then ([], led_init_end this)
      else if interpreters this ! i = None then ([TaskLedOn (Suc i)], this)
      else ([TaskLedOff i], led_at i MODE_PRESET_ON this))"

definition led_init_off :: "nat \<Rightarrow> daemon \<Rightarrow> apply_task list \<times> daemon" where
  "led_init_off i this = ([TaskLedOn (Suc i)], led_at i MODE_PRESET_OFF this)"

definition start_led_interpreters :: "daemon \<Rightarrow> daemon" where
  "start_led_interpreters this = this\<lparr>interpreters := map (map_option Start) (interpreters this)\<rparr>"

definition stop_led_interpreters :: "daemon \<Rightarrow> daemon" where
  "stop_led_interpreters this = this\<lparr>interpreters := map (map_option Stop) (interpreters this)\<rparr>"

end
