(* ===== verification/Daemon_Steps.thy ===== *)
theory Daemon_Steps
  imports Daemon
begin

text \<open>
  The daemon as a transition system: the main loop, the goroutines it starts, the requests of the
  control bus, the button and the LED loops, interleaved. A state is the daemon and the goroutines
  that still run. Each step that talks to the machine does so in an arbitrary world, so nothing is
  assumed about the answers or the time they take. A goroutine runs piece by piece with anything between two
  pieces; the last section shows that the pieces, with nothing between them, are the methods of the source.
\<close>

section \<open>Steps\<close>

type_synonym daemon_state = "daemon \<times> apply_task list"

text \<open>One piece of a goroutine: what is left of it, and the daemon.\<close>

definition piece :: "apply_task \<Rightarrow> daemon \<Rightarrow> (apply_task list \<times> daemon) io" where
  "piece task this =
     (case task of
        TaskApply \<Rightarrow> (case apply_begin this of (next, this) \<Rightarrow> return ([next], this))
      | TaskWork target submode_only \<Rightarrow> work_piece target submode_only this
      | TaskSubmodeDone target \<Rightarrow> return ([], submode_applied target this)
      | TaskSend deadline \<Rightarrow>
          return (case rebind_send deadline this of None \<Rightarrow> ([task], this) | Some this \<Rightarrow> ([], this))
      | TaskFinish \<Rightarrow> finish_piece this
      | TaskEnabled target \<Rightarrow> return ([], mode_applied target this)
      | TaskFailed target submode_only \<Rightarrow> return (failed_piece target submode_only this)
      | TaskRollback \<Rightarrow> rollback_piece this
      | TaskRollbackBind \<Rightarrow> rollback_bind_piece this
      | TaskRollbackSubmode i \<Rightarrow> rollback_submode_piece i this
      | TaskConclude rolled_back \<Rightarrow> return ([], conclude_failure rolled_back this)
      | TaskLedInit \<Rightarrow> return (led_init_start this)
      | TaskLedOn i \<Rightarrow> return (led_init_on i this)
      | TaskLedOff i \<Rightarrow> return (led_init_off i this))"

text \<open>A piece in world \<open>w\<close>; \<open>None\<close> while it waits for room in the channel.\<close>

definition run_task :: "world \<Rightarrow> apply_task \<Rightarrow> daemon \<Rightarrow> (apply_task list \<times> daemon) option" where
  "run_task w task this =
     (case task of
        TaskSend deadline \<Rightarrow> map_option (Pair []) (rebind_send deadline this)
      | _ \<Rightarrow> Some (fst (run_state (piece task this) w)))"

text \<open>At most \<open>n\<close> pieces of a goroutine in a row, with nothing between them, up to its message to the main loop.\<close>

fun alone :: "nat \<Rightarrow> apply_task \<Rightarrow> daemon \<Rightarrow> (apply_task list \<times> daemon) io" where
  "alone n (TaskSend deadline) this = return ([TaskSend deadline], this)"
| "alone 0 task this = return ([task], this)"
| "alone (Suc n) task this = do {
     (next, this) \<leftarrow> piece task this;
     (case next of [] \<Rightarrow> return ([], this) | t # _ \<Rightarrow> alone n t this)
   }"

text \<open>One round of the main loop, woken by \<open>s\<close>. \<open>None\<close> when \<open>s\<close> is not ready.\<close>

definition main_round :: "world \<Rightarrow> wakeup \<Rightarrow> daemon \<Rightarrow> (apply_task list \<times> daemon) option" where
  "main_round w s this =
     map_option (\<lambda>this. fst (run_state (handle_events this) w)) (take_wakeup (clock w) s this)"

inductive daemon_step :: "daemon_state \<Rightarrow> daemon_state \<Rightarrow> bool" where
  round: "s \<noteq> WakeStop \<Longrightarrow> \<not> shutting_down d \<Longrightarrow> main_round w s d = Some (new, d') \<Longrightarrow>
    daemon_step (d, ts) (d', ts @ new)"
| task: "run_task w t d = Some (new, d') \<Longrightarrow> daemon_step (d, xs @ t # ys) (d', xs @ new @ ys)"
| drop: "rebind_drop d = Some d' \<Longrightarrow> daemon_step (d, xs @ TaskSend t # ys) (d', xs @ ys)"
| gadget: "RequestGadget spec d = Some d' \<Longrightarrow> daemon_step (d, ts) (d', ts)"
| button: "SimulateButton t target count d = (err, d') \<Longrightarrow> daemon_step (d, ts) (d', ts)"
| leds: "daemon_step (d, ts) (SetTurnOffLeds off d, ts)"
| stop: "daemon_step (d, ts) (daemon_Stop d, ts)"
| key: "daemon_step (d, ts) (with_input (handle_key t e) d, ts)"
| long_tap: "daemon_step (d, ts) (with_input (long_tap_fire t) d, ts)"
| multi_tap: "daemon_step (d, ts) (with_input multi_tap_fire d, ts)"
| led: "i < length (interpreters d) \<Longrightarrow> interpreters d ! i = Some itp \<Longrightarrow>
    daemon_step (d, ts) (d\<lparr>interpreters := (interpreters d)[i := Some (snd (fst (run_state (loop_step ctx itp) w)))]\<rparr>, ts)"

text \<open>The goroutines the main loop starts before its first round.\<close>

definition start_tasks :: "apply_task list" where
  "start_tasks = [TaskApply, TaskLedInit]"

section \<open>What the pieces leave alone\<close>

lemmas led_ops_defs = led_at_def turn_off_all_leds_def led_current_def display_mode_state_def apply_led_state_def

lemma turn_off_all_leds_frame [simp]:
  "input_device (turn_off_all_leds d) = input_device d"
  "controller (turn_off_all_leds d) = controller d" "modes (turn_off_all_leds d) = modes d"
  "current_mode (turn_off_all_leds d) = current_mode d"
  "current_mode_rndis (turn_off_all_leds d) = current_mode_rndis d"
  "mode_changed (turn_off_all_leds d) = mode_changed d"
  "mode_changing (turn_off_all_leds d) = mode_changing d"
  "submode_changed (turn_off_all_leds d) = submode_changed d"
  "reapply (turn_off_all_leds d) = reapply d" "first_apply (turn_off_all_leds d) = first_apply d"
  "apply_done (turn_off_all_leds d) = apply_done d"
  "led_init_done (turn_off_all_leds d) = led_init_done d"
  "turn_off_leds (turn_off_all_leds d) = turn_off_leds d"
  "submode_selection (turn_off_all_leds d) = submode_selection d"
  "submode_entry_done (turn_off_all_leds d) = submode_entry_done d"
  "submode_entry_mode (turn_off_all_leds d) = submode_entry_mode d"
  "LED_MODE_BLINK (turn_off_all_leds d) = LED_MODE_BLINK d"
  "shutdown_threshold (turn_off_all_leds d) = shutdown_threshold d"
  "shutdown_command (turn_off_all_leds d) = shutdown_command d"
  "shutdown_shell (turn_off_all_leds d) = shutdown_shell d"
  "shutting_down (turn_off_all_leds d) = shutting_down d" "stopped (turn_off_all_leds d) = stopped d"
  "gadget_reqs (turn_off_all_leds d) = gadget_reqs d"
  "gadget_resps (turn_off_all_leds d) = gadget_resps d"
  "rebind_chan (turn_off_all_leds d) = rebind_chan d"
  "rebind_delay (turn_off_all_leds d) = rebind_delay d"
  "pending_enable (turn_off_all_leds d) = pending_enable d"
  "enable_deadline (turn_off_all_leds d) = enable_deadline d"
  "pending_apply (turn_off_all_leds d) = pending_apply d"
  "last_good_mode (turn_off_all_leds d) = last_good_mode d"
  "last_good_submode (turn_off_all_leds d) = last_good_submode d"
  "apply_error (turn_off_all_leds d) = apply_error d" "status (turn_off_all_leds d) = status d"
  "effect_kind (turn_off_all_leds d) = effect_kind d" "wake_chan (turn_off_all_leds d) = wake_chan d"
  by (simp_all add: led_ops_defs split: option.split)

lemma led_current_frame [simp]:
  "input_device (led_current m d) = input_device d" "controller (led_current m d) = controller d"
  "modes (led_current m d) = modes d" "current_mode (led_current m d) = current_mode d"
  "current_mode_rndis (led_current m d) = current_mode_rndis d"
  "mode_changed (led_current m d) = mode_changed d" "mode_changing (led_current m d) = mode_changing d"
  "submode_changed (led_current m d) = submode_changed d" "reapply (led_current m d) = reapply d"
  "first_apply (led_current m d) = first_apply d" "apply_done (led_current m d) = apply_done d"
  "led_init_done (led_current m d) = led_init_done d"
  "turn_off_leds (led_current m d) = turn_off_leds d"
  "submode_selection (led_current m d) = submode_selection d"
  "submode_entry_done (led_current m d) = submode_entry_done d"
  "submode_entry_mode (led_current m d) = submode_entry_mode d"
  "LED_MODE_BLINK (led_current m d) = LED_MODE_BLINK d"
  "shutdown_threshold (led_current m d) = shutdown_threshold d"
  "shutdown_command (led_current m d) = shutdown_command d"
  "shutdown_shell (led_current m d) = shutdown_shell d"
  "shutting_down (led_current m d) = shutting_down d" "stopped (led_current m d) = stopped d"
  "gadget_reqs (led_current m d) = gadget_reqs d" "gadget_resps (led_current m d) = gadget_resps d"
  "rebind_chan (led_current m d) = rebind_chan d" "rebind_delay (led_current m d) = rebind_delay d"
  "pending_enable (led_current m d) = pending_enable d"
  "enable_deadline (led_current m d) = enable_deadline d"
  "pending_apply (led_current m d) = pending_apply d"
  "last_good_mode (led_current m d) = last_good_mode d"
  "last_good_submode (led_current m d) = last_good_submode d"
  "apply_error (led_current m d) = apply_error d" "status (led_current m d) = status d"
  "effect_kind (led_current m d) = effect_kind d" "wake_chan (led_current m d) = wake_chan d"
  by (simp_all add: led_ops_defs split: option.split)

lemma led_at_frame [simp]:
  "input_device (led_at i m d) = input_device d" "controller (led_at i m d) = controller d"
  "modes (led_at i m d) = modes d" "current_mode (led_at i m d) = current_mode d"
  "current_mode_rndis (led_at i m d) = current_mode_rndis d"
  "mode_changed (led_at i m d) = mode_changed d" "mode_changing (led_at i m d) = mode_changing d"
  "submode_changed (led_at i m d) = submode_changed d" "reapply (led_at i m d) = reapply d"
  "first_apply (led_at i m d) = first_apply d" "apply_done (led_at i m d) = apply_done d"
  "led_init_done (led_at i m d) = led_init_done d" "turn_off_leds (led_at i m d) = turn_off_leds d"
  "submode_selection (led_at i m d) = submode_selection d"
  "submode_entry_done (led_at i m d) = submode_entry_done d"
  "submode_entry_mode (led_at i m d) = submode_entry_mode d"
  "LED_MODE_BLINK (led_at i m d) = LED_MODE_BLINK d"
  "shutdown_threshold (led_at i m d) = shutdown_threshold d"
  "shutdown_command (led_at i m d) = shutdown_command d"
  "shutdown_shell (led_at i m d) = shutdown_shell d" "shutting_down (led_at i m d) = shutting_down d"
  "stopped (led_at i m d) = stopped d" "gadget_reqs (led_at i m d) = gadget_reqs d"
  "gadget_resps (led_at i m d) = gadget_resps d" "rebind_chan (led_at i m d) = rebind_chan d"
  "rebind_delay (led_at i m d) = rebind_delay d" "pending_enable (led_at i m d) = pending_enable d"
  "enable_deadline (led_at i m d) = enable_deadline d" "pending_apply (led_at i m d) = pending_apply d"
  "last_good_mode (led_at i m d) = last_good_mode d"
  "last_good_submode (led_at i m d) = last_good_submode d" "apply_error (led_at i m d) = apply_error d"
  "status (led_at i m d) = status d" "effect_kind (led_at i m d) = effect_kind d"
  "wake_chan (led_at i m d) = wake_chan d"
  by (simp_all add: led_ops_defs split: option.split)

lemma display_mode_state_frame [simp]:
  "input_device (display_mode_state d) = input_device d"
  "controller (display_mode_state d) = controller d" "modes (display_mode_state d) = modes d"
  "current_mode (display_mode_state d) = current_mode d"
  "current_mode_rndis (display_mode_state d) = current_mode_rndis d"
  "mode_changed (display_mode_state d) = mode_changed d"
  "mode_changing (display_mode_state d) = mode_changing d"
  "submode_changed (display_mode_state d) = submode_changed d"
  "reapply (display_mode_state d) = reapply d" "first_apply (display_mode_state d) = first_apply d"
  "apply_done (display_mode_state d) = apply_done d"
  "led_init_done (display_mode_state d) = led_init_done d"
  "turn_off_leds (display_mode_state d) = turn_off_leds d"
  "submode_selection (display_mode_state d) = submode_selection d"
  "submode_entry_done (display_mode_state d) = submode_entry_done d"
  "submode_entry_mode (display_mode_state d) = submode_entry_mode d"
  "LED_MODE_BLINK (display_mode_state d) = LED_MODE_BLINK d"
  "shutdown_threshold (display_mode_state d) = shutdown_threshold d"
  "shutdown_command (display_mode_state d) = shutdown_command d"
  "shutdown_shell (display_mode_state d) = shutdown_shell d"
  "shutting_down (display_mode_state d) = shutting_down d" "stopped (display_mode_state d) = stopped d"
  "gadget_reqs (display_mode_state d) = gadget_reqs d"
  "gadget_resps (display_mode_state d) = gadget_resps d"
  "rebind_chan (display_mode_state d) = rebind_chan d"
  "rebind_delay (display_mode_state d) = rebind_delay d"
  "pending_enable (display_mode_state d) = pending_enable d"
  "enable_deadline (display_mode_state d) = enable_deadline d"
  "pending_apply (display_mode_state d) = pending_apply d"
  "last_good_mode (display_mode_state d) = last_good_mode d"
  "last_good_submode (display_mode_state d) = last_good_submode d"
  "apply_error (display_mode_state d) = apply_error d" "status (display_mode_state d) = status d"
  "effect_kind (display_mode_state d) = effect_kind d" "wake_chan (display_mode_state d) = wake_chan d"
  by (simp_all add: led_ops_defs split: option.split)

lemma apply_led_state_frame [simp]:
  "input_device (apply_led_state d) = input_device d" "controller (apply_led_state d) = controller d"
  "modes (apply_led_state d) = modes d" "current_mode (apply_led_state d) = current_mode d"
  "current_mode_rndis (apply_led_state d) = current_mode_rndis d"
  "mode_changed (apply_led_state d) = mode_changed d"
  "mode_changing (apply_led_state d) = mode_changing d"
  "submode_changed (apply_led_state d) = submode_changed d" "reapply (apply_led_state d) = reapply d"
  "first_apply (apply_led_state d) = first_apply d" "apply_done (apply_led_state d) = apply_done d"
  "led_init_done (apply_led_state d) = led_init_done d"
  "turn_off_leds (apply_led_state d) = turn_off_leds d"
  "submode_selection (apply_led_state d) = submode_selection d"
  "submode_entry_done (apply_led_state d) = submode_entry_done d"
  "submode_entry_mode (apply_led_state d) = submode_entry_mode d"
  "LED_MODE_BLINK (apply_led_state d) = LED_MODE_BLINK d"
  "shutdown_threshold (apply_led_state d) = shutdown_threshold d"
  "shutdown_command (apply_led_state d) = shutdown_command d"
  "shutdown_shell (apply_led_state d) = shutdown_shell d"
  "shutting_down (apply_led_state d) = shutting_down d" "stopped (apply_led_state d) = stopped d"
  "gadget_reqs (apply_led_state d) = gadget_reqs d" "gadget_resps (apply_led_state d) = gadget_resps d"
  "rebind_chan (apply_led_state d) = rebind_chan d" "rebind_delay (apply_led_state d) = rebind_delay d"
  "pending_enable (apply_led_state d) = pending_enable d"
  "enable_deadline (apply_led_state d) = enable_deadline d"
  "pending_apply (apply_led_state d) = pending_apply d"
  "last_good_mode (apply_led_state d) = last_good_mode d"
  "last_good_submode (apply_led_state d) = last_good_submode d"
  "apply_error (apply_led_state d) = apply_error d" "status (apply_led_state d) = status d"
  "effect_kind (apply_led_state d) = effect_kind d" "wake_chan (apply_led_state d) = wake_chan d"
  by (simp_all add: led_ops_defs split: option.split)

text \<open>Everything an apply or a rollback leaves alone.\<close>

definition apply_frame :: "daemon \<Rightarrow> daemon \<Rightarrow> bool" where
  "apply_frame d d' \<longleftrightarrow>
     input_device d' = input_device d \<and> mode_changed d' = mode_changed d \<and>
     submode_changed d' = submode_changed d \<and> reapply d' = reapply d \<and>
     first_apply d' = first_apply d \<and> led_init_done d' = led_init_done d \<and>
     turn_off_leds d' = turn_off_leds d \<and> submode_selection d' = submode_selection d \<and>
     submode_entry_done d' = submode_entry_done d \<and>
     submode_entry_mode d' = submode_entry_mode d \<and> LED_MODE_BLINK d' = LED_MODE_BLINK d \<and>
     shutdown_threshold d' = shutdown_threshold d \<and> shutdown_command d' = shutdown_command d \<and>
     shutdown_shell d' = shutdown_shell d \<and> shutting_down d' = shutting_down d \<and>
     stopped d' = stopped d \<and> gadget_reqs d' = gadget_reqs d \<and>
     gadget_resps d' = gadget_resps d \<and> rebind_chan d' = rebind_chan d \<and>
     rebind_delay d' = rebind_delay d \<and> pending_enable d' = pending_enable d \<and>
     enable_deadline d' = enable_deadline d \<and> pending_apply d' = pending_apply d \<and>
     last_good_mode d' = last_good_mode d \<and> last_good_submode d' = last_good_submode d \<and>
     status d' = status d \<and> effect_kind d' = effect_kind d \<and> wake_chan d' = wake_chan d"

section \<open>A goroutine that is not interrupted\<close>

text \<open>A goroutine of which the result is the daemon.\<close>

definition ends :: "daemon \<times> world \<Rightarrow> (apply_task list \<times> daemon) \<times> world" where
  "ends r = (case r of (d, w) \<Rightarrow> (([], d), w))"

lemma alone_next:
  assumes "\<And>u. t \<noteq> TaskSend u"
  shows "run_state (alone (Suc n) t d) w =
    (case run_state (piece t d) w of
       (([], d), w) \<Rightarrow> (([], d), w) | ((u # us, d), w) \<Rightarrow> run_state (alone n u d) w)"
proof (cases t)
  case (TaskSend u)
  with assms show ?thesis by blast
qed (simp_all split: prod.split list.split)

lemma alone_send: "run_state (alone n (TaskSend u) d) w = (([TaskSend u], d), w)"
  by simp

declare alone.simps [simp del]

lemma alone_conclude: "run_state (alone (Suc n) (TaskConclude b) d) w = (([], conclude_failure b d), w)"
  by (simp add: alone_next piece_def)

lemma alone_rollback:
  "run_state (alone (Suc (Suc (Suc n))) TaskRollback d) w =
    (case run_state (rebuild d) w of
       ((b, d), w) \<Rightarrow> if \<not> b then (([], conclude_failure False d), w)
       else (case run_state (rollback_bind d) w of ((b, d), w) \<Rightarrow> (([], conclude_failure b d), w)))"
  by (simp add: alone_next [of TaskRollback] alone_next [of TaskRollbackBind] piece_def rollback_piece_def
      rollback_bind_piece_def alone_conclude split: prod.split)

lemma select_last_good_mode:
  "last_good_mode (set_current_mode i d) = last_good_mode d" "last_good_mode (set_mode_submode i m d) = last_good_mode d"
  by (simp_all add: set_current_mode_def set_mode_submode_def)

lemma rollback_mode_run:
  "run_state (rollback_mode d) w =
    (if length (modes d) \<le> last_good_mode d then ((False, d), w)
     else (case run_state (rebuild (add_only (last_good_mode d)
                  (set_current_mode (last_good_mode d) (set_mode_submode (last_good_mode d) (last_good_submode d) d)))) w of
             ((b, d), w) \<Rightarrow> if \<not> b then ((False, d), w) else run_state (rollback_bind d) w))"
  by (simp add: rollback_mode_def Let_def set_current_mode_def set_mode_submode_def split: prod.split)

lemma alone_rollback_submode:
  "run_state (alone (Suc (Suc n)) (TaskRollbackSubmode i) d) w =
    (case run_state (reconfigure i d) w of ((b, d), w) \<Rightarrow> (([], conclude_failure b d), w))"
  by (simp add: alone_next [of "TaskRollbackSubmode i"] piece_def rollback_submode_piece_def alone_conclude split: prod.split)

lemma alone_failed:
  "run_state (alone (Suc (Suc (Suc (Suc n)))) (TaskFailed failed so) d) w = ends (run_state (handle_apply_failure failed so d) w)"
proof -
  define d1 where "d1 = turn_off_all_leds (d\<lparr>apply_done := True\<rparr>)"
  define roll where "roll \<longleftrightarrow> should_rollback (length (modes d1)) failed
    \<lparr>tgt_mode = last_good_mode d1, tgt_submode = last_good_submode d1\<rparr>"
  have seq: "run_state (handle_apply_failure failed so d) w =
      (case run_state (if roll then (if so then rollback_submode d1 else rollback_mode d1) else return (False, d1)) w of
         ((b, d), w) \<Rightarrow> (conclude_failure b d, w))"
    unfolding handle_apply_failure_def Let_def d1_def [symmetric] roll_def [symmetric] by (simp split: prod.split)
  have begin_piece: "failed_piece failed so d = (if \<not> roll \<or> length (modes d1) \<le> last_good_mode d1 then ([TaskConclude False], d1)
      else let d2 = set_current_mode (last_good_mode d1) (set_mode_submode (last_good_mode d1) (last_good_submode d1) d1) in
        if so then ([TaskRollbackSubmode (last_good_mode d1)], d2) else ([TaskRollback], add_only (last_good_mode d1) d2))"
    unfolding failed_piece_def Let_def d1_def [symmetric] roll_def [symmetric] by simp
  have "run_state (alone (Suc (Suc (Suc (Suc n)))) (TaskFailed failed so) d) w =
      (case failed_piece failed so d of (u # us, d') \<Rightarrow> run_state (alone (Suc (Suc (Suc n))) u d') w | ([], d') \<Rightarrow> (([], d'), w))"
    by (simp add: alone_next [of "TaskFailed failed so"] piece_def split: prod.split list.split)
  then show ?thesis
    unfolding seq begin_piece
    by (cases "roll \<and> \<not> length (modes d1) \<le> last_good_mode d1"; cases so)
      (auto simp: Let_def ends_def alone_conclude alone_rollback alone_rollback_submode
        rollback_mode_run rollback_submode_def select_last_good_mode split: prod.split)
qed


end
