(* ===== verification/Daemon_Inv.thy ===== *)
theory Daemon_Inv
  imports Daemon_Steps
begin

text \<open>
  Invariants of the daemon: the mode and submode it names always exist, the configured sequence of
  functions never changes, and the goroutines of one apply are accounted for by \<open>mode_changing\<close>.
\<close>

section \<open>Well-formed daemons\<close>

text \<open>What never changes of the modes: their kinds and their numbers of submodes.\<close>

definition shape :: "gadget_function list \<Rightarrow> ((string \<times> bool) \<times> int) list" where
  "shape ms = map (\<lambda>f. (fn_ident f, MaxSubmode f)) ms"

definition target_ok :: "gadget_function list \<Rightarrow> apply_target \<Rightarrow> bool" where
  "target_ok ms t \<longleftrightarrow>
     tgt_mode t < length ms \<and> 0 \<le> tgt_submode t \<and> tgt_submode t \<le> MaxSubmode (ms ! tgt_mode t)"

definition last_good :: "daemon \<Rightarrow> apply_target" where
  "last_good d = \<lparr>tgt_mode = last_good_mode d, tgt_submode = last_good_submode d\<rparr>"

definition modes_ok :: "daemon \<Rightarrow> bool" where
  "modes_ok d \<longleftrightarrow> current_mode d < length (modes d) \<and> list_all fn.submode_ok (modes d) \<and>
     (current_mode_rndis d \<longleftrightarrow> is_rndis (modes d ! current_mode d))"

definition wf_daemon :: "daemon \<Rightarrow> bool" where
  "wf_daemon d \<longleftrightarrow> modes_ok d \<and> target_ok (modes d) (last_good d) \<and> target_ok (modes d) (pending_apply d)"

lemma shape_length: "shape a = shape b \<Longrightarrow> length a = length b"
  by (metis length_map shape_def)

lemma shape_nth:
  assumes "shape a = shape b" "i < length b"
  shows "fn_ident (a ! i) = fn_ident (b ! i)" "MaxSubmode (a ! i) = MaxSubmode (b ! i)"
proof -
  have "shape a ! i = shape b ! i" "i < length a" using assms shape_length [OF assms(1)] by simp_all
  with assms(2) show "fn_ident (a ! i) = fn_ident (b ! i)" "MaxSubmode (a ! i) = MaxSubmode (b ! i)"
    unfolding shape_def by simp_all
qed

lemma shape_is_rndis: "shape a = shape b \<Longrightarrow> i < length b \<Longrightarrow> is_rndis (a ! i) = is_rndis (b ! i)"
  using shape_nth(1) [of a b i] by (simp add: fn_ident_def)

lemma target_ok_shape: "shape a = shape b \<Longrightarrow> target_ok a t = target_ok b t"
  using shape_length [of a b] shape_nth(2) [of a b "tgt_mode t"] by (auto simp: target_ok_def)

lemma shape_update [simp]: "shape (ms[i := fn_SetSubmode m (ms ! i)]) = shape ms"
  by (cases "i < length ms") (simp_all add: shape_def map_update fn.others_put list_update_beyond
      list_update_same_conv)

lemma same_functions_shape:
  assumes "same_functions a b"
  shows "shape b = shape a"
  using assms by (auto simp: same_functions_def shape_def intro!: nth_equalityI)

lemma same_functions_ok:
  assumes "same_functions a b" "list_all fn.submode_ok a"
  shows "list_all fn.submode_ok b"
  using assms by (fastforce simp: same_functions_def list_all_length fn.submode_ok_def)

lemma list_all_update: "list_all P xs \<Longrightarrow> P x \<Longrightarrow> list_all P (xs[i := x])"
  by (auto simp: list_all_iff dest!: set_update_subset_insert [THEN subsetD])

text \<open>Changes of the modes that keep the daemon well formed.\<close>

lemma set_mode_submode_frame [simp]:
  "current_mode (set_mode_submode i m d) = current_mode d" "length (modes (set_mode_submode i m d)) = length (modes d)"
  "shape (modes (set_mode_submode i m d)) = shape (modes d)"
  "current_mode_rndis (set_mode_submode i m d) = current_mode_rndis d"
  by (simp_all add: set_mode_submode_def)

lemma set_mode_submode_ok:
  assumes "modes_ok d" "target_ok (modes d) \<lparr>tgt_mode = i, tgt_submode = m\<rparr>"
  shows "modes_ok (set_mode_submode i m d)"
proof -
  have "fn.submode_ok (fn_SetSubmode m (modes d ! i))"
    using assms(2) by (simp add: target_ok_def fn.submode_ok_def fn.submode_put fn.others_put)
  moreover have "is_rndis (modes (set_mode_submode i m d) ! current_mode d) = is_rndis (modes d ! current_mode d)"
    using assms(1) by (intro shape_is_rndis) (simp_all add: modes_ok_def)
  ultimately show ?thesis
    using assms(1) by (simp add: modes_ok_def) (simp add: set_mode_submode_def list_all_update)
qed

lemma set_current_mode_ok: "modes_ok d \<Longrightarrow> i < length (modes d) \<Longrightarrow> modes_ok (set_current_mode i d)"
  by (simp add: modes_ok_def set_current_mode_def)

lemma modes_ok_same:
  assumes "modes_ok d" "same_functions (modes d) ms" "modes d' = ms" "current_mode d' = current_mode d"
    "current_mode_rndis d' = current_mode_rndis d"
  shows "modes_ok d'"
  using assms shape_length [OF same_functions_shape [OF assms(2)]]
    shape_is_rndis [OF same_functions_shape [OF assms(2)], of "current_mode d"] same_functions_ok [OF assms(2)]
  by (simp add: modes_ok_def)

section \<open>The apply pipeline\<close>

lemma apply_frame_refl [simp]: "apply_frame d d"
  by (simp add: apply_frame_def)

lemma apply_frame_trans: "apply_frame a b \<Longrightarrow> apply_frame b c \<Longrightarrow> apply_frame a c"
  by (simp add: apply_frame_def)

lemma apply_frame_last_good:
  "apply_frame d d' \<Longrightarrow> last_good_mode d' = last_good_mode d"
  "apply_frame d d' \<Longrightarrow> last_good_submode d' = last_good_submode d"
  by (simp_all add: apply_frame_def)

lemma apply_functions_targets:
  assumes "run_state (apply_functions order1 order2 objs this) w = ((errs, objs', this'), w')"
  shows "target_functions this' = target_functions this"
  using assms by (auto simp: apply_functions_def Let_def split: prod.splits option.splits)

text \<open>The external work only moves the function objects, through their phases.\<close>

definition works :: "daemon \<Rightarrow> daemon \<Rightarrow> bool" where
  "works d d' \<longleftrightarrow> apply_frame d d' \<and> same_functions (modes d) (modes d') \<and>
     target_functions (controller d') = target_functions (controller d) \<and>
     current_mode d' = current_mode d \<and> current_mode_rndis d' = current_mode_rndis d \<and>
     interpreters d' = interpreters d \<and> apply_error d' = apply_error d \<and> apply_done d' = apply_done d \<and>
     mode_changing d' = mode_changing d"

lemma rebuild_works: "run_state (rebuild d) w = ((b, d'), w') \<Longrightarrow> works d d'"
  by (auto simp: rebuild_def works_def apply_frame_def split: prod.splits
      dest: apply_functions_same apply_functions_targets)

lemma enable_works: "run_state (enable_targets d) w = ((b, d'), w') \<Longrightarrow> works d d'"
  by (auto simp: enable_targets_def works_def apply_frame_def split: prod.splits dest: Enable_same)

lemma rollback_bind_works: "run_state (rollback_bind d) w = ((b, d'), w') \<Longrightarrow> works d d'"
  by (auto simp: rollback_bind_def split: prod.splits dest: enable_works)

lemma reconfigure_works: "run_state (reconfigure i d) w = ((b, d'), w') \<Longrightarrow> works d d'"
  by (auto simp: reconfigure_def works_def apply_frame_def split: prod.splits dest: ReconfigureFunction_same)

lemma works_modes_ok: "works d d' \<Longrightarrow> modes_ok d \<Longrightarrow> modes_ok d'"
  by (rule modes_ok_same [of d "modes d'"]) (simp_all add: works_def)

lemma works_shape: "works d d' \<Longrightarrow> shape (modes d') = shape (modes d)"
  by (simp add: works_def same_functions_shape)

lemma wf_frame:
  assumes "wf_daemon d" "apply_frame d d'" "shape (modes d') = shape (modes d)" "modes_ok d'"
  shows "wf_daemon d'"
  using assms target_ok_shape [OF assms(3)] by (simp add: wf_daemon_def apply_frame_def last_good_def)

lemma works_wf: "works d d' \<Longrightarrow> wf_daemon d \<Longrightarrow> wf_daemon d'"
  by (rule wf_frame [of d]) (auto simp: works_shape works_modes_ok wf_daemon_def works_def)

text \<open>The daemon with the last good configuration selected.\<close>

definition select_last_good :: "daemon \<Rightarrow> daemon" where
  "select_last_good d =
     set_current_mode (last_good_mode d) (set_mode_submode (last_good_mode d) (last_good_submode d) d)"

lemma select_last_good_wf:
  assumes "wf_daemon d"
  shows "wf_daemon (select_last_good d)" "apply_frame d (select_last_good d)"
    "shape (modes (select_last_good d)) = shape (modes d)" "current_mode (select_last_good d) = last_good_mode d"
proof -
  show frame: "apply_frame d (select_last_good d)"
    by (simp add: select_last_good_def apply_frame_def set_current_mode_def set_mode_submode_def)
  show shape: "shape (modes (select_last_good d)) = shape (modes d)"
    by (simp add: select_last_good_def set_current_mode_def)
  show "current_mode (select_last_good d) = last_good_mode d"
    by (simp add: select_last_good_def set_current_mode_def)
  have "modes_ok (select_last_good d)"
    unfolding select_last_good_def using assms
    by (intro set_current_mode_ok set_mode_submode_ok)
      (simp_all add: wf_daemon_def target_ok_def last_good_def)
  then show "wf_daemon (select_last_good d)" by (rule wf_frame [OF assms frame shape])
qed

lemma add_only_frame [simp]:
  "current_mode (add_only i d) = current_mode d" "interpreters (add_only i d) = interpreters d"
  "mode_changing (add_only i d) = mode_changing d" "apply_done (add_only i d) = apply_done d" "apply_error (add_only i d) = apply_error d"
  "map snd (target_functions (controller (add_only i d))) = [i]" "apply_frame d (add_only i d)"
  by (simp_all add: add_only_def AddFunction_def ClearFunctions_def reset_functions_def Let_def apply_frame_def)

lemma add_only_same: "same_functions (modes d) (modes (add_only i d))"
  by (simp add: add_only_def AddFunction_def Let_def same_functions_effected)

lemma add_only_shape: "shape (modes (add_only i d)) = shape (modes d)"
  by (rule same_functions_shape) (rule add_only_same)

lemma add_only_wf:
  assumes "wf_daemon d"
  shows "wf_daemon (add_only i d)"
proof (rule wf_frame [OF assms])
  show "modes_ok (add_only i d)"
    by (rule modes_ok_same [of d]) (use assms in \<open>simp_all add: wf_daemon_def add_only_same\<close>,
        simp add: add_only_def split: prod.splits)
qed (simp_all add: add_only_shape)

text \<open>A rollback selects the last good mode and then only works on the functions.\<close>

definition rolls :: "daemon \<Rightarrow> daemon \<Rightarrow> bool" where
  "rolls d d' \<longleftrightarrow> wf_daemon d' \<and> apply_frame d d' \<and> shape (modes d') = shape (modes d) \<and>
     current_mode d' = last_good_mode d \<and> interpreters d' = interpreters d \<and>
     mode_changing d' = mode_changing d \<and> apply_done d' = apply_done d"

lemma select_rolls: "wf_daemon d \<Longrightarrow> rolls d (select_last_good d)"
  using select_last_good_wf [of d]
  by (simp add: rolls_def) (simp add: select_last_good_def set_current_mode_def set_mode_submode_def)

lemma works_rolls: "rolls d d' \<Longrightarrow> works d' d'' \<Longrightarrow> rolls d d''"
  unfolding rolls_def using works_wf [of d' d''] works_shape [of d' d'']
  by (auto simp: works_def intro: apply_frame_trans)

lemma add_only_rolls: "rolls d d' \<Longrightarrow> rolls d (add_only i d')"
  by (auto simp: rolls_def add_only_shape add_only_wf intro: apply_frame_trans)

lemma rollback_mode_rolls:
  assumes "wf_daemon d" "run_state (rollback_mode d) w = ((b, d'), w')"
  shows "rolls d d'"
proof -
  have len: "\<not> length (modes d) \<le> last_good_mode d"
    using assms(1) by (simp add: wf_daemon_def target_ok_def last_good_def)
  have sel: "rolls d (add_only (last_good_mode (select_last_good d)) (select_last_good d))"
    using select_rolls [OF assms(1)] by (rule add_only_rolls)
  show ?thesis
    using assms(2) len
    by (auto simp: rollback_mode_def Let_def select_last_good_def [symmetric] split: prod.splits if_splits
        dest!: rebuild_works rollback_bind_works works_rolls [OF sel] intro: works_rolls)
qed

lemma rollback_submode_rolls:
  assumes "wf_daemon d" "run_state (rollback_submode d) w = ((b, d'), w')"
  shows "rolls d d'"
proof -
  have len: "\<not> length (modes d) \<le> last_good_mode d"
    using assms(1) by (simp add: wf_daemon_def target_ok_def last_good_def)
  show ?thesis
    using assms(2) len
    by (auto simp: rollback_submode_def Let_def select_last_good_def [symmetric] split: if_splits
        dest!: reconfigure_works intro: works_rolls [OF select_rolls [OF assms(1)]])
qed

text \<open>Every LED shows the dark mode.\<close>

definition leds_off :: "daemon \<Rightarrow> bool" where
  "leds_off d \<longleftrightarrow> list_all (\<lambda>i. case i of None \<Rightarrow> True | Some i \<Rightarrow> interp_mode i = MODE_PRESET_OFF) (interpreters d)"

lemma interp_mode_SetMode [simp]: "interp_mode (SetMode m i) = m"
  by (simp add: SetMode_def Let_def start_mode_loop_locked_def set_next_action_time_def)

lemma turn_off_all_leds_off [simp]: "leds_off (turn_off_all_leds d)"
  by (auto simp: leds_off_def turn_off_all_leds_def list_all_iff split: option.splits)

lemma leds_off_cong: "interpreters d' = interpreters d \<Longrightarrow> leds_off d' = leds_off d"
  by (simp add: leds_off_def)

lemma wf_leds [simp]:
  "wf_daemon (turn_off_all_leds d) = wf_daemon d" "wf_daemon (led_current m d) = wf_daemon d"
  "wf_daemon (led_at i m d) = wf_daemon d" "wf_daemon (display_mode_state d) = wf_daemon d"
  "wf_daemon (apply_led_state d) = wf_daemon d"
  by (simp_all add: wf_daemon_def modes_ok_def last_good_def)

lemma wf_fields [simp]:
  "wf_daemon (d\<lparr>mode_changing := b\<rparr>) = wf_daemon d" "wf_daemon (d\<lparr>apply_error := b\<rparr>) = wf_daemon d"
  "wf_daemon (d\<lparr>apply_done := b\<rparr>) = wf_daemon d" "wf_daemon (d\<lparr>mode_changed := b\<rparr>) = wf_daemon d"
  "wf_daemon (d\<lparr>submode_changed := b\<rparr>) = wf_daemon d" "wf_daemon (d\<lparr>reapply := b\<rparr>) = wf_daemon d"
  "wf_daemon (d\<lparr>first_apply := b\<rparr>) = wf_daemon d" "wf_daemon (d\<lparr>led_init_done := b\<rparr>) = wf_daemon d"
  "wf_daemon (d\<lparr>turn_off_leds := b\<rparr>) = wf_daemon d" "wf_daemon (d\<lparr>submode_selection := b\<rparr>) = wf_daemon d"
  "wf_daemon (d\<lparr>submode_entry_done := b\<rparr>) = wf_daemon d" "wf_daemon (d\<lparr>shutting_down := b\<rparr>) = wf_daemon d"
  "wf_daemon (d\<lparr>stopped := b\<rparr>) = wf_daemon d" "wf_daemon (d\<lparr>pending_enable := b\<rparr>) = wf_daemon d"
  "wf_daemon (d\<lparr>wake_chan := b\<rparr>) = wf_daemon d" "wf_daemon (d\<lparr>status := x\<rparr>) = wf_daemon d"
  "wf_daemon (d\<lparr>effect_kind := x\<rparr>) = wf_daemon d" "wf_daemon (d\<lparr>enable_deadline := t\<rparr>) = wf_daemon d"
  "wf_daemon (d\<lparr>rebind_chan := c\<rparr>) = wf_daemon d" "wf_daemon (d\<lparr>input_device := dev\<rparr>) = wf_daemon d"
  "wf_daemon (d\<lparr>interpreters := itps\<rparr>) = wf_daemon d" "wf_daemon (d\<lparr>gadget_reqs := q\<rparr>) = wf_daemon d"
  "wf_daemon (d\<lparr>gadget_resps := r\<rparr>) = wf_daemon d"
  by (simp_all add: wf_daemon_def modes_ok_def last_good_def)

text \<open>What \<open>handle_apply_failure\<close> always leaves behind.\<close>

definition settled :: "daemon \<Rightarrow> daemon \<Rightarrow> bool" where
  "settled d d' \<longleftrightarrow> wf_daemon d' \<and> apply_frame d d' \<and> shape (modes d') = shape (modes d) \<and>
     \<not> mode_changing d' \<and> apply_done d' \<and>
     (\<not> apply_error d' \<longrightarrow> current_mode d' = last_good_mode d') \<and>
     (apply_error d' \<longrightarrow> leds_off d' \<and> GetSubmode (modes d' ! last_good_mode d') = last_good_submode d')"

lemma set_last_good_submode:
  assumes "wf_daemon d"
  defines "d' \<equiv> set_mode_submode (last_good_mode d) (last_good_submode d) d"
  shows "wf_daemon d'" "GetSubmode (modes d' ! last_good_mode d) = last_good_submode d"
proof -
  have len: "last_good_mode d < length (modes d)"
    using assms(1) by (simp add: wf_daemon_def target_ok_def last_good_def)
  have "modes_ok d'"
    unfolding d'_def using assms(1)
    by (intro set_mode_submode_ok) (simp_all add: wf_daemon_def last_good_def)
  then show "wf_daemon d'"
    by (rule wf_frame [OF assms(1), rotated 2]) (simp_all add: d'_def, simp add: set_mode_submode_def apply_frame_def)
  show "GetSubmode (modes d' ! last_good_mode d) = last_good_submode d"
    using len by (simp add: d'_def set_mode_submode_def fn.submode_put)
qed

lemma conclude_settled:
  assumes "wf_daemon d" "leds_off d" "apply_done d" "b \<Longrightarrow> current_mode d = last_good_mode d"
  shows "settled d (conclude_failure b d)"
proof (cases b)
  case True
  with assms show ?thesis
    by (simp add: settled_def conclude_failure_def Let_def) (simp add: apply_frame_def)
next
  case False
  define d1 where "d1 = set_mode_submode (last_good_mode d) (last_good_submode d) (d\<lparr>apply_error := True\<rparr>)"
  have len: "last_good_mode d < length (modes d)"
    using assms(1) by (simp add: wf_daemon_def target_ok_def last_good_def)
  have eq: "conclude_failure b d = (if led_init_done d then display_mode_state d1 else d1)\<lparr>mode_changing := False\<rparr>"
    using False len by (simp add: conclude_failure_def d1_def set_mode_submode_def)
  have ok: "wf_daemon d1" "GetSubmode (modes d1 ! last_good_mode d) = last_good_submode d"
    using set_last_good_submode [of "d\<lparr>apply_error := True\<rparr>"] assms(1) by (simp_all add: d1_def)
  have "apply_frame d d1" "apply_error d1" "apply_done d1" "leds_off d1" "shape (modes d1) = shape (modes d)"
    "last_good_mode d1 = last_good_mode d" "last_good_submode d1 = last_good_submode d"
    using assms(2,3) by (simp_all add: d1_def set_mode_submode_def apply_frame_def leds_off_def)
  moreover from \<open>apply_error d1\<close> have "leds_off (display_mode_state d1)" by (simp add: display_mode_state_def)
  ultimately show ?thesis
    using ok by (cases "led_init_done d") (simp_all add: eq settled_def leds_off_def apply_frame_def)
qed

lemma failure_settled:
  assumes "wf_daemon d" "run_state (handle_apply_failure failed so d) w = (d', w')"
  shows "settled d d'"
proof -
  define d1 where "d1 = turn_off_all_leds (d\<lparr>apply_done := True\<rparr>)"
  have d1: "wf_daemon d1" "leds_off d1" "apply_done d1" "apply_frame d d1" "modes d1 = modes d"
    using assms(1) by (simp_all add: d1_def) (simp add: apply_frame_def)
  have eq: "handle_apply_failure failed so d = do {
      (b, this) \<leftarrow> (if should_rollback (length (modes d1)) failed (last_good d1)
                     then (if so then rollback_submode d1 else rollback_mode d1) else return (False, d1));
      return (conclude_failure b this) }"
    by (simp only: handle_apply_failure_def Let_def d1_def last_good_def)
  then obtain b d2 where d2: "d' = conclude_failure b d2" "d2 = d1 \<and> \<not> b \<or> rolls d1 d2"
    using assms(2) rollback_mode_rolls [OF d1(1)] rollback_submode_rolls [OF d1(1)]
    by (auto split: prod.splits if_splits)
  from d2(2) d1 have "wf_daemon d2" "leds_off d2" "apply_done d2" "b \<Longrightarrow> current_mode d2 = last_good_mode d2"
    and d2': "apply_frame d d2" "shape (modes d2) = shape (modes d)"
    by (auto simp: rolls_def leds_off_def apply_frame_last_good intro: apply_frame_trans)
  from conclude_settled [OF this(1-4)] d2' show ?thesis
    unfolding d2(1) settled_def using apply_frame_trans by metis
qed

section \<open>Each piece keeps the daemon well formed\<close>

lemma settledD:
  assumes "settled d d'"
  shows "wf_daemon d'" "apply_frame d d'" "shape (modes d') = shape (modes d)" "\<not> mode_changing d'" "apply_done d'"
  using assms by (simp_all add: settled_def)

lemma commit_wf:
  "wf_daemon d \<Longrightarrow> target_ok (modes d) t \<Longrightarrow> wf_daemon (commit_mode t d)"
  by (simp add: wf_daemon_def commit_mode_def modes_ok_def last_good_def target_ok_def)

lemma commit_frame [simp]:
  "modes (commit_mode t d) = modes d" "current_mode (commit_mode t d) = current_mode d"
  "stopped (commit_mode t d) = stopped d" "shutting_down (commit_mode t d) = shutting_down d"
  "rebind_chan (commit_mode t d) = rebind_chan d" "pending_enable (commit_mode t d) = pending_enable d"
  "turn_off_leds (commit_mode t d) = turn_off_leds d" "led_init_done (commit_mode t d) = led_init_done d"
  "controller (commit_mode t d) = controller d" "pending_apply (commit_mode t d) = pending_apply d"
  by (simp_all add: commit_mode_def)

text \<open>What one piece of a goroutine leaves as it was, besides keeping the daemon well formed: the
  configured functions, the channels between the goroutines, and whether the daemon is ending.\<close>

definition piece_ok :: "daemon \<Rightarrow> daemon \<Rightarrow> bool" where
  "piece_ok d d' \<longleftrightarrow> wf_daemon d' \<and> shape (modes d') = shape (modes d) \<and> rebind_chan d' = rebind_chan d \<and>
     pending_enable d' = pending_enable d \<and> stopped d' = stopped d \<and> shutting_down d' = shutting_down d \<and>
     mode_changed d' = mode_changed d"

lemma piece_ok_frame: "wf_daemon d' \<Longrightarrow> shape (modes d') = shape (modes d) \<Longrightarrow> apply_frame d d' \<Longrightarrow> piece_ok d d'"
  by (simp add: piece_ok_def apply_frame_def)

lemma piece_ok_works: "wf_daemon d \<Longrightarrow> works d d' \<Longrightarrow> piece_ok d d'"
  by (rule piece_ok_frame) (auto simp: works_wf works_shape works_def)

text \<open>The modes the gadget is built from.\<close>

definition built_modes :: "daemon \<Rightarrow> nat list" where
  "built_modes d = map snd (target_functions (controller d))"

text \<open>The mode the daemon names, the one the gadget is built from and the one last known to be good are as they were.\<close>

definition same_modes :: "daemon \<Rightarrow> daemon \<Rightarrow> bool" where
  "same_modes d d' \<longleftrightarrow> built_modes d' = built_modes d \<and> current_mode d' = current_mode d \<and> last_good d' = last_good d"

text \<open>The apply goes on: also its flag and the target of its second phase are as they were.\<close>

definition carries_on :: "daemon \<Rightarrow> daemon \<Rightarrow> bool" where
  "carries_on d d' \<longleftrightarrow> same_modes d d' \<and> mode_changing d' = mode_changing d \<and> pending_apply d' = pending_apply d"

lemma works_carries_on: "works d d' \<Longrightarrow> carries_on d d'"
  by (simp add: works_def carries_on_def same_modes_def built_modes_def last_good_def apply_frame_def)

text \<open>The apply is over, and its target is the last good configuration.\<close>

definition applied :: "apply_target \<Rightarrow> daemon \<Rightarrow> daemon \<Rightarrow> bool" where
  "applied target d d' \<longleftrightarrow> \<not> mode_changing d' \<and> \<not> apply_error d' \<and> last_good d' = target \<and>
     built_modes d' = built_modes d \<and> current_mode d' = current_mode d"

lemma commit_last_good [simp]:
  "last_good (commit_mode t d) = t" "\<not> apply_error (commit_mode t d)" "mode_changed (commit_mode t d) = mode_changed d"
  by (simp_all add: commit_mode_def last_good_def)

lemma last_good_frame [simp]:
  "last_good (led_current m d) = last_good d" "last_good (display_mode_state d) = last_good d"
  "last_good (d\<lparr>mode_changing := b\<rparr>) = last_good d" "last_good (d\<lparr>apply_done := b\<rparr>) = last_good d"
  "last_good (d\<lparr>apply_error := b\<rparr>) = last_good d" "last_good (turn_off_all_leds d) = last_good d"
  "last_good (set_mode_submode i k d) = last_good d" "last_good (set_current_mode i d) = last_good d"
  "last_good (add_only i d) = last_good d"
  by (simp_all add: last_good_def select_last_good_mode apply_frame_last_good [OF add_only_frame(7)]
      set_mode_submode_def set_current_mode_def)

lemma submode_applied_ok:
  assumes "wf_daemon d" "target_ok (modes d) target"
  shows "piece_ok d (submode_applied target d) \<and> applied target d (submode_applied target d)"
  using commit_wf [OF assms]
  by (cases "turn_off_leds d") (simp_all add: submode_applied_def Let_def piece_ok_def applied_def built_modes_def)

lemma mode_applied_ok:
  assumes "wf_daemon d" "target_ok (modes d) target"
  shows "piece_ok d (mode_applied target d) \<and> applied target d (mode_applied target d)"
  using commit_wf [OF assms]
  by (cases "led_init_done d") (simp_all add: mode_applied_def Let_def piece_ok_def applied_def built_modes_def)

lemma set_mode_submode_built [simp]: "built_modes (set_mode_submode i m d) = built_modes d"
  by (simp add: set_mode_submode_def built_modes_def)

lemma built_modes_simps [simp]:
  "built_modes (display_mode_state d) = built_modes d" "built_modes (d\<lparr>mode_changing := b\<rparr>) = built_modes d"
  "built_modes (d\<lparr>apply_error := b\<rparr>) = built_modes d" "built_modes (turn_off_all_leds d) = built_modes d"
  "built_modes (d\<lparr>apply_done := b\<rparr>) = built_modes d" "built_modes (set_current_mode i d) = built_modes d"
  "built_modes (led_current m d) = built_modes d" "built_modes (add_only i d) = [i]"
  by (simp_all add: built_modes_def set_current_mode_def)

lemma conclude_ok:
  assumes "wf_daemon d"
  shows "piece_ok d (conclude_failure b d) \<and> same_modes d (conclude_failure b d) \<and> \<not> mode_changing (conclude_failure b d)"
proof -
  have e: "wf_daemon (d\<lparr>apply_error := True\<rparr>)" using assms by simp
  have len: "last_good_mode d < length (modes d)"
    using assms by (simp add: wf_daemon_def target_ok_def last_good_def)
  define d1 where "d1 = (if b then d\<lparr>apply_error := False\<rparr>
    else set_mode_submode (last_good_mode d) (last_good_submode d) (d\<lparr>apply_error := True\<rparr>))"
  have "wf_daemon d1" using assms set_last_good_submode(1) [OF e] by (simp add: d1_def)
  moreover have "apply_frame d d1" "shape (modes d1) = shape (modes d)" "same_modes d d1"
    by (simp_all add: d1_def same_modes_def, simp_all add: apply_frame_def set_mode_submode_def)
  ultimately have d1: "piece_ok d d1" "same_modes d d1" by (simp_all add: piece_ok_frame)
  have "conclude_failure b d = (if led_init_done d1 then display_mode_state d1 else d1)\<lparr>mode_changing := False\<rparr>"
    using len by (simp add: conclude_failure_def d1_def Let_def)
  with d1 show ?thesis by (cases "led_init_done d1") (simp_all add: piece_ok_def same_modes_def)
qed

text \<open>What enters the failure: nothing to roll back to, or the last good configuration is selected.\<close>

lemma failed_piece_ok:
  assumes "wf_daemon d" "failed_piece target so d = (new, d')"
  shows "piece_ok d d' \<and> mode_changing d' = mode_changing d \<and> pending_apply d' = pending_apply d \<and> last_good d' = last_good d \<and>
    (new = [TaskConclude False] \<and> (length (modes d) \<le> 1 \<or> target = last_good d) \<and> same_modes d d' \<or>
     new = [TaskRollbackSubmode (last_good_mode d)] \<and> so \<and> built_modes d' = built_modes d \<and> current_mode d' = last_good_mode d \<or>
     new = [TaskRollback] \<and> \<not> so \<and> built_modes d' = [last_good_mode d] \<and> current_mode d' = last_good_mode d)"
proof -
  define d1 where "d1 = turn_off_all_leds (d\<lparr>apply_done := True\<rparr>)"
  have d1: "wf_daemon d1" "apply_frame d d1" "shape (modes d1) = shape (modes d)" "same_modes d d1"
      "length (modes d1) = length (modes d)" "last_good_mode d1 = last_good_mode d"
      "mode_changing d1 = mode_changing d" "pending_apply d1 = pending_apply d" "last_good d1 = last_good d"
    using assms(1) by (simp_all add: d1_def same_modes_def) (simp add: apply_frame_def)
  define d2 where "d2 = select_last_good d1"
  have d2: "wf_daemon d2" "apply_frame d d2" "shape (modes d2) = shape (modes d)" "current_mode d2 = last_good_mode d"
      "built_modes d2 = built_modes d" "last_good d2 = last_good d"
    using select_last_good_wf [OF d1(1)] apply_frame_trans [OF d1(2)] d1
    by (auto simp: d2_def) (simp_all add: select_last_good_def same_modes_def)
  have more: "mode_changing d2 = mode_changing d" "pending_apply d2 = pending_apply d"
    by (simp_all add: d2_def select_last_good_def set_current_mode_def set_mode_submode_def d1)
  have len: "\<not> length (modes d) \<le> last_good_mode d"
    using assms(1) by (simp add: wf_daemon_def target_ok_def last_good_def)
  have eq: "failed_piece target so d = (if \<not> should_rollback (length (modes d)) target (last_good d) then ([TaskConclude False], d1)
      else if so then ([TaskRollbackSubmode (last_good_mode d)], d2) else ([TaskRollback], add_only (last_good_mode d) d2))"
    using len by (simp add: failed_piece_def Let_def d1_def [symmetric] d1 d2_def select_last_good_def)
      (simp add: d1_def last_good_def)
  have ok: "piece_ok d d1" "piece_ok d d2" "piece_ok d (add_only (last_good_mode d) d2)"
    using d1 d2 by (simp_all add: piece_ok_frame add_only_wf add_only_shape apply_frame_trans [OF d2(2)])
  have no: "length (modes d) \<le> 1 \<or> target = last_good d" if "\<not> should_rollback (length (modes d)) target (last_good d)"
    using that by (cases target) (auto simp: should_rollback_def last_good_def)
  have pend: "pending_apply (add_only (last_good_mode d) d2) = pending_apply d"
    using add_only_frame(7) [of d2 "last_good_mode d"] more(2) by (simp add: apply_frame_def)
  from assms(2) ok no d1 d2 more pend show ?thesis
    unfolding eq by (auto split: if_splits)
qed

section \<open>Each round of the main loop keeps the daemon well formed\<close>

text \<open>What the events and requests of one round leave as it was.\<close>

definition round_keeps :: "daemon \<Rightarrow> daemon \<Rightarrow> bool" where
  "round_keeps d d' \<longleftrightarrow> wf_daemon d' \<and> shape (modes d') = shape (modes d) \<and> controller d' = controller d \<and>
     mode_changing d' = mode_changing d \<and> rebind_chan d' = rebind_chan d \<and> pending_enable d' = pending_enable d \<and>
     pending_apply d' = pending_apply d \<and> last_good d' = last_good d \<and> apply_error d' = apply_error d \<and>
     stopped d' = stopped d \<and> shutting_down d' = shutting_down d"

lemma round_keeps_trans: "round_keeps a b \<Longrightarrow> round_keeps b c \<Longrightarrow> round_keeps a c"
  by (simp add: round_keeps_def)

lemma current_ok: "wf_daemon d \<Longrightarrow> fn.submode_ok (modes d ! current_mode d)"
  by (simp add: wf_daemon_def modes_ok_def list_all_length)

lemma set_mode_submode_keeps:
  assumes "wf_daemon d" "target_ok (modes d) \<lparr>tgt_mode = i, tgt_submode = m\<rparr>"
  shows "round_keeps d (set_mode_submode i m d)"
proof -
  have "modes_ok (set_mode_submode i m d)"
    using assms by (intro set_mode_submode_ok) (simp_all add: wf_daemon_def)
  then have "wf_daemon (set_mode_submode i m d)"
    by (rule wf_frame [OF assms(1), rotated 2]) (simp_all add: apply_frame_def set_mode_submode_def)
  then show ?thesis
    by (simp add: round_keeps_def) (simp add: set_mode_submode_def last_good_def)
qed

lemma set_current_mode_keeps:
  assumes "wf_daemon d" "i < length (modes d)"
  shows "round_keeps d (set_current_mode i d)"
  using assms set_current_mode_ok [of d i]
  by (simp add: round_keeps_def wf_daemon_def) (simp add: set_current_mode_def last_good_def)

lemma round_keeps_flags:
  "round_keeps d d' \<Longrightarrow> round_keeps d (d'\<lparr>mode_changed := a, submode_changed := b\<rparr>)"
  "round_keeps d d' \<Longrightarrow> round_keeps d (d'\<lparr>reapply := c, mode_changed := a, submode_changed := b\<rparr>)"
  "round_keeps d d' \<Longrightarrow> round_keeps d (d'\<lparr>submode_selection := a, submode_entry_done := b\<rparr>)"
  "round_keeps d d' \<Longrightarrow> round_keeps d (d'\<lparr>gadget_resps := r\<rparr>)" "round_keeps d d' \<Longrightarrow> round_keeps d (led_current m d')"
  "round_keeps d d' \<Longrightarrow> round_keeps d (d'\<lparr>input_device := dev\<rparr>)" "round_keeps d d' \<Longrightarrow> round_keeps d (d'\<lparr>gadget_reqs := q\<rparr>)"
  "round_keeps d d' \<Longrightarrow> round_keeps d (d'\<lparr>submode_entry_done := b\<rparr>)" "round_keeps d d' \<Longrightarrow> round_keeps d (d'\<lparr>status := s\<rparr>)"
  "round_keeps d d' \<Longrightarrow> round_keeps d (d'\<lparr>wake_chan := b\<rparr>)" "round_keeps d d' \<Longrightarrow> round_keeps d (d'\<lparr>submode_selection := b\<rparr>)"
  by (simp_all add: round_keeps_def last_good_def)

lemma round_keeps_refl: "wf_daemon d \<Longrightarrow> round_keeps d d"
  by (simp add: round_keeps_def)

lemma cycle_target_ok:
  assumes "wf_daemon d"
  shows "target_ok (modes d) \<lparr>tgt_mode = current_mode d,
     tgt_submode = go_mod (GetSubmode (modes d ! current_mode d) + 1) (MaxSubmode (modes d ! current_mode d) + 1)\<rparr>"
  using fn.cycle_submode_ok [OF current_ok [OF assms]] assms
  by (simp add: target_ok_def fn.submode_ok_def fn.submode_put fn.others_put wf_daemon_def modes_ok_def)

lemma handle_event_keeps:
  assumes "wf_daemon d"
  shows "round_keeps d (handle_event e d)"
proof -
  have "0 < length (modes d)" using assms by (auto simp: wf_daemon_def modes_ok_def)
  then have "(current_mode d + 1) mod length (modes d) < length (modes d)" by simp
  with assms show ?thesis
    unfolding handle_event_def Let_def
    by (auto split: input_event_type.split intro!: round_keeps_flags set_mode_submode_keeps
        set_current_mode_keeps cycle_target_ok round_keeps_refl simp del: One_nat_def)
qed

lemma fold_keeps:
  assumes "\<And>x d. wf_daemon d \<Longrightarrow> round_keeps d (f x d)" and "wf_daemon d"
  shows "round_keeps d (fold f xs d)"
  using assms(2)
proof (induction xs arbitrary: d)
  case (Cons x xs)
  have "round_keeps d (f x d)" by (rule assms(1) [OF Cons.prems])
  moreover from this have "round_keeps (f x d) (fold f xs (f x d))"
    by (intro Cons.IH) (simp add: round_keeps_def)
  ultimately show ?case by (simp add: round_keeps_trans)
qed (simp add: round_keeps_refl)

lemma find_mode_Some:
  "find_mode name i ms = Some j \<Longrightarrow>
     i \<le> j \<and> j - i < length ms \<and> GetName (ms ! (j - i)) = name \<and> (\<forall>k < j - i. GetName (ms ! k) \<noteq> name)"
proof (induction name i ms rule: find_mode.induct)
  case (2 name i m ms)
  show ?case
  proof (cases "GetName m = name")
    case False
    with 2 have j: "Suc i \<le> j" "j - Suc i < length ms" "GetName (ms ! (j - Suc i)) = name"
      "\<forall>k < j - Suc i. GetName (ms ! k) \<noteq> name" by simp_all
    from j(1) obtain k where "j = Suc (i + k)" by (auto dest: le_Suc_ex)
    with j False show ?thesis by (auto simp: less_Suc_eq_0_disj)
  qed (use 2 in simp)
qed simp

lemma find_mode_None: "find_mode name i ms = None \<longleftrightarrow> (\<forall>m \<in> set ms. GetName m \<noteq> name)"
  by (induction name i ms rule: find_mode.induct) auto

lemma parse_gadget_spec_nonneg: "parse_gadget_spec spec = Inr (name, m) \<Longrightarrow> 0 \<le> m"
  by (auto simp: parse_gadget_spec_def split: prod.splits if_splits option.splits)

lemma gadget_request_keeps:
  assumes "wf_daemon d"
  shows "round_keeps d (snd (handle_gadget_request spec d))"
proof -
  have *: "target_ok (modes d) \<lparr>tgt_mode = j, tgt_submode = m\<rparr>"
    if "find_mode name 0 (modes d) = Some j" "0 \<le> m" "m \<le> MaxSubmode (modes d ! j)" for name j m
    using find_mode_Some [OF that(1)] that by (simp add: target_ok_def)
  have **: "round_keeps d (set_mode_submode j m (set_current_mode j d))"
    if "target_ok (modes d) \<lparr>tgt_mode = j, tgt_submode = m\<rparr>" for j m
  proof -
    have "round_keeps d (set_current_mode j d)"
      using assms that by (intro set_current_mode_keeps) (simp_all add: target_ok_def)
    moreover from this that have "round_keeps (set_current_mode j d) (set_mode_submode j m (set_current_mode j d))"
      by (intro set_mode_submode_keeps) (simp_all add: round_keeps_def set_current_mode_def)
    ultimately show ?thesis by (rule round_keeps_trans)
  qed
  show ?thesis
    by (auto simp: handle_gadget_request_def Let_def not_less
        split: sum.splits option.splits prod.splits dest!: parse_gadget_spec_nonneg
        intro!: round_keeps_flags ** set_mode_submode_keeps * round_keeps_refl assms)
qed

lemma handle_requests_keeps: "wf_daemon d \<Longrightarrow> round_keeps d (handle_requests specs d)"
proof (induction specs d rule: handle_requests.induct)
  case (2 spec specs d)
  obtain resp d1 where r: "handle_gadget_request spec d = (resp, d1)" by (metis surj_pair)
  have k: "round_keeps d d1" using gadget_request_keeps [OF "2.prems", of spec] r by simp
  then have "wf_daemon (d1\<lparr>gadget_resps := gadget_resps d1 @ [resp]\<rparr>)" by (simp add: round_keeps_def)
  from "2.IH" [OF r [symmetric] this] round_keeps_flags(4) [OF k] r show ?case
    by (auto intro: round_keeps_trans)
qed (simp add: round_keeps_refl)

end
