(* ===== verification/Daemon_Props.thy ===== *)
theory Daemon_Props
  imports Daemon_Inv
begin

text \<open>
  The invariants of the daemon along every interleaving of the main loop, the goroutines, the
  control bus, the button and the LED loops.
\<close>

section \<open>One round of the main loop\<close>

lemma leds_as_they_are: "\<exists>itps. d = d\<lparr>interpreters := itps\<rparr>"
  by (rule exI [of _ "interpreters d"]) simp

lemma shutdown_leds_result:
  "run_state (shutdown_leds is l d) w = ((l', d'), w') \<Longrightarrow> \<exists>itps. d' = d\<lparr>interpreters := itps\<rparr>"
proof (induction "is" l d arbitrary: w rule: shutdown_leds.induct)
  case (2 i "is" l d)
  show ?case
  proof (cases "interpreters d ! i = None")
    case True
    with 2 show ?thesis by simp
  next
    case False
    with "2.prems" obtain w1 where "run_state (shutdown_leds is (Some i) (led_at i MODE_PRESET_OFF
        (led_at i MODE_PRESET_ON d))) w1 = ((l', d'), w')"
      by (auto simp: Let_def split: prod.splits)
    from "2.IH"(2) [OF False refl this] show ?thesis by (auto simp: led_at_def)
  qed
qed (simp add: leds_as_they_are)

lemma do_shutdown_result:
  assumes "run_state (do_shutdown d) w = (d', w')"
  shows "\<exists>itps. d' = d\<lparr>interpreters := itps\<rparr>"
  using assms
  by (auto simp: do_shutdown_def Let_def turn_off_all_leds_def led_at_def
      split: prod.splits option.splits dest!: shutdown_leds_result)

text \<open>A change of the mode the daemon names is announced in \<open>mode_changed\<close>.\<close>

definition announces :: "daemon \<Rightarrow> daemon \<Rightarrow> bool" where
  "announces d d' \<longleftrightarrow> mode_changed d' \<or> \<not> mode_changed d \<and> current_mode d' = current_mode d"

lemma announces_refl [simp]: "announces d d"
  by (simp add: announces_def)

lemma announces_trans: "announces a b \<Longrightarrow> announces b c \<Longrightarrow> announces a c"
  by (auto simp: announces_def)

lemma announces_same: "mode_changed d' = mode_changed d \<Longrightarrow> current_mode d' = current_mode d \<Longrightarrow> announces d d'"
  by (auto simp: announces_def)

lemma handle_event_announces: "announces d (handle_event e d)"
  by (simp add: handle_event_def announces_def Let_def split: input_event_type.split)

lemma fold_events_announce: "announces d (fold handle_event es d)"
  by (induction es arbitrary: d) (auto intro: announces_trans handle_event_announces)

lemma gadget_request_announces: "announces d (snd (handle_gadget_request spec d))"
  by (simp add: handle_gadget_request_def announces_def Let_def split: sum.split option.split prod.split)

lemma handle_requests_announce: "announces d (handle_requests specs d)"
proof (induction specs d rule: handle_requests.induct)
  case (2 spec specs d)
  obtain resp d1 where r: "handle_gadget_request spec d = (resp, d1)" by (metis surj_pair)
  have "announces d d1" using gadget_request_announces [of d spec] r by simp
  moreover have "announces d1 (d1\<lparr>gadget_resps := gadget_resps d1 @ [resp]\<rparr>)" by (rule announces_same) simp_all
  ultimately show ?case using "2.IH" [OF r [symmetric]] r by (auto intro: announces_trans)
qed simp

lemma show_submode_same:
  "mode_changed (show_submode_after_entry d) = mode_changed d" "current_mode (show_submode_after_entry d) = current_mode d"
  by (simp_all add: show_submode_after_entry_def split: option.split)

text \<open>What one round does to the part of the state the invariants speak about.\<close>

definition round_ok :: "bool \<Rightarrow> daemon \<Rightarrow> apply_task list \<Rightarrow> daemon \<Rightarrow> bool" where
  "round_ok due d new d' \<longleftrightarrow> wf_daemon d' \<and> shape (modes d') = shape (modes d) \<and> controller d' = controller d \<and>
     rebind_chan d' = rebind_chan d \<and> pending_apply d' = pending_apply d \<and> last_good d' = last_good d \<and>
     stopped d' = stopped d \<and> pending_enable d' = (pending_enable d \<and> \<not> due) \<and>
     (\<exists>start. new = (if pending_enable d \<and> due then [TaskFinish] else []) @ start \<and>
        (start = [] \<and> mode_changing d' = mode_changing d \<and> announces d d' \<or>
         start = [TaskApply] \<and> \<not> mode_changing d \<and> mode_changing d'))"

lemma start_change_result:
  assumes "wf_daemon d" "start_change d = (start, d')"
  shows "wf_daemon d' \<and> shape (modes d') = shape (modes d) \<and> controller d' = controller d \<and>
     rebind_chan d' = rebind_chan d \<and> pending_apply d' = pending_apply d \<and> last_good d' = last_good d \<and>
     stopped d' = stopped d \<and> pending_enable d' = pending_enable d \<and>
     (start = [] \<and> mode_changing d' = mode_changing d \<and> announces d d' \<or>
      start = [TaskApply] \<and> \<not> mode_changing d \<and> mode_changing d')"
  using assms by (auto simp: start_change_def last_good_def split: if_splits)

lemma show_submode_keeps: "wf_daemon d \<Longrightarrow> round_keeps d (show_submode_after_entry d)"
  by (auto simp: show_submode_after_entry_def split: option.splits
      intro!: round_keeps_flags round_keeps_refl)

lemma handle_gadget_requests_keeps: "wf_daemon d \<Longrightarrow> round_keeps d (handle_gadget_requests d)"
proof -
  assume "wf_daemon d"
  then have "round_keeps d (d\<lparr>gadget_reqs := []\<rparr>)" by (intro round_keeps_flags round_keeps_refl)
  moreover from \<open>wf_daemon d\<close> have "round_keeps (d\<lparr>gadget_reqs := []\<rparr>) (handle_gadget_requests d)"
    unfolding handle_gadget_requests_def by (intro handle_requests_keeps) simp
  ultimately show ?thesis by (rule round_keeps_trans)
qed

text \<open>The events, the requests and the LED of one round.\<close>

definition round_body :: "input_event list \<Rightarrow> input_device \<Rightarrow> daemon \<Rightarrow> daemon" where
  "round_body events dev d =
     show_submode_after_entry (handle_gadget_requests (fold handle_event events (d\<lparr>input_device := dev\<rparr>)))"

lemma round_body_keeps:
  assumes "wf_daemon d"
  shows "round_keeps d (round_body events dev d)"
proof -
  have "round_keeps d (d\<lparr>input_device := dev\<rparr>)" using assms by (intro round_keeps_flags round_keeps_refl)
  also have "round_keeps (d\<lparr>input_device := dev\<rparr>) (fold handle_event events (d\<lparr>input_device := dev\<rparr>))"
    using assms by (intro fold_keeps handle_event_keeps) simp_all
  finally (round_keeps_trans) have 1: "round_keeps d (fold handle_event events (d\<lparr>input_device := dev\<rparr>))" .
  then have "round_keeps (fold handle_event events (d\<lparr>input_device := dev\<rparr>))
      (handle_gadget_requests (fold handle_event events (d\<lparr>input_device := dev\<rparr>)))"
    by (intro handle_gadget_requests_keeps) (simp add: round_keeps_def)
  with 1 have "round_keeps d (handle_gadget_requests (fold handle_event events (d\<lparr>input_device := dev\<rparr>)))"
    by (rule round_keeps_trans)
  then show ?thesis
    unfolding round_body_def by (metis round_keeps_trans round_keeps_def show_submode_keeps)
qed

lemma round_body_announces: "announces d (round_body events dev d)"
proof -
  define d1 where "d1 = fold handle_event events (d\<lparr>input_device := dev\<rparr>)"
  have "announces d (d\<lparr>input_device := dev\<rparr>)" "announces d1 (d1\<lparr>gadget_reqs := []\<rparr>)"
    by (rule announces_same; simp)+
  then have "announces d d1" "announces d1 (handle_gadget_requests d1)"
    by (auto simp: d1_def handle_gadget_requests_def intro: announces_trans fold_events_announce handle_requests_announce)
  then have "announces d (handle_gadget_requests d1)" by (rule announces_trans)
  then show ?thesis by (simp add: round_body_def d1_def announces_def show_submode_same)
qed

lemma update_status_frame: "\<exists>s. update_status d = d\<lparr>status := s\<rparr>"
  by (auto simp: update_status_def)

text \<open>The second phase, when it is due: the flag is consumed and \<open>finish_apply\<close> started.\<close>

definition take_due :: "int \<Rightarrow> daemon \<Rightarrow> apply_task list \<times> daemon" where
  "take_due t d = (if pending_enable d \<and> enable_deadline d \<le> t then ([TaskFinish], d\<lparr>pending_enable := False\<rparr>) else ([], d))"

lemma handle_events_cases [consumes 1, case_names ending shutdown events]:
  assumes "run_state (handle_events d) w = ((new, d'), w')"
  obtains (ending) "shutting_down d" "take_due (clock w) (update_status d) = (new, d')"
  | (shutdown) d1 itps where "\<not> shutting_down d" "shutdown_due (clock w) d" "take_due (clock w) (update_status d) = (new, d1)"
      "d' = (update_status (d1\<lparr>shutting_down := True\<rparr>))\<lparr>interpreters := itps\<rparr>"
  | (events) fin d1 events dev start where "\<not> shutting_down d" "\<not> shutdown_due (clock w) d"
      "take_due (clock w) (update_status d) = (fin, d1)" "DrainEvents (clock w) (input_device d) = (events, dev)"
      "start_change (round_body events dev d1) = (start, d')" "new = fin @ start"
proof -
  obtain s where s: "update_status d = d\<lparr>status := s\<rparr>" using update_status_frame by blast
  obtain fin d1 where d1: "take_due (clock w) (d\<lparr>status := s\<rparr>) = (fin, d1)" by (metis surj_pair)
  then have d1_frame: "shutting_down d1 = shutting_down d" "input_device d1 = input_device d"
    "shutdown_threshold d1 = shutdown_threshold d"
    by (auto simp: take_due_def split: if_splits)
  have eq: "run_state (handle_events d) w =
     (if shutting_down d1 then ((fin, d1), w)
      else if shutdown_due (clock w) d1
      then run_state (do { this \<leftarrow> do_shutdown (update_status (d1\<lparr>shutting_down := True\<rparr>)); return (fin, this) }) w
      else (case DrainEvents (clock w) (input_device d1) of (events, dev) \<Rightarrow>
              case start_change (round_body events dev d1) of (start, this) \<Rightarrow> ((fin @ start, this), w)))"
    using d1 by (auto simp: handle_events_def s take_due_def Let_def round_body_def split: prod.splits if_splits)
  have due: "shutdown_due (clock w) d1 = shutdown_due (clock w) d"
    using d1_frame by (simp add: shutdown_due_def split: option.split)
  consider "shutting_down d" | "\<not> shutting_down d" "shutdown_due (clock w) d"
    | "\<not> shutting_down d" "\<not> shutdown_due (clock w) d" by blast
  then show thesis
  proof cases
    case 1
    with assms d1 show thesis by (intro ending) (simp_all add: eq d1_frame s)
  next
    case 2
    with assms obtain w1 where new: "new = fin"
      and sd: "run_state (do_shutdown (update_status (d1\<lparr>shutting_down := True\<rparr>))) w = (d', w1)"
      by (auto simp: eq d1_frame due split: prod.splits)
    from do_shutdown_result [OF sd] obtain itps
      where "d' = (update_status (d1\<lparr>shutting_down := True\<rparr>))\<lparr>interpreters := itps\<rparr>" by blast
    with 2 d1 new show thesis by (intro shutdown) (simp_all add: s)
  next
    case 3
    with assms d1 show thesis by (auto simp: eq d1_frame due s split: prod.splits intro: events)
  qed
qed

lemma take_due_result:
  assumes "wf_daemon d" "take_due t (update_status d) = (fin, d1)"
  shows "round_ok (enable_deadline d \<le> t) d fin d1"
proof -
  obtain s where s: "update_status d = d\<lparr>status := s\<rparr>" using update_status_frame by blast
  show ?thesis
    using assms unfolding s by (auto simp: take_due_def round_ok_def last_good_def announces_def split: if_splits)
qed

lemma handle_events_round_ok:
  assumes "wf_daemon d" "run_state (handle_events d) w = ((new, d'), w')"
  shows "round_ok (enable_deadline d \<le> clock w) d new d'"
  using assms(2)
proof (cases rule: handle_events_cases)
  case ending
  with assms(1) show ?thesis by (simp add: take_due_result)
next
  case (shutdown d1 itps)
  obtain s where s: "update_status (d1\<lparr>shutting_down := True\<rparr>) = d1\<lparr>shutting_down := True, status := s\<rparr>"
    using update_status_frame by blast
  from take_due_result [OF assms(1) shutdown(3)] show ?thesis
    by (simp add: shutdown(4) s round_ok_def last_good_def announces_def)
next
  case (events fin d1 events dev start)
  have due: "round_ok (enable_deadline d \<le> clock w) d fin d1" by (rule take_due_result [OF assms(1) events(3)])
  have fin: "fin = (if pending_enable d \<and> enable_deadline d \<le> clock w then [TaskFinish] else [])"
    "mode_changing d1 = mode_changing d" "announces d d1"
    using due events(3) by (auto simp: take_due_def round_ok_def split: if_splits)
  have ann: "announces d (round_body events dev d1)" by (rule announces_trans [OF fin(3) round_body_announces])
  have "round_keeps d1 (round_body events dev d1)"
    using due by (intro round_body_keeps) (simp add: round_ok_def)
  with start_change_result [OF _ events(5)] due fin announces_trans [OF ann] show ?thesis
    by (auto simp: round_ok_def round_keeps_def events(6))
qed

section \<open>One piece of a goroutine\<close>

fun is_apply :: "apply_task \<Rightarrow> bool" where
  "is_apply TaskLedInit = False"
| "is_apply (TaskLedOn i) = False"
| "is_apply (TaskLedOff i) = False"
| "is_apply _ = True"

text \<open>The target a goroutine carries with it.\<close>

fun task_target :: "apply_task \<Rightarrow> apply_target option" where
  "task_target (TaskWork target submode_only) = Some target"
| "task_target (TaskSubmodeDone target) = Some target"
| "task_target (TaskEnabled target) = Some target"
| "task_target (TaskFailed target submode_only) = Some target"
| "task_target _ = None"

definition targets_ok :: "gadget_function list \<Rightarrow> apply_task list \<Rightarrow> bool" where
  "targets_ok ms ts \<longleftrightarrow> list_all (\<lambda>t. pred_option (target_ok ms) (task_target t)) ts"

lemma targets_ok_simps [simp]:
  "targets_ok ms []" "targets_ok ms (xs @ ys) \<longleftrightarrow> targets_ok ms xs \<and> targets_ok ms ys"
  "targets_ok ms (t # ts) \<longleftrightarrow> pred_option (target_ok ms) (task_target t) \<and> targets_ok ms ts"
  by (simp_all add: targets_ok_def)

lemma targets_ok_shape:
  assumes "shape a = shape b"
  shows "targets_ok a ts = targets_ok b ts"
proof -
  have "target_ok a = target_ok b" using target_ok_shape [OF assms] by (rule ext)
  then show ?thesis by (simp add: targets_ok_def)
qed

text \<open>What a piece does, by the kind of the task: what is left to do, and the modes afterwards.\<close>

definition task_result :: "apply_task \<Rightarrow> daemon \<Rightarrow> apply_task list \<Rightarrow> daemon \<Rightarrow> bool" where
  "task_result t d new d' \<longleftrightarrow>
     (case t of
        TaskApply \<Rightarrow> mode_changing d' \<and> pending_apply d' = pending_apply d \<and> last_good d' = last_good d \<and>
          current_mode d' = current_mode d \<and> (\<exists>target so. new = [TaskWork target so] \<and> tgt_mode target = current_mode d \<and>
            built_modes d' = (if so then built_modes d else [tgt_mode target]))
      | TaskWork target so \<Rightarrow> same_modes d d' \<and> mode_changing d' = mode_changing d \<and>
          (new = [TaskFailed target so] \<or> so \<and> new = [TaskSubmodeDone target] \<or>
           \<not> so \<and> (\<exists>u. new = [TaskSend u]) \<and> pending_apply d' = target)
      | TaskSubmodeDone target \<Rightarrow> new = [] \<and> applied target d d'
      | TaskSend u \<Rightarrow> new = [] \<and> carries_on d d'
      | TaskFinish \<Rightarrow> (new = [TaskEnabled (pending_apply d)] \<or> new = [TaskFailed (pending_apply d) False]) \<and> carries_on d d'
      | TaskEnabled target \<Rightarrow> new = [] \<and> applied target d d'
      | TaskFailed target so \<Rightarrow> mode_changing d' = mode_changing d \<and> last_good d' = last_good d \<and>
          (new = [TaskConclude False] \<and> (length (modes d) \<le> 1 \<or> target = last_good d) \<and> same_modes d d' \<or>
           current_mode d' = last_good_mode d \<and>
           (new = [TaskRollbackSubmode (last_good_mode d)] \<and> so \<and> built_modes d' = built_modes d \<or>
            new = [TaskRollback] \<and> \<not> so \<and> built_modes d' = [last_good_mode d]))
      | TaskRollback \<Rightarrow> (new = [TaskRollbackBind] \<or> new = [TaskConclude False]) \<and> carries_on d d'
      | TaskRollbackBind \<Rightarrow> (\<exists>b. new = [TaskConclude b]) \<and> carries_on d d'
      | TaskRollbackSubmode i \<Rightarrow> (\<exists>b. new = [TaskConclude b]) \<and> carries_on d d'
      | TaskConclude b \<Rightarrow> new = [] \<and> same_modes d d' \<and> \<not> mode_changing d'
      | _ \<Rightarrow> \<not> list_ex is_apply new \<and> carries_on d d')"

definition task_ok :: "apply_task \<Rightarrow> daemon \<Rightarrow> apply_task list \<Rightarrow> daemon \<Rightarrow> bool" where
  "task_ok t d new d' \<longleftrightarrow> wf_daemon d' \<and> shape (modes d') = shape (modes d) \<and>
     pending_enable d' = pending_enable d \<and> stopped d' = stopped d \<and> shutting_down d' = shutting_down d \<and>
     mode_changed d' = mode_changed d \<and> targets_ok (modes d') new \<and>
     (case t of TaskSend u \<Rightarrow> rebind_chan d = None \<and> rebind_chan d' = Some u | _ \<Rightarrow> rebind_chan d' = rebind_chan d) \<and>
     task_result t d new d'"

lemma not_send:
  assumes "\<And>u. t \<noteq> TaskSend u"
  shows "(case t of TaskSend u \<Rightarrow> P u | _ \<Rightarrow> Q) = Q"
proof (cases t)
  case (TaskSend u)
  with assms show ?thesis by blast
qed simp_all

lemmas task_defs = task_ok_def task_result_def

lemma current_target_ok:
  "wf_daemon d \<Longrightarrow> target_ok (modes d) \<lparr>tgt_mode = current_mode d, tgt_submode = GetSubmode (modes d ! current_mode d)\<rparr>"
  using current_ok [of d] by (simp add: target_ok_def fn.submode_ok_def wf_daemon_def modes_ok_def)

lemma apply_begin_ok:
  assumes "wf_daemon d" "apply_begin d = (next, d')"
  shows "task_ok TaskApply d [next] d'"
proof -
  define target where "target = \<lparr>tgt_mode = current_mode d, tgt_submode = GetSubmode (modes d ! current_mode d)\<rparr>"
  have t: "target_ok (modes d) target" unfolding target_def by (rule current_target_ok [OF assms(1)])
  show ?thesis
  proof (cases "submode_changed d")
    case True
    define d1 where "d1 = d\<lparr>submode_changed := False, mode_changing := True\<rparr>"
    have d': "next = TaskWork target True" "d' = led_current MODE_PRESET_OFF d1"
      using True assms(2) by (auto simp: apply_begin_def d1_def target_def Let_def)
    have d1: "wf_daemon d1" "last_good d1 = last_good d" "built_modes d1 = built_modes d"
      using assms(1) by (simp_all add: d1_def last_good_def built_modes_def)
    have fields: "modes d1 = modes d" "pending_enable d1 = pending_enable d" "stopped d1 = stopped d"
      "shutting_down d1 = shutting_down d" "mode_changing d1" "rebind_chan d1 = rebind_chan d"
      "pending_apply d1 = pending_apply d" "mode_changed d1 = mode_changed d" "current_mode d1 = current_mode d"
      "tgt_mode target = current_mode d"
      by (simp_all add: d1_def target_def)
    show ?thesis
      unfolding d' using t d1 fields by (auto simp: task_defs)
  next
    case False
    define d1 where "d1 = d\<lparr>submode_changed := False, mode_changing := True, reapply := False, first_apply := False\<rparr>"
    define d2 where "d2 = (if first_apply d then d1 else if submode_selection d \<and> \<not> reapply d
      then led_current MODE_PRESET_OFF d1 else led_current (LED_MODE_BLINK d) d1)"
    have d': "next = TaskWork target False" "d' = add_only (current_mode d) d2"
      using False assms(2) by (auto simp: apply_begin_def d2_def d1_def target_def Let_def)
    have "last_good d1 = last_good d" by (simp add: d1_def last_good_def)
    then have d2: "wf_daemon d2" "modes d2 = modes d" "pending_enable d2 = pending_enable d" "stopped d2 = stopped d"
      "shutting_down d2 = shutting_down d" "mode_changing d2" "rebind_chan d2 = rebind_chan d"
      "pending_apply d2 = pending_apply d" "mode_changed d2 = mode_changed d" "last_good d2 = last_good d"
      "current_mode d2 = current_mode d"
      using assms(1) by (simp_all add: d2_def) (simp_all add: d1_def)
    have fr: "apply_frame d2 d'" unfolding d'(2) by simp
    have sh: "shape (modes d') = shape (modes d)" by (simp add: d' add_only_shape d2)
    have "wf_daemon d'" "mode_changing d'" "built_modes d' = [current_mode d]" "current_mode d' = current_mode d"
        "last_good d' = last_good d"
      using d2 by (simp_all add: d' add_only_wf)
    with d2 fr sh t target_ok_shape [OF sh] show ?thesis
      by (simp add: task_defs d'(1) apply_frame_def target_def) blast
  qed
qed

text \<open>The pieces that work on the machine.\<close>

lemma task_ok_works:
  assumes "wf_daemon d" "works d d'" "\<And>u. t \<noteq> TaskSend u" "targets_ok (modes d) new"
    and "carries_on d d' \<Longrightarrow> task_result t d new d'"
  shows "task_ok t d new d'"
proof -
  have "piece_ok d d'" "carries_on d d'" using assms(1,2) by (simp_all add: piece_ok_works works_carries_on)
  with assms(4,5) show ?thesis
    using targets_ok_shape [of "modes d'" "modes d" new] by (simp add: task_ok_def piece_ok_def not_send [OF assms(3)])
qed

lemma work_piece_ok:
  assumes "wf_daemon d" "target_ok (modes d) target" "run_state (work_piece target so d) w = ((new, d'), w')"
  shows "task_ok (TaskWork target so) d new d'"
proof (cases so)
  case True
  with assms(3) obtain b where "run_state (reconfigure (tgt_mode target) d) w = ((b, d'), w')"
    "new = [if b then TaskSubmodeDone target else TaskFailed target True]"
    by (auto simp: work_piece_def split: prod.splits)
  with True assms show ?thesis
    by (intro task_ok_works [OF assms(1) reconfigure_works]) (auto simp: task_result_def carries_on_def)
next
  case False
  obtain b d1 w1 where e: "run_state (rebuild d) w = ((b, d1), w1)" by (metis surj_pair)
  have works: "works d d1" by (rule rebuild_works [OF e])
  show ?thesis
  proof (cases b)
    case False
    with \<open>\<not> so\<close> assms(3) e have "new = [TaskFailed target False]" "d' = d1"
      by (simp_all add: work_piece_def)
    with \<open>\<not> so\<close> assms show ?thesis
      by (intro task_ok_works [OF assms(1)]) (auto simp: task_result_def carries_on_def works)
  next
    case True
    with \<open>\<not> so\<close> assms(3) e have new: "\<exists>u. new = [TaskSend u]" and d': "d' = d1\<lparr>pending_apply := target\<rparr>"
      by (auto simp: work_piece_def)
    have d1: "piece_ok d d1" "carries_on d d1" using assms(1) works by (simp_all add: piece_ok_works works_carries_on)
    then have "target_ok (modes d1) target"
      using assms(2) target_ok_shape [of "modes d1" "modes d" target] by (simp add: piece_ok_def)
    with d1 new \<open>\<not> so\<close> show ?thesis
      by (auto simp: d' task_defs piece_ok_def carries_on_def same_modes_def wf_daemon_def modes_ok_def last_good_def built_modes_def)
  qed
qed

lemma finish_piece_ok:
  assumes "wf_daemon d" "run_state (finish_piece d) w = ((new, d'), w')"
  shows "task_ok TaskFinish d new d'"
proof -
  obtain b where e: "run_state (enable_targets d) w = ((b, d'), w')"
    "new = [if b then TaskEnabled (pending_apply d) else TaskFailed (pending_apply d) False]"
    using assms(2) by (auto simp: finish_piece_def Let_def split: prod.splits)
  then show ?thesis
    using assms(1) by (intro task_ok_works [OF assms(1) enable_works [OF e(1)]])
      (auto simp: task_result_def wf_daemon_def)
qed

lemma rollback_pieces_ok:
  assumes "wf_daemon d"
  shows "run_state (rollback_piece d) w = ((new, d'), w') \<Longrightarrow> task_ok TaskRollback d new d'"
    "run_state (rollback_bind_piece d) w = ((new, d'), w') \<Longrightarrow> task_ok TaskRollbackBind d new d'"
    "run_state (rollback_submode_piece i d) w = ((new, d'), w') \<Longrightarrow> task_ok (TaskRollbackSubmode i) d new d'"
  by (auto simp: rollback_piece_def rollback_bind_piece_def rollback_submode_piece_def task_result_def split: prod.splits
      intro!: task_ok_works [OF assms] dest: rebuild_works rollback_bind_works reconfigure_works)

text \<open>The pieces that only change the daemon.\<close>

lemma task_ok_piece:
  assumes "piece_ok d d'" "\<And>u. t \<noteq> TaskSend u" "targets_ok (modes d) new" "task_result t d new d'"
  shows "task_ok t d new d'"
  using assms(1,3,4) targets_ok_shape [of "modes d'" "modes d" new]
  by (simp add: task_ok_def piece_ok_def not_send [OF assms(2)])

lemma failed_task_ok: "wf_daemon d \<Longrightarrow> failed_piece target so d = (new, d') \<Longrightarrow> task_ok (TaskFailed target so) d new d'"
  using failed_piece_ok [of d target so new d'] by (intro task_ok_piece) (auto simp: task_result_def)

lemma led_tasks_ok:
  assumes "wf_daemon d"
  shows "led_init_start d = (new, d') \<Longrightarrow> task_ok TaskLedInit d new d'"
    "led_init_on i d = (new, d') \<Longrightarrow> task_ok (TaskLedOn i) d new d'"
    "led_init_off i d = (new, d') \<Longrightarrow> task_ok (TaskLedOff i) d new d'"
  using assms
  by (auto simp: led_init_start_def led_init_on_def led_init_off_def led_init_end_def Let_def task_defs
      carries_on_def same_modes_def built_modes_def last_good_def split: if_splits)

lemma commit_tasks_ok:
  assumes "wf_daemon d"
  shows "target_ok (modes d) target \<Longrightarrow> task_ok (TaskSubmodeDone target) d [] (submode_applied target d)"
    "target_ok (modes d) target \<Longrightarrow> task_ok (TaskEnabled target) d [] (mode_applied target d)"
    "task_ok (TaskConclude b) d [] (conclude_failure b d)"
  using submode_applied_ok [OF assms] mode_applied_ok [OF assms] conclude_ok [OF assms]
  by (simp_all add: task_ok_piece task_result_def)

lemma send_task_ok:
  "wf_daemon d \<Longrightarrow> rebind_send u d = Some d' \<Longrightarrow> task_ok (TaskSend u) d [] d'"
  by (auto simp: rebind_send_def task_defs carries_on_def same_modes_def built_modes_def last_good_def split: option.splits)

lemma run_task_ok:
  assumes "wf_daemon d" "run_task w t d = Some (new, d')" "targets_ok (modes d) [t]"
  shows "task_ok t d new d'"
proof (cases "\<exists>u. t = TaskSend u")
  case True
  with assms send_task_ok [OF assms(1)] show ?thesis by (auto simp: run_task_def)
next
  case False
  then have "fst (run_state (piece t d) w) = (new, d')"
    using assms(2) by (cases t) (simp_all add: run_task_def)
  then obtain w' where r: "run_state (piece t d) w = ((new, d'), w')" by (metis prod.collapse)
  note ok = apply_begin_ok [OF assms(1)] work_piece_ok [OF assms(1)] finish_piece_ok [OF assms(1)]
    rollback_pieces_ok [OF assms(1)] failed_task_ok [OF assms(1)] led_tasks_ok [OF assms(1)] commit_tasks_ok [OF assms(1)]
  show ?thesis
    using r assms(3) False by (cases t) (auto simp: piece_def intro: ok split: prod.splits)
qed

lemma no_apply_filter: "\<not> list_ex is_apply ts \<Longrightarrow> filter is_apply ts = []"
  by (induction ts) auto

text \<open>A piece keeps the count of applies, or ends one and clears the flag.\<close>

lemma task_counts:
  assumes "task_ok t d new d'"
  shows "length (filter is_apply new) + of_bool (rebind_chan d' \<noteq> None) = of_bool (is_apply t) + of_bool (rebind_chan d \<noteq> None) \<and>
      (mode_changing d' = mode_changing d \<or> mode_changing d' \<and> is_apply t) \<or>
    length (filter is_apply new) + of_bool (rebind_chan d' \<noteq> None) = of_bool (rebind_chan d \<noteq> None) \<and> is_apply t \<and> \<not> mode_changing d'"
  using assms
  by (cases t; simp add: task_defs carries_on_def applied_def; (elim conjE disjE exE)?; simp add: no_apply_filter)

section \<open>The invariants\<close>

definition sys_inv :: "((string \<times> bool) \<times> int) list \<Rightarrow> daemon_state \<Rightarrow> bool" where
  "sys_inv cfg s \<longleftrightarrow> wf_daemon (fst s) \<and> shape (modes (fst s)) = cfg \<and>
     targets_ok (modes (fst s)) (snd s)"

text \<open>How many applies are under way: goroutines, a message in \<open>rebind_chan\<close>, a pending second phase.\<close>

definition flight :: "daemon_state \<Rightarrow> nat" where
  "flight s = length (filter is_apply (snd s)) + of_bool (rebind_chan (fst s) \<noteq> None) + of_bool (pending_enable (fst s))"

text \<open>A step that leaves the applies alone.\<close>

definition quiet :: "daemon \<Rightarrow> daemon \<Rightarrow> bool" where
  "quiet d d' \<longleftrightarrow> (wf_daemon d \<longrightarrow> wf_daemon d') \<and> shape (modes d') = shape (modes d) \<and> controller d' = controller d \<and>
     mode_changing d' = mode_changing d \<and> rebind_chan d' = rebind_chan d \<and> pending_enable d' = pending_enable d \<and>
     pending_apply d' = pending_apply d \<and> (stopped d \<longrightarrow> stopped d')"

text \<open>The main loop woken up: nothing, or the message moved from the channel to the loop.\<close>

definition woken :: "daemon \<Rightarrow> daemon \<Rightarrow> bool" where
  "woken d d' \<longleftrightarrow> quiet d d' \<or> (\<exists>t. rebind_chan d = Some t \<and>
     d' = d\<lparr>rebind_chan := None, enable_deadline := t, pending_enable := True\<rparr>)"

lemma take_wakeup_woken: "take_wakeup t s d = Some d' \<Longrightarrow> woken d d'"
  by (auto simp: take_wakeup_def woken_def quiet_def with_input_def split: wakeup.splits option.splits if_splits)

lemma woken_modes: "woken d d' \<Longrightarrow> shape (modes d') = shape (modes d)"
  unfolding woken_def by (elim disjE exE) (simp_all add: quiet_def)

lemma simulate_quiet: "SimulateButton t target count d = (err, d') \<Longrightarrow> quiet d d'"
proof -
  have "(with_input f ^^ n) d = d\<lparr>input_device := (f ^^ n) (input_device d)\<rparr>" for f n
    by (induction n) (simp_all add: with_input_def)
  then show "SimulateButton t target count d = (err, d') \<Longrightarrow> quiet d d'"
    by (auto simp: SimulateButton_def Let_def quiet_def with_input_def split: simulate_target.splits if_splits)
qed

text \<open>The mode the daemon names and the one last known to be good.\<close>

definition same_names :: "daemon \<Rightarrow> daemon \<Rightarrow> bool" where
  "same_names d d' \<longleftrightarrow> current_mode d' = current_mode d \<and> mode_changed d' = mode_changed d \<and> last_good d' = last_good d"

lemma woken_names: "take_wakeup t s d = Some d' \<Longrightarrow> same_names d d'"
  by (auto simp: take_wakeup_def same_names_def with_input_def last_good_def split: wakeup.splits option.splits if_splits)

lemma simulate_names: "SimulateButton t target count d = (err, d') \<Longrightarrow> same_names d d'"
proof -
  have "(with_input f ^^ n) d = d\<lparr>input_device := (f ^^ n) (input_device d)\<rparr>" for f n
    by (induction n) (simp_all add: with_input_def)
  then show "SimulateButton t target count d = (err, d') \<Longrightarrow> same_names d d'"
    by (auto simp: SimulateButton_def Let_def same_names_def last_good_def with_input_def split: simulate_target.splits if_splits)
qed

lemma step_view [consumes 2, case_names quiet round task drop]:
  assumes "daemon_step (d, ts) (d', ts')" "sys_inv cfg (d, ts)"
  obtains (quiet) "quiet d d'" "same_names d d'" "ts' = ts"
  | (round) d0 due new where "woken d d0" "same_names d d0" "round_ok due d0 new d'" "ts' = ts @ new"
  | (task) xs t ys new where "ts = xs @ t # ys" "task_ok t d new d'" "ts' = xs @ new @ ys"
  | (drop) xs u ys where "ts = xs @ TaskSend u # ys" "stopped d" "d' = d" "ts' = xs @ ys"
  using assms(1)
proof cases
  case (round s w new)
  then obtain d0 w' where d0: "take_wakeup (clock w) s d = Some d0" "run_state (handle_events d0) w = ((new, d'), w')"
    by (auto simp: main_round_def prod_eq_iff)
  have "woken d d0" by (rule take_wakeup_woken [OF d0(1)])
  moreover from this assms(2) have "wf_daemon d0"
    by (auto simp: woken_def quiet_def sys_inv_def)
  ultimately show thesis using handle_events_round_ok [OF _ d0(2)] woken_names [OF d0(1)] round(1) that(2) by blast
next
  case (task w t new xs ys)
  have "wf_daemon d" "targets_ok (modes d) [t]" using assms(2) task(1) by (simp_all add: sys_inv_def)
  from that(3) [OF task(1) run_task_ok [OF this(1) task(3) this(2)] task(2)] show thesis .
next
  case (drop xs t ys)
  then show thesis by (intro that(4)) (auto simp: rebind_drop_def split: if_splits)
next
  case (gadget spec)
  then show thesis
    by (intro that(1)) (auto simp: RequestGadget_def daemon_signal_wake_def quiet_def same_names_def last_good_def split: if_splits)
next
  case (button t target count err)
  then show thesis by (intro that(1)) (auto intro: simulate_quiet simulate_names)
qed (auto intro!: that(1) simp: quiet_def same_names_def last_good_def SetTurnOffLeds_def daemon_Stop_def with_input_def)

lemma round_targets_ok: "round_ok due d new d' \<Longrightarrow> targets_ok ms new"
  unfolding round_ok_def by (elim conjE exE) (auto split: if_splits)

lemma sys_inv_step:
  assumes "daemon_step s s'" "sys_inv cfg s"
  shows "sys_inv cfg s'"
proof -
  obtain d ts d' ts' where s: "s = (d, ts)" "s' = (d', ts')" by (metis surj_pair)
  have inv: "wf_daemon d" "shape (modes d) = cfg" "targets_ok (modes d) ts" using assms(2) by (simp_all add: s sys_inv_def)
  note mono = targets_ok_shape [of "modes d'" "modes d"]
  have "wf_daemon d' \<and> shape (modes d') = shape (modes d) \<and> targets_ok (modes d') ts'"
    using assms [unfolded s]
  proof (cases rule: step_view)
    case quiet
    with inv mono show ?thesis by (simp add: quiet_def)
  next
    case (round d0 due new)
    have "wf_daemon d'" "shape (modes d') = shape (modes d)"
      using round(3) woken_modes [OF round(1)] by (simp_all add: round_ok_def)
    with mono inv(3) round(4) round_targets_ok [OF round(3)] show ?thesis by simp
  next
    case (task xs t ys new)
    with inv mono show ?thesis by (simp add: task_ok_def)
  next
    case drop
    with inv show ?thesis by simp
  qed
  with inv(2) show ?thesis by (simp add: s sys_inv_def)
qed

lemma flight_simps [simp]:
  "flight (d, xs @ ys) = length (filter is_apply xs) + flight (d, ys)"
  "flight (d, t # ts) = of_bool (is_apply t) + flight (d, ts)"
  by (simp_all add: flight_def)

text \<open>Up to \<open>k\<close> applies more than the flag \<open>mode_changing\<close> says.\<close>

definition flight_bound :: "nat \<Rightarrow> daemon_state \<Rightarrow> bool" where
  "flight_bound k s \<longleftrightarrow> flight s \<le> of_bool (mode_changing (fst s)) + k"

text \<open>Exactly as many as the flag says, unless the daemon is being stopped.\<close>

definition flight_exact :: "daemon_state \<Rightarrow> bool" where
  "flight_exact s \<longleftrightarrow> flight_bound 0 s \<and> (\<not> stopped (fst s) \<longrightarrow> flight s = of_bool (mode_changing (fst s)))"

lemma quiet_flight: "quiet d d' \<Longrightarrow> flight (d', ts) = flight (d, ts) \<and> mode_changing d' = mode_changing d \<and> (stopped d \<longrightarrow> stopped d')"
  by (simp add: quiet_def flight_def)

lemma woken_flight:
  assumes "woken d d'"
  shows "flight (d', ts) \<le> flight (d, ts)" "mode_changing d' = mode_changing d" "stopped d \<longrightarrow> stopped d'"
    "flight (d, ts) \<le> 1 \<Longrightarrow> flight (d', ts) = flight (d, ts)"
proof -
  have "flight (d', ts) \<le> flight (d, ts) \<and> mode_changing d' = mode_changing d \<and> (stopped d \<longrightarrow> stopped d') \<and>
      (flight (d, ts) \<le> 1 \<longrightarrow> flight (d', ts) = flight (d, ts))"
    using assms unfolding woken_def
  proof (elim disjE exE conjE)
    assume "quiet d d'"
    with quiet_flight [of d d' ts] show ?thesis by simp
  qed (simp add: flight_def)
  then show "flight (d', ts) \<le> flight (d, ts)" "mode_changing d' = mode_changing d" "stopped d \<longrightarrow> stopped d'"
    "flight (d, ts) \<le> 1 \<Longrightarrow> flight (d', ts) = flight (d, ts)"
    by simp_all
qed

lemma round_flight:
  assumes "round_ok due d new d'"
  shows "stopped d' = stopped d" and
    "flight (d', ts @ new) = flight (d, ts) \<and> mode_changing d' = mode_changing d \<or>
     flight (d', ts @ new) = Suc (flight (d, ts)) \<and> \<not> mode_changing d \<and> mode_changing d'"
proof -
  show "stopped d' = stopped d" using assms by (simp add: round_ok_def)
  obtain start where start: "new = (if pending_enable d \<and> due then [TaskFinish] else []) @ start"
    "start = [] \<and> mode_changing d' = mode_changing d \<or> start = [TaskApply] \<and> \<not> mode_changing d \<and> mode_changing d'"
    and d': "rebind_chan d' = rebind_chan d" "pending_enable d' = (pending_enable d \<and> \<not> due)"
    using assms unfolding round_ok_def by blast
  have "flight (d', ts @ new) = flight (d, ts) + length (filter is_apply start)"
    by (cases "pending_enable d"; cases due) (simp_all add: start(1) d' flight_def)
  with start(2) show "flight (d', ts @ new) = flight (d, ts) \<and> mode_changing d' = mode_changing d \<or>
     flight (d', ts @ new) = Suc (flight (d, ts)) \<and> \<not> mode_changing d \<and> mode_changing d'"
    by auto
qed

lemma task_flight:
  assumes "task_ok t d new d'"
  shows "stopped d' = stopped d" and
    "flight (d', xs @ new @ ys) = flight (d, xs @ t # ys) \<and>
        (mode_changing d' = mode_changing d \<or> mode_changing d' \<and> is_apply t) \<or>
     Suc (flight (d', xs @ new @ ys)) = flight (d, xs @ t # ys) \<and> \<not> mode_changing d'"
proof -
  have r: "pending_enable d' = pending_enable d" using assms by (simp add: task_ok_def)
  show "stopped d' = stopped d" using assms by (simp add: task_ok_def)
  show "flight (d', xs @ new @ ys) = flight (d, xs @ t # ys) \<and>
        (mode_changing d' = mode_changing d \<or> mode_changing d' \<and> is_apply t) \<or>
     Suc (flight (d', xs @ new @ ys)) = flight (d, xs @ t # ys) \<and> \<not> mode_changing d'"
    using task_counts [OF assms] r by (auto simp: flight_def)
qed

lemma apply_in_flight: "is_apply t \<Longrightarrow> 0 < flight (d, xs @ t # ys)"
  by (simp add: flight_def)

lemma flight_bound_step:
  assumes "daemon_step s s'" "sys_inv cfg s" "flight_bound k s"
  shows "flight_bound k s'"
proof -
  obtain d ts d' ts' where s: "s = (d, ts)" "s' = (d', ts')" by (metis surj_pair)
  have b: "flight (d, ts) \<le> of_bool (mode_changing d) + k" using assms(3) by (simp add: flight_bound_def s)
  have "flight (d', ts') \<le> of_bool (mode_changing d') + k"
    using assms(1,2) [unfolded s]
  proof (cases rule: step_view)
    case quiet
    with b quiet_flight [of d d' ts] show ?thesis by simp
  next
    case (round d0 due new)
    with b woken_flight(1) [OF round(1), of ts] woken_flight(2) [OF round(1)] round_flight(2) [OF round(3), of ts] show ?thesis by auto
  next
    case (task xs t ys new)
    with b task_flight(2) [OF task(2), of xs ys] show ?thesis by (auto simp: of_bool_def split: if_splits)
  next
    case drop
    with b show ?thesis by simp
  qed
  then show ?thesis by (simp add: flight_bound_def s)
qed

lemma flight_exact_step:
  assumes "daemon_step s s'" "sys_inv cfg s" "flight_exact s"
  shows "flight_exact s'"
proof -
  obtain d ts d' ts' where s: "s = (d, ts)" "s' = (d', ts')" by (metis surj_pair)
  have "flight_bound 0 s'" using flight_bound_step [OF assms(1,2)] assms(3) by (simp add: flight_exact_def)
  moreover have b: "flight (d, ts) \<le> of_bool (mode_changing d)"
    "\<not> stopped d \<Longrightarrow> flight (d, ts) = of_bool (mode_changing d)"
    using assms(3) by (simp_all add: flight_exact_def flight_bound_def s)
  moreover have "flight (d', ts') = of_bool (mode_changing d')" if "\<not> stopped d'"
    using assms(1,2) [unfolded s]
  proof (cases rule: step_view)
    case quiet
    with b that quiet_flight [of d d' ts] show ?thesis by auto
  next
    case (round d0 due new)
    have "flight (d, ts) \<le> 1" using b(1) by (cases "mode_changing d") simp_all
    then have "flight (d0, ts) = flight (d, ts)" by (rule woken_flight(4) [OF round(1)])
    with b that round(4) woken_flight(2,3) [OF round(1)] round_flight(1) [OF round(3)] round_flight(2) [OF round(3), of ts]
    show ?thesis
      by (cases "mode_changing d"; cases "mode_changing d'") auto
  next
    case (task xs t ys new)
    have f: "flight (d, ts) = of_bool (mode_changing d)" using b(2) that task_flight(1) [OF task(2)] by simp
    have "flight (d', ts') = flight (d, ts) \<and> (mode_changing d' = mode_changing d \<or> mode_changing d' \<and> is_apply t) \<or>
        Suc (flight (d', ts')) = flight (d, ts) \<and> \<not> mode_changing d'"
      unfolding task(1,3) by (rule task_flight(2) [OF task(2)])
    moreover have "is_apply t \<Longrightarrow> 0 < flight (d, ts)" unfolding task(1) by (rule apply_in_flight)
    ultimately show ?thesis
      using f by (cases "mode_changing d"; cases "mode_changing d'") auto
  next
    case drop
    with that show ?thesis by simp
  qed
  ultimately show ?thesis by (simp add: flight_exact_def s)
qed

text \<open>
  While an apply is in its later stages, the gadget is built from exactly the mode it will commit.
\<close>

definition late :: "daemon_state \<Rightarrow> bool" where
  "late s \<longleftrightarrow> TaskFinish \<in> set (snd s) \<or> (\<exists>u. TaskSend u \<in> set (snd s)) \<or> rebind_chan (fst s) \<noteq> None \<or> pending_enable (fst s)"

definition commit_inv :: "daemon_state \<Rightarrow> bool" where
  "commit_inv s \<longleftrightarrow>
     (\<forall>target. TaskWork target False \<in> set (snd s) \<or> TaskEnabled target \<in> set (snd s) \<longrightarrow>
        built_modes (fst s) = [tgt_mode target]) \<and>
     (late s \<longrightarrow> built_modes (fst s) = [tgt_mode (pending_apply (fst s))])"

lemma flight_zero: "flight (d, ts) = 0 \<longleftrightarrow> \<not> list_ex is_apply ts \<and> rebind_chan d = None \<and> \<not> pending_enable d"
  by (auto simp: flight_def list_ex_iff filter_empty_conv)

lemma flight_zero_commit: "flight (d, ts) = 0 \<Longrightarrow> commit_inv (d, ts)"
  unfolding flight_zero commit_inv_def late_def by (auto simp: list_ex_iff)

lemma commit_inv_cong:
  assumes "commit_inv (d, ts)" "built_modes d' = built_modes d" "pending_apply d' = pending_apply d"
    "set ts' \<subseteq> set ts \<union> {t. \<not> is_apply t} \<union> {t. late (d, ts) \<and> t = TaskFinish} \<union> {TaskApply}"
    "rebind_chan d' \<noteq> None \<or> pending_enable d' \<Longrightarrow> late (d, ts)"
  shows "commit_inv (d', ts')"
proof -
  have "TaskWork target False \<in> set ts' \<Longrightarrow> TaskWork target False \<in> set ts"
    "TaskEnabled target \<in> set ts' \<Longrightarrow> TaskEnabled target \<in> set ts" for target
    using assms(4) by fastforce+
  moreover have "late (d', ts') \<Longrightarrow> late (d, ts)"
    using assms(4,5) unfolding late_def by fastforce
  ultimately show ?thesis
    using assms(1-3) by (auto simp: commit_inv_def)
qed

lemma woken_commit: "woken d d' \<Longrightarrow> commit_inv (d, ts) \<Longrightarrow> commit_inv (d', ts)"
  unfolding woken_def
  by (elim disjE exE conjE; erule commit_inv_cong) (auto simp: quiet_def built_modes_def late_def)

lemma round_commit:
  assumes "round_ok due d new d'" "commit_inv (d, ts)"
  shows "commit_inv (d', ts @ new)"
proof -
  obtain start where start: "new = (if pending_enable d \<and> due then [TaskFinish] else []) @ start"
    "start = [] \<or> start = [TaskApply]"
    using assms(1) unfolding round_ok_def by blast
  have d': "controller d' = controller d" "rebind_chan d' = rebind_chan d" "pending_apply d' = pending_apply d"
    "pending_enable d' = (pending_enable d \<and> \<not> due)"
    using assms(1) by (simp_all add: round_ok_def)
  show ?thesis
    by (rule commit_inv_cong [OF assms(2)]) (use start in \<open>auto simp: d' built_modes_def late_def\<close>)
qed

lemma task_commit:
  assumes "task_ok t d new d'" "commit_inv (d, xs @ t # ys)" "flight (d, xs @ t # ys) \<le> 1"
  shows "commit_inv (d', xs @ new @ ys)"
proof (cases "is_apply t")
  case False
  with assms(1) have "built_modes d' = built_modes d" "pending_apply d' = pending_apply d" "\<not> list_ex is_apply new"
    "rebind_chan d' = rebind_chan d" "pending_enable d' = pending_enable d"
    by (cases t; simp add: task_defs carries_on_def same_modes_def)+
  then show ?thesis
    by (intro commit_inv_cong [OF assms(2)]) (auto simp: list_ex_iff late_def)
next
  case True
  with assms(3) have only: "\<not> list_ex is_apply (xs @ ys)" "rebind_chan d = None" "\<not> pending_enable d"
    by (auto simp: flight_def list_ex_iff filter_empty_conv split: if_splits)
  have pe: "\<not> pending_enable d'" using assms(1) only(3) by (simp add: task_ok_def)
  have rest: "TaskFinish \<notin> set (xs @ ys)" "TaskSend u \<notin> set (xs @ ys)" "TaskWork target so \<notin> set (xs @ ys)"
    "TaskEnabled target \<notin> set (xs @ ys)" for u target so
    using only(1) by (metis Bex_set_list_ex is_apply.simps)+
  show ?thesis
    using assms(1,2) True rest only(2) pe
    by (cases t; simp add: task_defs commit_inv_def late_def carries_on_def same_modes_def applied_def;
        (elim conjE disjE exE)?; simp)
qed

lemma commit_inv_step:
  assumes "daemon_step s s'" "sys_inv cfg s" "flight_exact s" "commit_inv s"
  shows "commit_inv s'"
proof -
  obtain d ts d' ts' where s: "s = (d, ts)" "s' = (d', ts')" by (metis surj_pair)
  have f: "flight (d, ts) \<le> 1"
    using assms(3) by (cases "mode_changing d") (simp_all add: s flight_exact_def flight_bound_def)
  show ?thesis
    using assms(1,2) [unfolded s]
  proof (cases rule: step_view)
    case quiet
    with assms(4) woken_commit [of d d' ts] show ?thesis by (simp add: s woken_def)
  next
    case (round d0 due new)
    with assms(4) show ?thesis unfolding s by (blast intro: woken_commit round_commit)
  next
    case (task xs t ys new)
    with assms(4) f show ?thesis unfolding s by (blast intro: task_commit)
  next
    case (drop xs u ys)
    have "commit_inv (d, xs @ ys)"
      by (rule commit_inv_cong) (use assms(4) drop in \<open>auto simp: s late_def\<close>)
    with drop s show ?thesis by simp
  qed
qed

end
