(* ===== verification/Daemon_Init.thy ===== *)
theory Daemon_Init
  imports Daemon_Props
begin

text \<open>
  The start of the daemon, \<open>NewDaemon\<close> and \<open>init\<close> of \<open>core/daemon/daemon.go\<close>: the checks of the
  command line, the input device, the controller, the sequence of modes and the LEDs, up to the
  control bus. The TLS service is in the theory of its own. What \<open>evdev.Open\<close> and \<open>Grab\<close>
  answer, the working directory and the memory size are the \<open>platform\<close>.
\<close>

record platform =
  plat_cwd :: "string option"
  plat_memory :: nat
  plat_open_ok :: bool
  plat_grab_ok :: bool

record daemon_cmd =
  cmd_Devnode :: string
  cmd_LongTapImmediately :: bool
  cmd_LongTapThreshold :: int
  cmd_MultipleTapThreshold :: int
  cmd_AutoConfirmThreshold :: int
  cmd_Leds :: "string list"
  cmd_LedBlinkDuration :: int
  cmd_LedBlinkInterval :: int
  cmd_SubmodeLedDuration :: int
  cmd_UsbConfigFs :: string
  cmd_Gadgets :: "string list"
  cmd_RndisDeviceMac :: "8 word list"
  cmd_RndisHostMac :: "8 word list"
  cmd_RndisIP :: string
  cmd_RndisClientIP :: string
  cmd_RndisClientTimeout :: int
  cmd_RndisIcsTimeout :: int
  cmd_RndisUsbIfname :: string
  cmd_RndisQmult :: nat
  cmd_RndisSerialNumber :: string
  cmd_RndisManufacturer :: string
  cmd_RndisProduct :: string
  cmd_AdbSerialNumber :: string
  cmd_AdbManufacturer :: string
  cmd_AdbProduct :: string
  cmd_AdbEnv :: "string list"
  cmd_DnsmasqArgs :: "string list"
  cmd_IPCAllowOtherUser :: bool
  cmd_TickInterval :: int
  cmd_RebindDelay :: int
  cmd_ShutdownThreshold :: int
  cmd_ShutdownCommand :: string
  cmd_ShutdownShell :: string
  cmd_ShutdownTimeout :: int
  cmd_User :: string
  cmd_Group :: string
  cmd_TlsService :: "string list"
  cmd_TlsRootKey :: string
  cmd_TlsRootCert :: string
  cmd_TlsAlgorithm :: string
  cmd_TlsLeafDuration :: int
  cmd_TlsAllow :: "string list"

datatype daemon_error =
    NotInputDevice string
  | NotConfigFs string
  | NotLedDevice string
  | NotIPAddress string
  | NotIPv4Address string
  | ClientTimeoutNotPositive
  | IcsTimeoutNotPositive
  | ShutdownBelowLongTap
  | CannotCreateInput input_error
  | CannotOpenInput input_exit_status
  | NegativeRebindDelay
  | CannotInitGadget usb_error
  | BadGadgetSpec gadget_error
  | NoSuchGadgetType string
  | GadgetHasNoSubmode string int int

definition is_valid_config_fs :: "platform \<Rightarrow> string \<Rightarrow> bool io" where
  "is_valid_config_fs plat path = do {
     st \<leftarrow> IsValidPath (plat_cwd plat) path ''/sys/kernel/config/usb_gadget/'' False True;
     return (st = PATH_ERROR_NOT_EXISTS \<or> st = PATH_STATUS_OK)
   }"

text \<open>\<open>net.HardwareAddr.String\<close>: two lower-case hex digits a byte, separated by colons.\<close>

definition mac_String :: "8 word list \<Rightarrow> string" where
  "mac_String mac = Join '':'' (map (\<lambda>b. [hex_digit (unat b div 16), hex_digit (unat b mod 16)]) mac)"

text \<open>The checks of the arguments, with the two addresses they parse.\<close>

definition init_validate :: "platform \<Rightarrow> daemon_cmd \<Rightarrow> (daemon_error, prefix_ip \<times> addr) result io" where
  "init_validate plat cmd = do {
     dev \<leftarrow> (if cmd_Devnode cmd = [] then return PATH_STATUS_OK
            else IsValidPath (plat_cwd plat) (cmd_Devnode cmd) ''/dev/input/'' True True);
     if dev \<noteq> PATH_STATUS_OK then return (Inl (NotInputDevice (cmd_Devnode cmd)))
     else do {
       fs_ok \<leftarrow> is_valid_config_fs plat (cmd_UsbConfigFs cmd);
       if \<not> fs_ok then return (Inl (NotConfigFs (cmd_UsbConfigFs cmd)))
       else do {
         bad_led \<leftarrow> for_io (cmd_Leds cmd) (\<lambda>devnode. do {
           st \<leftarrow> IsValidPath (plat_cwd plat) devnode ''/sys/class/leds/'' False True;
           return (if st \<noteq> PATH_STATUS_OK then Some devnode else None)
         });
         return (case bad_led of
             Some devnode \<Rightarrow> Inl (NotLedDevice devnode)
           | None \<Rightarrow>
               (case ParsePrefix (cmd_RndisIP cmd) of
                  None \<Rightarrow> Inl (NotIPAddress (cmd_RndisIP cmd))
                | Some ip \<Rightarrow>
                    (case ParseAddr (cmd_RndisClientIP cmd) of
                       None \<Rightarrow> Inl (NotIPv4Address (cmd_RndisClientIP cmd))
                     | Some client \<Rightarrow>
                         if \<not> Is4 client then Inl (NotIPv4Address (cmd_RndisClientIP cmd))
                         else if cmd_RndisClientTimeout cmd \<le> 0 then Inl ClientTimeoutNotPositive
                         else if cmd_RndisIcsTimeout cmd \<le> 0 then Inl IcsTimeoutNotPositive
                         else if 0 < cmd_ShutdownThreshold cmd \<and> cmd_ShutdownThreshold cmd \<le> cmd_LongTapThreshold cmd
                         then Inl ShutdownBelowLongTap
                         else Inr (ip, client))))
       }
     }
   }"

definition input_config_of :: "daemon_cmd \<Rightarrow> input_config" where
  "input_config_of cmd =
     \<lparr>LongTapImmediately = cmd_LongTapImmediately cmd, LongTapThreshold = cmd_LongTapThreshold cmd,
      MultipleTapThreshold = cmd_MultipleTapThreshold cmd, MultipleTapMaxCount = 0\<rparr>"

definition init_input :: "platform \<Rightarrow> daemon_cmd \<Rightarrow> (daemon_error, input_device) result io" where
  "init_input plat cmd =
     (if cmd_Devnode cmd = [] then return (Inr (NewSyntheticDevice (Some (input_config_of cmd))))
      else do {
        created \<leftarrow> NewDevice (plat_cwd plat) (cmd_Devnode cmd) (Some (input_config_of cmd));
        return (case created of
            Inl e \<Rightarrow> Inl (CannotCreateInput e)
          | Inr dev \<Rightarrow>
              (case Open (plat_open_ok plat) (plat_grab_ok plat) dev of
                 (st, dev) \<Rightarrow> if st \<noteq> DEVICE_STATUS_NORMAL then Inl (CannotOpenInput st) else Inr dev))
      })"

text \<open>One entry of the sequence of gadgets.\<close>

definition make_mode :: "daemon_cmd \<Rightarrow> prefix_ip \<Rightarrow> addr \<Rightarrow> string \<Rightarrow> (daemon_error, gadget_function) result" where
  "make_mode cmd ip client spec =
     (case parse_gadget_spec spec of
        Inl e \<Rightarrow> Inl (BadGadgetSpec e)
      | Inr (name, submode) \<Rightarrow>
          (let q = (if 0 < cmd_RndisQmult cmd then Utoa (cmd_RndisQmult cmd) else []);
               made =
                 (if name = ''rndis'' then
                    Some (FnRndis (NewUsbGadgetRndis ip (PROJECT_IDENT @ ''_'') (mac_String (cmd_RndisDeviceMac cmd))
                      (mac_String (cmd_RndisHostMac cmd)) (cmd_RndisUsbIfname cmd) q (cmd_DnsmasqArgs cmd) client
                      (cmd_RndisClientTimeout cmd) (cmd_RndisIcsTimeout cmd) (cmd_RndisSerialNumber cmd)
                      (cmd_RndisManufacturer cmd) (cmd_RndisProduct cmd)))
                  else if name = ''adb'' then
                    Some (FnAdb (NewUsbGadgetAdb ''/dev/usb-ffs/adb'' (cmd_AdbSerialNumber cmd)
                      (cmd_AdbManufacturer cmd) (cmd_AdbProduct cmd)
                      (if cmd_AdbEnv cmd = [] then [''TERM=xterm-256color''] else cmd_AdbEnv cmd)
                      (cmd_User cmd) (cmd_Group cmd)))
                  else None)
           in case made of
                None \<Rightarrow> Inl (NoSuchGadgetType name)
              | Some mode \<Rightarrow>
                  if MaxSubmode mode < submode then Inl (GadgetHasNoSubmode name submode (MaxSubmode mode))
                  else Inr (fn_SetSubmode submode mode)))"

fun make_modes :: "daemon_cmd \<Rightarrow> prefix_ip \<Rightarrow> addr \<Rightarrow> string list \<Rightarrow> (daemon_error, gadget_function list) result" where
  "make_modes cmd ip client [] = Inr []"
| "make_modes cmd ip client (spec # specs) =
     (case make_mode cmd ip client spec of
        Inl e \<Rightarrow> Inl e
      | Inr mode \<Rightarrow>
          (case make_modes cmd ip client specs of Inl e \<Rightarrow> Inl e | Inr ms \<Rightarrow> Inr (mode # ms)))"

fun load_led_interpreters :: "platform \<Rightarrow> string list \<Rightarrow> led_interpreter option list io" where
  "load_led_interpreters plat [] = return []"
| "load_led_interpreters plat (devnode # devnodes) = do {
     created \<leftarrow> NewLed (plat_cwd plat) (plat_memory plat) devnode;
     slot \<leftarrow> (case created of
               Inl _ \<Rightarrow> return None
             | Inr l \<Rightarrow> do {
                 (err, itp) \<leftarrow> Tick (SetMode MODE_PRESET_OFF (NewLedInterpreter l));
                 return (if err \<noteq> None then None else Some itp)
               });
     slots \<leftarrow> load_led_interpreters plat devnodes;
     return (slot # slots)
   }"

text \<open>The daemon \<open>init\<close> leaves, from its parts; \<open>first_apply\<close> and the status are set by \<open>NewDaemon\<close>.\<close>

definition init_daemon ::
  "daemon_cmd \<Rightarrow> input_device \<Rightarrow> usb_gadget_controller \<Rightarrow> gadget_function list \<Rightarrow> led_interpreter option list \<Rightarrow> daemon" where
  "init_daemon cmd dev ctl ms itps =
     \<lparr>input_device = dev, controller = ctl, interpreters = itps, modes = ms, current_mode = 0,
      current_mode_rndis = is_rndis (ms ! 0), mode_changed = False, mode_changing = False, submode_changed = False,
      reapply = False, first_apply = True, apply_done = False, led_init_done = False, turn_off_leds = False,
      ipc_allow_other_user = cmd_IPCAllowOtherUser cmd, submode_selection = False, submode_entry_done = True,
      submode_entry_mode = ModeDone (Wait (cmd_SubmodeLedDuration cmd) (Off NewLedMode)),
      LED_MODE_BLINK = ModeDone (Wait (cmd_LedBlinkInterval cmd) (OnDuration (cmd_LedBlinkDuration cmd) NewLedMode)),
      shutdown_threshold = cmd_ShutdownThreshold cmd, shutdown_command = cmd_ShutdownCommand cmd,
      shutdown_shell = cmd_ShutdownShell cmd, shutdown_timeout = cmd_ShutdownTimeout cmd, shutting_down = False, stopped = False, gadget_reqs = [],
      gadget_resps = [], rebind_chan = None, rebind_delay = cmd_RebindDelay cmd, pending_enable = False,
      enable_deadline = 0, pending_apply = \<lparr>tgt_mode = 0, tgt_submode = 0\<rparr>, last_good_mode = 0,
      last_good_submode = GetSubmode (ms ! 0), apply_error = False, status = ''initing'', effect_kind = [],
      wake_chan = False\<rparr>"

definition NewDaemon :: "platform \<Rightarrow> daemon_cmd \<Rightarrow> (daemon_error, daemon) result io" where
  "NewDaemon plat cmd = do {
     valid \<leftarrow> init_validate plat cmd;
     (case valid of
        Inl e \<Rightarrow> return (Inl e)
      | Inr (ip, client) \<Rightarrow> do {
          input \<leftarrow> init_input plat cmd;
          (case input of
             Inl e \<Rightarrow> return (Inl e)
           | Inr dev \<Rightarrow>
               if cmd_RebindDelay cmd < 0 then return (Inl NegativeRebindDelay)
               else do {
                 ctl \<leftarrow> NewUsbGadgetController (cmd_UsbConfigFs cmd);
                 (case ctl of
                    Inl e \<Rightarrow> return (Inl (CannotInitGadget e))
                  | Inr ctl \<Rightarrow>
                      (case make_modes cmd ip client
                              (if cmd_Gadgets cmd = [] then [''rndis'', ''adb''] else cmd_Gadgets cmd) of
                         Inl e \<Rightarrow> return (Inl e)
                       | Inr ms \<Rightarrow> do {
                           itps \<leftarrow> load_led_interpreters plat (cmd_Leds cmd);
                           return (Inr (init_daemon cmd dev (ClearFunctions ctl) ms itps))
                         }))
               })
        })
   }"

text \<open>The state in which the main loop enters its first round: the LED loops run, the first apply and
  the LED indication have been launched.\<close>

definition main_start :: "daemon \<Rightarrow> daemon_state" where
  "main_start d = (start_led_interpreters d, start_tasks)"

section \<open>What \<open>NewDaemon\<close> builds\<close>

lemma new_function_simps [simp]:
  "GetName (FnRndis (NewUsbGadgetRndis ip conn dev host ifn q args client timeout ics serial manu prd)) = ''rndis''"
  "MaxSubmode (FnRndis (NewUsbGadgetRndis ip conn dev host ifn q args client timeout ics serial manu prd)) = 1"
  "MaxSubmode (FnAdb (NewUsbGadgetAdb path serial manu prd es user grp)) = 0"
  "GetName (FnAdb a) = ''adb''"
  by (simp_all add: fn_access_defs NewUsbGadgetRndis_def SnapshotUsbGadgetRndis_def NewUsbGadgetAdb_def
      SnapshotUsbGadgetAdb_def adb_GetName_def)

lemma GetName_SetSubmode [simp]: "GetName (fn_SetSubmode m f) = GetName f"
  using fn.others_put(2) [of m f] by (simp add: fn_ident_def)

lemma make_mode_spec:
  assumes "make_mode cmd ip client spec = Inr mode"
  shows "parse_gadget_spec spec = Inr (GetName mode, GetSubmode mode)" "fn.submode_ok mode"
  using assms parse_gadget_spec_nonneg [of spec]
  by (auto simp: make_mode_def Let_def fn.submode_ok_def fn.submode_put fn.others_put
      split: sum.splits prod.splits if_splits)

lemma make_modes_spec:
  "make_modes cmd ip client specs = Inr ms \<Longrightarrow>
     list_all2 (\<lambda>spec mode. parse_gadget_spec spec = Inr (GetName mode, GetSubmode mode)) specs ms \<and>
     list_all fn.submode_ok ms"
proof (induction cmd ip client specs arbitrary: ms rule: make_modes.induct)
  case (2 cmd ip client spec specs)
  then show ?case by (auto split: sum.splits dest: make_mode_spec)
qed simp

lemma init_daemon_wf:
  assumes "ms \<noteq> []" "list_all fn.submode_ok ms"
  shows "wf_daemon (init_daemon cmd dev ctl ms itps)"
proof -
  have "fn.submode_ok (ms ! 0)" using assms by (cases ms) simp_all
  with assms show ?thesis
    by (simp add: wf_daemon_def modes_ok_def target_ok_def last_good_def init_daemon_def fn.submode_ok_def)
qed

lemma init_input_inv:
  assumes "run_state (init_input plat cmd) w = (Inr dev, w')"
  shows "input_inv dev" "Config dev = default_config (Some (input_config_of cmd))"
  using assms
  by (auto simp: init_input_def NewDevice_def NewSyntheticDevice_def Let_def Open_def input_inv_def raw_queue_def
      split: if_splits sum.splits prod.splits)

text \<open>What \<open>NewDaemon\<close> has checked and built when it succeeds.\<close>

lemma NewDaemon_result:
  assumes "run_state (NewDaemon plat cmd) w = (Inr d, w')"
  obtains ip client dev ctl ms itps where
    "d = init_daemon cmd dev ctl ms itps" "\<exists>v v'. run_state (init_validate plat cmd) v = (Inr (ip, client), v')"
    "\<exists>v v'. run_state (init_input plat cmd) v = (Inr dev, v')" "0 \<le> cmd_RebindDelay cmd"
    "make_modes cmd ip client (if cmd_Gadgets cmd = [] then [''rndis'', ''adb''] else cmd_Gadgets cmd) = Inr ms"
    "target_functions ctl = []"
  using assms
  by (fastforce simp: NewDaemon_def not_less ClearFunctions_def reset_functions_def
      split: sum.splits prod.splits if_splits)

lemma NewDaemon_wf:
  assumes "run_state (NewDaemon plat cmd) w = (Inr d, w')"
  shows "wf_daemon d" "\<not> mode_changing d" "rebind_chan d = None" "\<not> pending_enable d" "\<not> stopped d" "\<not> shutting_down d"
    "input_inv (input_device d)" "\<not> submode_changed d"
proof -
  obtain ip client dev ctl ms itps where d: "d = init_daemon cmd dev ctl ms itps"
    and dev: "\<exists>v v'. run_state (init_input plat cmd) v = (Inr dev, v')"
    and ms: "make_modes cmd ip client (if cmd_Gadgets cmd = [] then [''rndis'', ''adb''] else cmd_Gadgets cmd) = Inr ms"
    using NewDaemon_result [OF assms] by metis
  from make_modes_spec [OF ms] have "ms \<noteq> []" "list_all fn.submode_ok ms"
    by (auto simp: list_all2_conv_all_nth split: if_splits)
  then show "wf_daemon d" unfolding d by (rule init_daemon_wf)
  show "input_inv (input_device d)" using dev init_input_inv by (auto simp: d init_daemon_def)
  show "\<not> mode_changing d" "rebind_chan d = None" "\<not> pending_enable d" "\<not> stopped d" "\<not> shutting_down d"
    "\<not> submode_changed d"
    by (simp_all add: d init_daemon_def)
qed

section \<open>A sample daemon\<close>

definition sample_cmd :: daemon_cmd where
  "sample_cmd =
     \<lparr>cmd_Devnode = [], cmd_LongTapImmediately = True, cmd_LongTapThreshold = 500000000,
      cmd_MultipleTapThreshold = 500000000, cmd_AutoConfirmThreshold = 5000000000, cmd_Leds = [], cmd_LedBlinkDuration = 100000000,
      cmd_LedBlinkInterval = 300000000, cmd_SubmodeLedDuration = 750000000,
      cmd_UsbConfigFs = ''/sys/kernel/config/usb_gadget/g1'', cmd_Gadgets = [''adb'', ''rndis.1''],
      cmd_RndisDeviceMac = [2, 18, 52, 86, 120, 154], cmd_RndisHostMac = [2, 152, 118, 84, 50, 16],
      cmd_RndisIP = ''10.22.33.1/24'', cmd_RndisClientIP = ''0.0.0.33'', cmd_RndisClientTimeout = 1500000000,
      cmd_RndisIcsTimeout = 2000000000, cmd_RndisUsbIfname = ''usb0'', cmd_RndisQmult = 8,
      cmd_RndisSerialNumber = ''s'', cmd_RndisManufacturer = ''m'', cmd_RndisProduct = ''p'',
      cmd_AdbSerialNumber = ''s'', cmd_AdbManufacturer = ''m'', cmd_AdbProduct = ''p'', cmd_AdbEnv = [],
      cmd_DnsmasqArgs = [], cmd_IPCAllowOtherUser = False, cmd_TickInterval = 50000000, cmd_RebindDelay = 500000000,
      cmd_ShutdownThreshold = 5000000000, cmd_ShutdownCommand = ''poweroff'', cmd_ShutdownShell = [],
      cmd_ShutdownTimeout = 30000000000, cmd_User = [], cmd_Group = [], cmd_TlsService = [], cmd_TlsRootKey = [],
      cmd_TlsRootCert = [], cmd_TlsAlgorithm = ''ecdsa-p384'', cmd_TlsLeafDuration = 93600000000000, cmd_TlsAllow = []\<rparr>"

definition sample_platform :: platform where
  "sample_platform = \<lparr>plat_cwd = Some ''/'', plat_memory = 4096, plat_open_ok = True, plat_grab_ok = True\<rparr>"

text \<open>A machine on which calls succeed and the gadget directory does not exist yet.\<close>

definition dir_world :: world where
  "dir_world = fine_world\<lparr>env := \<lambda>h c. (case c of
     Stat f \<Rightarrow> (if f = ''/sys/kernel/config/usb_gadget/g1'' then Fail NotExist else Done [''dir''], 1)
   | _ \<Rightarrow> fine_env h c)\<rparr>"

definition sample_daemon :: daemon where
  "sample_daemon = init_daemon sample_cmd (NewSyntheticDevice (Some (input_config_of sample_cmd)))
     \<lparr>ctl_ctx = \<lparr>ctx_state = True, ctx_gadget = False, ctx_config = False,
        cfg_root = ''/sys/kernel/config'', ctx_config_fs = ''/sys/kernel/config/usb_gadget/g1'', gadget_name = ''g1''\<rparr>,
      ctl_config_fs = ''/sys/kernel/config/usb_gadget/g1'', current_functions = [], target_functions = []\<rparr>
     [FnAdb (NewUsbGadgetAdb ''/dev/usb-ffs/adb'' ''s'' ''m'' ''p'' [''TERM=xterm-256color''] [] []),
      FnRndis (SetSubmode 1 (NewUsbGadgetRndis \<lparr>pfx_addr = Addr4 0x0a162101, pfx_bits = 24\<rparr>
        ''miruku-wifi-stick-usb-switcher_'' ''02:12:34:56:78:9a'' ''02:98:76:54:32:10'' ''usb0'' ''8'' [] (Addr4 33)
        1500000000 2000000000 ''s'' ''m'' ''p''))] []"

definition sample_world :: world where
  "sample_world = snd (run_state (NewDaemon sample_platform sample_cmd) dir_world)"

lemma new_sample: "run_state (NewDaemon sample_platform sample_cmd) dir_world = (Inr sample_daemon, sample_world)"
proof -
  have "fst (run_state (NewDaemon sample_platform sample_cmd) dir_world) = Inr sample_daemon" by code_simp
  then show ?thesis by (simp add: sample_world_def prod_eq_iff)
qed

lemma sample_daemon_wf: "wf_daemon sample_daemon"
  by (rule NewDaemon_wf(1) [OF new_sample])

end
