(* ===== verification/Daemon_Requests.thy ===== *)
theory Daemon_Requests
  imports Daemon_Init
begin

text \<open>
  What the inputs of the daemon do: gadget requests of the control bus, taps and simulated buttons,
  and the long press that shuts the device down.
\<close>

section \<open>Gadget requests\<close>

text \<open>When a request is accepted, and the mode and submode it names.\<close>

definition request_names :: "string \<Rightarrow> daemon \<Rightarrow> (nat \<times> int) option" where
  "request_names spec d =
     (case parse_gadget_spec spec of
        Inl _ \<Rightarrow> None
      | Inr (name, m) \<Rightarrow>
          (case find_mode name 0 (modes d) of
             None \<Rightarrow> None
           | Some i \<Rightarrow> if MaxSubmode (modes d ! i) < m then None else Some (i, m)))"

lemma request_names_Some:
  assumes "request_names spec d = Some (i, m)"
  shows "i < length (modes d)" "0 \<le> m" "m \<le> MaxSubmode (modes d ! i)" "parse_gadget_spec spec = Inr (GetName (modes d ! i), m)"
  using assms find_mode_Some [of _ 0 "modes d"] parse_gadget_spec_nonneg [of spec]
  by (auto simp: request_names_def split: sum.splits prod.splits option.splits if_splits)

lemma handle_gadget_request_None:
  "TrimSpace spec \<noteq> [] \<Longrightarrow> request_names (TrimSpace spec) d = None \<Longrightarrow>
     \<exists>e. handle_gadget_request spec d = (\<lparr>resp_gadget = [], resp_err = Some e\<rparr>, d)"
  by (auto simp: request_names_def handle_gadget_request_def Let_def
      split: sum.splits prod.splits option.splits if_splits)

lemma handle_gadget_request_Some:
  assumes "TrimSpace spec \<noteq> []" "request_names (TrimSpace spec) d = Some (i, m)"
  shows "handle_gadget_request spec d =
     (let d' = (if i \<noteq> current_mode d then
                  (set_mode_submode i m (set_current_mode i d))\<lparr>mode_changed := True, submode_changed := False\<rparr>
                else if GetSubmode (modes d ! i) \<noteq> m then
                  (set_mode_submode i m d)\<lparr>mode_changed := True, submode_changed := True\<rparr>
                else d)
      in (\<lparr>resp_gadget = current_gadget_spec d', resp_err = None\<rparr>, d'))"
  using assms
  by (auto simp: request_names_def handle_gadget_request_def Let_def
      split: sum.splits prod.splits option.splits if_splits)



section \<open>Taps\<close>

definition normal_tap :: "input_event \<Rightarrow> bool" where
  "normal_tap e \<longleftrightarrow> ev_Status e = DEVICE_STATUS_NORMAL \<and> ev_Type e = INPUT_TAP"

lemma handle_tap_mode:
  assumes "normal_tap e" "\<not> submode_selection d"
  shows "handle_event e d = (set_current_mode ((current_mode d + 1) mod length (modes d)) d)
     \<lparr>mode_changed := True, submode_changed := False\<rparr>"
  using assms by (simp add: handle_event_def normal_tap_def)

lemma handle_tap_submode:
  assumes "normal_tap e" "submode_selection d"
  shows "handle_event e d = (set_mode_submode (current_mode d) (go_mod (GetSubmode (modes d ! current_mode d) + 1)
       (MaxSubmode (modes d ! current_mode d) + 1)) d)\<lparr>mode_changed := True, submode_changed := True\<rparr>"
  using assms by (simp add: handle_event_def normal_tap_def Let_def)



text \<open>In the submode selection, taps cycle through the submodes of the current mode instead and
  schedule a reconfiguration without a rebuild; the mode stays.\<close>

theorem taps_cycle_submodes:
  assumes "wf_daemon d" and "submode_selection d" and "list_all normal_tap es"
  shows "current_mode (fold handle_event es d) = current_mode d \<and>
    GetSubmode (modes (fold handle_event es d) ! current_mode d) =
      (GetSubmode (modes d ! current_mode d) + int (length es)) mod (MaxSubmode (modes d ! current_mode d) + 1) \<and>
    (es \<noteq> [] \<longrightarrow> mode_changed (fold handle_event es d) \<and> submode_changed (fold handle_event es d))"
  using assms
proof (induction es arbitrary: d)
  case Nil
  with current_ok [of d] show ?case by (simp add: fn.submode_ok_def)
next
  case (Cons e es)
  define d1 where "d1 = handle_event e d"
  define f where "f = modes d ! current_mode d"
  have d1: "d1 = (set_mode_submode (current_mode d) (go_mod (GetSubmode f + 1) (MaxSubmode f + 1)) d)
      \<lparr>mode_changed := True, submode_changed := True\<rparr>"
    unfolding d1_def f_def by (rule handle_tap_submode) (use Cons.prems in simp_all)
  have ok: "fn.submode_ok f" "current_mode d < length (modes d)"
    using Cons.prems(1) current_ok [of d] by (simp_all add: f_def wf_daemon_def modes_ok_def)
  have "wf_daemon d1" using handle_event_keeps [OF Cons.prems(1), of e] by (simp add: d1_def round_keeps_def)
  moreover have "submode_selection d1" "mode_changed d1" "submode_changed d1" "current_mode d1 = current_mode d"
    "modes d1 ! current_mode d = fn_SetSubmode ((GetSubmode f + 1) mod (MaxSubmode f + 1)) f"
    using Cons.prems(2) ok by (simp_all add: d1 set_mode_submode_def fn.submode_ok_def f_def)
  ultimately show ?case
    using Cons.IH [of d1] Cons.prems(3)
    by (cases es) (simp_all add: d1_def [symmetric] f_def [symmetric] fn.submode_put fn.others_put mod_add_left_eq add.assoc)
qed

theorem taps_cycle_submodes_witness:
  "GetSubmode (modes (fold handle_event (replicate 3 (synthetic 5 INPUT_TAP))
     ((set_current_mode 1 sample_daemon)\<lparr>submode_selection := True\<rparr>)) ! 1) = 0"
proof -
  define d where "d = (set_current_mode 1 sample_daemon)\<lparr>submode_selection := True\<rparr>"
  have "1 < length (modes sample_daemon)" by code_simp
  from set_current_mode_keeps [OF sample_daemon_wf this] have "wf_daemon d" by (simp add: d_def round_keeps_def)
  moreover have "submode_selection d" "list_all normal_tap (replicate 3 (synthetic 5 INPUT_TAP))" "current_mode d = 1"
    "GetSubmode (modes d ! 1) = 1" "MaxSubmode (modes d ! 1) = 1" unfolding d_def by code_simp+
  ultimately show ?thesis
    unfolding d_def [symmetric] using taps_cycle_submodes [of d "replicate 3 (synthetic 5 INPUT_TAP)"] by simp
qed

section \<open>Simulated buttons\<close>

lemma InjectEvent_fields:
  "event_queue (InjectEvent (Some e) dev) = event_queue dev @ [e]" "Config (InjectEvent (Some e) dev) = Config dev"
  "wake (InjectEvent (Some e) dev) = map_option (\<lambda>_. True) (wake dev)" "pressed (InjectEvent (Some e) dev) = pressed dev"
  by (simp_all add: InjectEvent_def signal_wake_def split: option.split)

lemma InjectEvent_pow:
  "event_queue ((InjectEvent (Some e) ^^ n) dev) = event_queue dev @ replicate n e"
  "Config ((InjectEvent (Some e) ^^ n) dev) = Config dev"
  by (induction n) (simp_all add: InjectEvent_fields replicate_append_same)

lemma tap_chain_replicate:
  assumes "n \<le> MultipleTapMaxCount config" "ev_Type e = INPUT_TAP" "0 \<le> MultipleTapThreshold config"
  shows "tap_chain config (replicate n e)"
proof -
  have "successively (\<lambda>a b. ev_Time b - ev_Time a \<le> MultipleTapThreshold config) (replicate n e)"
  proof (induction n)
    case (Suc n)
    with assms(3) show ?case by (cases n) simp_all
  qed simp
  with assms show ?thesis by (simp add: tap_chain_def list_all_iff)
qed

text \<open>A queue that is one chain is handed over as one event once its window has passed.\<close>

lemma drain_chain:
  assumes "event_queue dev \<noteq> []" "tap_chain (Config dev) (event_queue dev)" "0 \<le> MultipleTapThreshold (Config dev)"
    and "MultipleTapThreshold (Config dev) < t - ev_Time (last (event_queue dev))"
  shows "fst (DrainEvents t dev) = [merge_chain_events (event_queue dev)]"
  using assms drain_loop_tap_chain [of "Config dev" "[]" "event_queue dev" "[]"]
  by (simp add: DrainEvents_def Let_def stop_multi_tap_timer_locked_def)

text \<open>A simulated multiple tap is one multiple tap. With an empty queue and a count between 2 and
  the maximum, the events injected at time \<open>t\<close> are drained after the window as exactly one event, a
  multiple tap of that count; any other count is refused and nothing is injected.\<close>

theorem simulate_multi_is_one_event:
  assumes "event_queue (input_device d) = []" and "0 \<le> MultipleTapThreshold (Config (input_device d))"
    and "0 < MultipleTapMaxCount (Config (input_device d))"
    and "SimulateButton t SIMULATE_BUTTON_MULTI count d = (err, d')"
  shows "if 2 \<le> count \<and> count \<le> int (MultipleTapMaxCount (Config (input_device d)))
    then err = None \<and> (\<forall>t' > t + MultipleTapThreshold (Config (input_device d)).
           \<exists>e. fst (DrainEvents t' (input_device d')) = [e] \<and> ev_Type e = INPUT_MULTIPLE_TAP \<and>
               int (ev_TapCount e) = count \<and> ev_Status e = DEVICE_STATUS_NORMAL)
    else err \<noteq> None \<and> d' = d"
proof (cases "2 \<le> count \<and> count \<le> int (MultipleTapMaxCount (Config (input_device d)))")
  case False
  with assms(3,4) show ?thesis by (auto simp: SimulateButton_def Let_def split: if_splits)
next
  case True
  define e where "e = synthetic t INPUT_TAP"
  define dev where "dev = (InjectEvent (Some e) ^^ nat count) (input_device d)"
  have d': "err = None" "input_device d' = dev"
    using True assms(4) by (auto simp: SimulateButton_def Let_def with_input_def e_def dev_def split: if_splits)
  have q: "event_queue dev = replicate (nat count) e" "Config dev = Config (input_device d)"
    by (simp_all add: dev_def InjectEvent_pow assms(1))
  have chain: "tap_chain (Config dev) (event_queue dev)"
    unfolding q by (rule tap_chain_replicate) (use True assms(2) in \<open>auto simp: e_def synthetic_def\<close>)
  have two: "2 \<le> nat count" using True by (simp add: le_nat_iff)
  then have last: "last (replicate (nat count) e) = e" by simp
  have "fst (DrainEvents t' dev) = [merge_chain_events (event_queue dev)]"
    if "t + MultipleTapThreshold (Config (input_device d)) < t'" for t'
    by (rule drain_chain [OF _ chain]) (use that assms(2) two last in \<open>auto simp: q e_def synthetic_def\<close>)
  with d' True two last show ?thesis
    by (auto simp: q merge_chain_events_def e_def synthetic_def)
qed

theorem simulate_multi_is_one_event_witness:
  "fst (SimulateButton 7 SIMULATE_BUTTON_MULTI 3 sample_daemon) = None"
proof -
  have "event_queue (input_device sample_daemon) = []" "0 \<le> MultipleTapThreshold (Config (input_device sample_daemon))"
    "MultipleTapMaxCount (Config (input_device sample_daemon)) = 5" by code_simp+
  with simulate_multi_is_one_event [of sample_daemon 7 3 "fst (SimulateButton 7 SIMULATE_BUTTON_MULTI 3 sample_daemon)"]
  show ?thesis by (cases "SimulateButton 7 SIMULATE_BUTTON_MULTI 3 sample_daemon") simp
qed

text \<open>A simulated tap or long tap takes effect at once: with an empty queue it is drained, unchanged,
  by the round of the same instant, and the main loop is woken for it.\<close>

theorem simulate_tap_immediate:
  assumes "event_queue (input_device d) = []" and "wake (input_device d) \<noteq> None"
    and "0 < MultipleTapMaxCount (Config (input_device d))"
    and "(target, ty) \<in> {(SIMULATE_BUTTON_TAP, INPUT_TAP), (SIMULATE_BUTTON_LONG, INPUT_LONG_TAP)}"
    and "SimulateButton t target count d = (err, d')"
  shows "err = None \<and> wake (input_device d') = Some True \<and>
    (\<exists>e. fst (DrainEvents t (input_device d')) = [e] \<and> ev_Type e = ty \<and> ev_TapCount e = 1 \<and>
         ev_Status e = DEVICE_STATUS_NORMAL)"
proof -
  define e where "e = synthetic (t - (MultipleTapThreshold (Config (input_device d)) + 1000000)) ty"
  have d': "err = None" "input_device d' = InjectEvent (Some e) (input_device d)"
    using assms(4,5) by (auto simp: SimulateButton_def Let_def with_input_def e_def)
  have "fst (DrainEvents t (InjectEvent (Some e) (input_device d))) = [e]"
    using assms(1,3,4)
    by (auto simp: DrainEvents_def InjectEvent_fields breaks_chain_def merge_chain_events_def Let_def e_def synthetic_def
        stop_multi_tap_timer_locked_def)
  with assms(2) show ?thesis by (auto simp: d' InjectEvent_fields e_def synthetic_def)
qed

theorem simulate_tap_immediate_witness:
  "\<exists>e. fst (DrainEvents 7 (input_device (snd (SimulateButton 7 SIMULATE_BUTTON_TAP 1 sample_daemon)))) = [e]"
proof -
  have "event_queue (input_device sample_daemon) = []" "wake (input_device sample_daemon) \<noteq> None"
    "0 < MultipleTapMaxCount (Config (input_device sample_daemon))" by code_simp+
  from simulate_tap_immediate [OF this _ surjective_pairing, of SIMULATE_BUTTON_TAP INPUT_TAP 7 1] show ?thesis
    by simp blast
qed

section \<open>Shutdown\<close>

lemma shutdown_due_frame [simp]:
  "shutdown_due t (d\<lparr>status := s\<rparr>) = shutdown_due t d" "shutdown_due t (d\<lparr>pending_enable := b\<rparr>) = shutdown_due t d"
  by (simp_all add: shutdown_due_def split: option.split)

definition only_waits :: "os_call \<Rightarrow> bool" where
  "only_waits c \<longleftrightarrow> c = Environ \<or> (\<exists>n. c = Sleep n)"

lemma only_waits_simps [simp]: "only_waits Environ" "only_waits (Sleep n)"
  by (simp_all add: only_waits_def)

lemma emits_wait_led_settled [emits_rules]: "emits only_waits (wait_led_settled i timeout d)"
  unfolding wait_led_settled_def by (intro emits_rules) simp_all

lemma emits_shutdown_leds [emits_rules]: "emits only_waits (shutdown_leds is l d)"
  by (induction "is" l d rule: shutdown_leds.induct) (auto intro!: emits_rules)

text \<open>The shell: the configured one, else \<open>$SHELL\<close>, else bash.\<close>

definition shell_for :: "daemon \<Rightarrow> world \<Rightarrow> string" where
  "shell_for d w =
     (let configured = TrimSpace (shutdown_shell d); inherited = shell_from_env (items (fst (env w (trace w) Environ))) in
      if configured \<noteq> [] then configured else if inherited \<noteq> [] then inherited else ''/bin/bash'')"

text \<open>\<open>do_shutdown\<close> before, at and after the command.\<close>

definition shutdown_before :: "daemon \<Rightarrow> (string \<times> nat option \<times> daemon) io" where
  "shutdown_before this = do {
     environ \<leftarrow> (if TrimSpace (shutdown_shell this) = [] then sys Environ else return (Done []));
     let shell = TrimSpace (shutdown_shell this);
     let shell = (if shell = [] then shell_from_env (items environ) else shell);
     let shell = (if shell = [] then ''/bin/bash'' else shell);
     let this = turn_off_all_leds this;
     (last_led, this) \<leftarrow> shutdown_leds (rev [0..<length (interpreters this)]) None this;
     return (shell, last_led, this)
   }"

definition shutdown_after :: "nat option \<Rightarrow> daemon \<Rightarrow> daemon io" where
  "shutdown_after last_led this =
     (case last_led of
        None \<Rightarrow> return this
      | Some i \<Rightarrow> do {
          let this = led_at i MODE_PRESET_ON this;
          _ \<leftarrow> wait_led_settled i 50000000 this;
          return this
        })"

lemma do_shutdown_split:
  "do_shutdown this = do {
     (shell, last_led, this) \<leftarrow> shutdown_before this;
     _ \<leftarrow> sys (Exec [shell, ''-c'', shutdown_command this]);
     shutdown_after last_led this
   }"
  by (rule state.expand) (auto simp: do_shutdown_def shutdown_before_def shutdown_after_def Let_def fun_eq_iff
      split: prod.splits)

lemma shutdown_before_result:
  assumes "run_state (shutdown_before d) w = ((shell, l, d'), w')"
  shows "shell = shell_for d w" "shutdown_command d' = shutdown_command d"
    "\<exists>pre. trace w' = trace w @ pre \<and> list_all only_waits pre"
proof -
  show "shell = shell_for d w"
    using assms by (auto simp: shutdown_before_def shell_for_def Let_def fst_sys_step [symmetric] split: prod.splits if_splits)
  show "shutdown_command d' = shutdown_command d"
    using assms by (auto simp: shutdown_before_def Let_def split: prod.splits dest!: shutdown_leds_result)
  have "emits only_waits (shutdown_before d)"
    unfolding shutdown_before_def by (intro emits_rules) simp_all
  from emitsE [OF this, of w] assms show "\<exists>pre. trace w' = trace w @ pre \<and> list_all only_waits pre" by auto
qed

lemma do_shutdown_calls:
  "\<exists>pre post. calls_of (do_shutdown d) w = pre @ Exec [shell_for d w, ''-c'', shutdown_command d] # post \<and>
     list_all only_waits (pre @ post)"
proof -
  obtain shell l d1 w1 where b: "run_state (shutdown_before d) w = ((shell, l, d1), w1)" by (metis surj_pair)
  define w2 where "w2 = snd (sys_step (Exec [shell, ''-c'', shutdown_command d1]) w1)"
  have "emits only_waits (shutdown_after l d1)"
    unfolding shutdown_after_def by (intro emits_rules)
  then obtain post where post: "trace (snd (run_state (shutdown_after l d1) w2)) = trace w2 @ post" "list_all only_waits post"
    by (rule emitsE)
  obtain pre where pre: "trace w1 = trace w @ pre" "list_all only_waits pre"
    using shutdown_before_result(3) [OF b] by blast
  have "run_state (do_shutdown d) w = run_state (shutdown_after l d1) w2"
    by (simp add: do_shutdown_split b w2_def split: prod.splits)
  then have "trace (snd (run_state (do_shutdown d) w)) = trace w @ pre @ Exec [shell, ''-c'', shutdown_command d1] # post"
    by (simp add: post(1)) (simp add: w2_def pre(1))
  with pre(2) post(2) shutdown_before_result(1,2) [OF b] show ?thesis
    by (auto simp: calls_of_def)
qed

text \<open>C13: The long press has priority over everything else. In a round that finds the button held for
  the shutdown threshold, the daemon turns to \<open>shutting_down\<close> and says so; it leaves the queued
  events, the pending requests and the modes alone and starts no apply; it runs the configured
  command once, with the configured shell, that of the environment, or bash, and otherwise only
  waits. In any other round it calls nothing.\<close>

theorem shutdown_has_priority:
  "let ((new, d'), w') = run_state (handle_events d) w in
   if \<not> shutting_down d \<and> shutdown_due (clock w) d then
     shutting_down d' \<and> RequestStatus d' = ''shutting_down'' \<and> modes d' = modes d \<and>
     input_device d' = input_device d \<and> gadget_reqs d' = gadget_reqs d \<and> TaskApply \<notin> set new \<and>
     (\<exists>pre post. calls_of (handle_events d) w = pre @ Exec [shell_for d w, ''-c'', shutdown_command d] # post \<and>
        list_all only_waits (pre @ post))
   else calls_of (handle_events d) w = []"
proof -
  obtain new d' w' where r: "run_state (handle_events d) w = ((new, d'), w')" by (metis surj_pair)
  obtain s where s: "update_status d = d\<lparr>status := s\<rparr>" using update_status_frame by blast
  show ?thesis
  proof (cases "\<not> shutting_down d \<and> shutdown_due (clock w) d")
    case False
    then have "w' = w"
      using r by (auto simp: handle_events_def Let_def s split: if_splits prod.splits)
    with False r show ?thesis by (simp add: calls_of_def)
  next
    case True
    obtain new0 d1 where d1: "take_due (clock w) (d\<lparr>status := s\<rparr>) = (new0, d1)" by (metis surj_pair)
    define d2 where "d2 = update_status (d1\<lparr>shutting_down := True\<rparr>)"
    have d1f: "shutting_down d1 = shutting_down d" "shutdown_due (clock w) d1 = shutdown_due (clock w) d"
      "modes d1 = modes d" "input_device d1 = input_device d" "gadget_reqs d1 = gadget_reqs d" "TaskApply \<notin> set new0"
      "shutdown_command d1 = shutdown_command d" "shutdown_shell d1 = shutdown_shell d"
      using d1 by (auto simp: take_due_def split: if_splits)
    have eq: "run_state (handle_events d) w = run_state (do { this \<leftarrow> do_shutdown d2; return (new0, this) }) w"
      using True d1 d1f(1,2)
      by (auto simp: handle_events_def s take_due_def Let_def d2_def split: prod.splits if_splits)
    obtain d3 w3 where d3: "run_state (do_shutdown d2) w = (d3, w3)" by (metis surj_pair)
    from do_shutdown_result [OF d3] obtain itps where d3': "d3 = d2\<lparr>interpreters := itps\<rparr>" by blast
    have out: "new = new0" "d' = d3" "w' = w3" using r by (simp_all add: eq d3)
    have calls: "calls_of (handle_events d) w = calls_of (do_shutdown d2) w"
      by (simp add: calls_of_def eq d3)
    have "shell_for d2 w = shell_for d w" "shutdown_command d2 = shutdown_command d"
      by (simp_all add: d2_def shell_for_def update_status_def d1f)
    with do_shutdown_calls [of d2 w] d1f True r show ?thesis
      by (simp add: out calls) (simp add: d3' d2_def update_status_def RequestStatus_def d1f)
  qed
qed



end
