(* ===== verification/Daemon_Correct.thy ===== *)
theory Daemon_Correct
  imports Daemon_Init
begin

text \<open>
  The correctness properties of the daemon: what holds in every state it can reach, what an apply
  and its failure leave behind, what requests and taps do, and when it shuts down.
\<close>

section \<open>Reachable states\<close>

lemma main_start_inv:
  assumes "wf_daemon d"
  shows "sys_inv (shape (modes d)) (main_start d)"
  using assms by (simp add: main_start_def start_tasks_def sys_inv_def start_led_interpreters_def)

lemma reachable_sys_inv:
  assumes "daemon_step\<^sup>*\<^sup>* s s'" "sys_inv cfg s"
  shows "sys_inv cfg s'"
  using assms by (induction rule: rtranclp_induct) (auto intro: sys_inv_step)

lemma reachable_flight_bound:
  assumes "daemon_step\<^sup>*\<^sup>* s s'" "sys_inv cfg s" "flight_bound k s"
  shows "flight_bound k s'"
  using assms(1)
proof (induction rule: rtranclp_induct)
  case (step y z)
  with reachable_sys_inv [OF step(1) assms(2)] show ?case by (blast intro: flight_bound_step)
qed (rule assms(3))

lemma reachable_exact:
  assumes "daemon_step\<^sup>*\<^sup>* s s'" "sys_inv cfg s" "flight_exact s" "commit_inv s"
  shows "flight_exact s' \<and> commit_inv s'"
  using assms(1)
proof (induction rule: rtranclp_induct)
  case (step y z)
  with reachable_sys_inv [OF step(1) assms(2)] show ?case by (blast intro: flight_exact_step commit_inv_step)
qed (use assms(3,4) in simp)

text \<open>The state after the first apply has taken its snapshot, before anything else happened.\<close>

definition begun :: "daemon \<Rightarrow> daemon_state" where
  "begun d = (case apply_begin (start_led_interpreters d) of (next, d) \<Rightarrow> (d, [next, TaskLedInit]))"

lemma begun_step: "daemon_step (main_start d) (begun d)"
proof -
  obtain nxt d1 where b: "apply_begin (start_led_interpreters d) = (nxt, d1)" by (metis surj_pair)
  have "run_task undefined TaskApply (start_led_interpreters d) = Some ([nxt], d1)" by (simp add: run_task_def piece_def b)
  from daemon_step.task [OF this, of "[]" "[TaskLedInit]"] show ?thesis
    by (simp add: main_start_def start_tasks_def begun_def b)
qed

lemma begun_exact:
  assumes "wf_daemon d" "rebind_chan d = None" "\<not> pending_enable d"
  shows "flight_exact (begun d)" "commit_inv (begun d)"
proof -
  obtain nxt d1 where b: "apply_begin (start_led_interpreters d) = (nxt, d1)" by (metis surj_pair)
  have "task_ok TaskApply (start_led_interpreters d) [nxt] d1"
    using assms(1) by (intro apply_begin_ok b) (simp add: start_led_interpreters_def)
  then have r: "task_result TaskApply (start_led_interpreters d) [nxt] d1" "rebind_chan d1 = None" "\<not> pending_enable d1"
    using assms(2,3) by (simp_all add: task_ok_def start_led_interpreters_def)
  from r(1) obtain target so where "nxt = TaskWork target so" "mode_changing d1" "\<not> so \<longrightarrow> built_modes d1 = [tgt_mode target]"
    unfolding task_result_def by fastforce
  note t = this r(2,3)
  show "flight_exact (begun d)"
    using t by (simp add: begun_def b flight_exact_def flight_bound_def flight_def)
  show "commit_inv (begun d)"
    using t by (auto simp: begun_def b commit_inv_def late_def)
qed

section \<open>Running the daemon\<close>

text \<open>Executable moves: the first goroutine in world \<open>w\<close>, and a round of the main loop.\<close>

definition run_hd :: "world \<Rightarrow> daemon_state \<Rightarrow> daemon_state" where
  "run_hd w s =
     (case snd s of
        [] \<Rightarrow> s
      | t # ts \<Rightarrow> (case run_task w t (fst s) of Some (new, d) \<Rightarrow> (d, new @ ts) | None \<Rightarrow> s))"

definition run_round :: "world \<Rightarrow> wakeup \<Rightarrow> daemon_state \<Rightarrow> daemon_state" where
  "run_round w k s =
     (if k = WakeStop \<or> shutting_down (fst s) then s
      else (case main_round w k (fst s) of Some (new, d) \<Rightarrow> (d, snd s @ new) | None \<Rightarrow> s))"

text \<open>A move is a step, or none at all.\<close>

lemma run_hd_move: "run_hd w s = s \<or> daemon_step s (run_hd w s)"
proof (cases "snd s")
  case (Cons t ts)
  show ?thesis
  proof (cases "run_task w t (fst s)")
    case (Some r)
    then obtain new d where "run_task w t (fst s) = Some (new, d)" by (cases r) auto
    with daemon_step.task [OF this, of "[]" ts] Cons show ?thesis
      by (cases s) (simp add: run_hd_def)
  qed (simp add: run_hd_def Cons)
qed (simp add: run_hd_def)

lemma run_round_move: "run_round w k s = s \<or> daemon_step s (run_round w k s)"
proof (cases "k = WakeStop \<or> shutting_down (fst s)")
  case False
  show ?thesis
  proof (cases "main_round w k (fst s)")
    case (Some r)
    then obtain new d where "main_round w k (fst s) = Some (new, d)" by (cases r) auto
    with daemon_step.round [of k "fst s" w new d "snd s"] False show ?thesis
      by (cases s) (simp add: run_round_def)
  qed (use False in \<open>simp add: run_round_def\<close>)
qed (auto simp: run_round_def)

text \<open>The goroutine started last.\<close>

definition run_last :: "world \<Rightarrow> daemon_state \<Rightarrow> daemon_state" where
  "run_last w s =
     (if snd s = [] then s
      else (case run_task w (List.last (snd s)) (fst s) of Some (new, d) \<Rightarrow> (d, butlast (snd s) @ new) | None \<Rightarrow> s))"

lemma run_last_move: "run_last w s = s \<or> daemon_step s (run_last w s)"
proof (cases "snd s = []")
  case False
  show ?thesis
  proof (cases "run_task w (List.last (snd s)) (fst s)")
    case (Some r)
    then obtain new d where r: "run_task w (List.last (snd s)) (fst s) = Some (new, d)" by (cases r) auto
    have "daemon_step (fst s, butlast (snd s) @ [List.last (snd s)]) (d, butlast (snd s) @ new @ [])"
      by (rule daemon_step.task [OF r])
    moreover have "run_last w s = (d, butlast (snd s) @ new)"
      using False r by (simp add: run_last_def)
    ultimately show ?thesis using False by (cases s) simp
  qed (use False in \<open>simp add: run_last_def\<close>)
qed (simp add: run_last_def)

lemma run_steps:
  "daemon_step\<^sup>*\<^sup>* s (run_hd w s)" "daemon_step\<^sup>*\<^sup>* s (run_round w k s)" "daemon_step\<^sup>*\<^sup>* s (run_last w s)"
  using run_hd_move run_round_move run_last_move by (metis rtranclp.rtrancl_refl r_into_rtranclp)+

section \<open>Properties\<close>

lemma make_mode_client:
  "make_mode cmd ip client spec = Inr (FnRndis r) \<Longrightarrow> client_ip r = client"
  by (auto simp: make_mode_def Let_def fn_SetSubmode_def SetSubmode_def NewUsbGadgetRndis_def
      split: sum.splits prod.splits if_splits)

lemma make_modes_client:
  "make_modes cmd ip client specs = Inr ms \<Longrightarrow> FnRndis r \<in> set ms \<Longrightarrow> client_ip r = client"
  by (induction cmd ip client specs arbitrary: ms rule: make_modes.induct)
    (auto split: sum.splits dest: make_mode_client)

lemma init_validate_ok:
  assumes "run_state (init_validate plat cmd) w = (Inr (ip, client), w')"
  shows "Is4 client" "0 < cmd_ShutdownThreshold cmd \<Longrightarrow> cmd_LongTapThreshold cmd < cmd_ShutdownThreshold cmd"
  using assms by (auto simp: init_validate_def split: prod.splits if_splits option.splits)

text \<open>C15: What a daemon that starts is made of. Its modes are the gadgets of the command line (RNDIS
  and ADB by default), in their order, each with the submode asked for and none out of its range;
  the client address of every RNDIS mode is an IPv4 address; the rebind delay is not negative; and
  when both thresholds are on, a press is a long tap before it shuts the device down.\<close>

theorem new_daemon_modes:
  assumes "run_state (NewDaemon plat cmd) w = (Inr d, w')"
  shows "list_all2 (\<lambda>spec mode. parse_gadget_spec spec = Inr (GetName mode, GetSubmode mode))
           (if cmd_Gadgets cmd = [] then [''rndis'', ''adb''] else cmd_Gadgets cmd) (modes d)
       \<and> wf_daemon d \<and> 0 \<le> rebind_delay d
       \<and> (\<forall>r. FnRndis r \<in> set (modes d) \<longrightarrow> Is4 (client_ip r))
       \<and> (0 < cmd_LongTapThreshold cmd \<and> 0 < shutdown_threshold d \<longrightarrow>
            LongTapThreshold (Config (input_device d)) < shutdown_threshold d)"
proof -
  obtain ip client dev ctl ms itps where d: "d = init_daemon cmd dev ctl ms itps"
    and valid: "\<exists>v v'. run_state (init_validate plat cmd) v = (Inr (ip, client), v')"
    and dev: "\<exists>v v'. run_state (init_input plat cmd) v = (Inr dev, v')" and delay: "0 \<le> cmd_RebindDelay cmd"
    and ms: "make_modes cmd ip client (if cmd_Gadgets cmd = [] then [''rndis'', ''adb''] else cmd_Gadgets cmd) = Inr ms"
    using NewDaemon_result [OF assms] by metis
  have fields: "modes d = ms" "rebind_delay d = cmd_RebindDelay cmd" "shutdown_threshold d = cmd_ShutdownThreshold cmd"
    "input_device d = dev"
    by (simp_all add: d init_daemon_def)
  have "Config dev = default_config (Some (input_config_of cmd))" using dev init_input_inv(2) by blast
  then have conf: "0 < cmd_LongTapThreshold cmd \<Longrightarrow> LongTapThreshold (Config dev) = cmd_LongTapThreshold cmd"
    by (simp add: default_config_def input_config_of_def Let_def)
  show ?thesis
    using make_modes_spec [OF ms] NewDaemon_wf(1) [OF assms] delay valid init_validate_ok conf
      make_modes_client [OF ms]
    by (auto simp: fields)
qed

theorem new_daemon_modes_witness:
  "list_all2 (\<lambda>spec mode. parse_gadget_spec spec = Inr (GetName mode, GetSubmode mode))
     [''adb'', ''rndis.1''] (modes sample_daemon)"
  using new_daemon_modes [OF new_sample] by (simp add: sample_cmd_def)

text \<open>C1: The daemon never points outside its configuration. Whatever buttons, requests, applies,
  failures and rollbacks follow in whatever interleaving, the current mode, the last good mode and
  the mode being applied exist, every submode is within the bounds of its function, the RNDIS flag
  the TLS service reads is that of the current mode, and the configured sequence of functions is
  what it was at the start.\<close>

theorem reachable_daemon_wf:
  assumes "run_state (NewDaemon plat cmd) w = (Inr d, w')" and "daemon_step\<^sup>*\<^sup>* (main_start d) (d', ts)"
  shows "current_mode d' < length (modes d') \<and> last_good_mode d' < length (modes d')
    \<and> list_all (\<lambda>f. 0 \<le> GetSubmode f \<and> GetSubmode f \<le> MaxSubmode f) (modes d')
    \<and> current_mode_rndis d' = is_rndis (modes d' ! current_mode d')
    \<and> tgt_mode (pending_apply d') < length (modes d')
    \<and> map (\<lambda>f. (GetName f, is_rndis f, MaxSubmode f)) (modes d') = map (\<lambda>f. (GetName f, is_rndis f, MaxSubmode f)) (modes d)"
proof -
  have "sys_inv (shape (modes d)) (d', ts)"
    by (rule reachable_sys_inv [OF assms(2) main_start_inv [OF NewDaemon_wf(1) [OF assms(1)]]])
  then have wf: "wf_daemon d'" and sh: "shape (modes d') = shape (modes d)" by (simp_all add: sys_inv_def)
  have "map (\<lambda>f. (GetName f, is_rndis f, MaxSubmode f)) ms = map (\<lambda>((n, r), m). (n, r, m)) (shape ms)" for ms
    by (simp add: shape_def fn_ident_def)
  with wf sh show ?thesis
    by (simp add: wf_daemon_def modes_ok_def target_ok_def last_good_def fn.submode_ok_def list_all_iff)
qed

theorem reachable_daemon_wf_witness:
  "current_mode (SetTurnOffLeds True (start_led_interpreters sample_daemon)) <
     length (modes (SetTurnOffLeds True (start_led_interpreters sample_daemon)))"
proof -
  have "daemon_step (main_start sample_daemon) (SetTurnOffLeds True (start_led_interpreters sample_daemon), start_tasks)"
    unfolding main_start_def by (rule daemon_step.leds)
  from reachable_daemon_wf [OF new_sample r_into_rtranclp [of daemon_step, OF this]] show ?thesis by blast
qed

text \<open>C2: At most one apply at a time. Once the apply of the start has taken its snapshot, the
  goroutines of applies, messages waiting for the main loop and pending second phases are never
  more than one together, and there is one exactly while \<open>mode_changing\<close> is set (unless the daemon
  is being stopped, when the message may be dropped).\<close>

theorem one_apply_at_a_time:
  assumes "run_state (NewDaemon plat cmd) w = (Inr d, w')" and "daemon_step\<^sup>*\<^sup>* (begun d) s"
  shows "flight s \<le> of_bool (mode_changing (fst s)) \<and>
    (\<not> stopped (fst s) \<longrightarrow> flight s = of_bool (mode_changing (fst s)))"
proof -
  note wf = NewDaemon_wf [OF assms(1)]
  have "sys_inv (shape (modes d)) (begun d)"
    by (rule sys_inv_step [OF begun_step main_start_inv [OF wf(1)]])
  from reachable_exact [OF assms(2) this begun_exact [OF wf(1,3,4)]] show ?thesis
    by (simp add: flight_exact_def flight_bound_def)
qed

theorem one_apply_at_a_time_witness: "flight (begun sample_daemon) = 1"
proof -
  have "mode_changing (fst (begun sample_daemon))" "\<not> stopped (fst (begun sample_daemon))" by code_simp+
  with one_apply_at_a_time [OF new_sample, of "begun sample_daemon"] show ?thesis by simp
qed


text \<open>The sample daemon with its first apply at its last stage, and with the gadget bound.\<close>

definition sample_finishing :: daemon_state where
  "sample_finishing = run_round (dir_world\<lparr>clock := 9000000000\<rparr>) WakeRebind (run_hd dir_world (run_hd dir_world (begun sample_daemon)))"

lemma sample_finishing_reachable: "daemon_step\<^sup>*\<^sup>* (begun sample_daemon) sample_finishing"
  unfolding sample_finishing_def by (blast intro: rtranclp_trans run_steps)

lemma sample_bound_reachable: "daemon_step\<^sup>*\<^sup>* (begun sample_daemon) (run_last dir_world sample_finishing)"
  by (blast intro: rtranclp_trans sample_finishing_reachable run_steps)


text \<open>Before the first apply has set \<open>mode_changing\<close>, a tap can start a second one: there is a run
  of the daemon in which two applies are under way at once.\<close>

theorem startup_race:
  "\<exists>s. daemon_step\<^sup>*\<^sup>* (main_start sample_daemon) s \<and> flight s = 2"
proof -
  define d where "d = snd (SimulateButton 5 SIMULATE_BUTTON_TAP 1 (start_led_interpreters sample_daemon))"
  have "daemon_step (main_start sample_daemon) (d, start_tasks)"
    unfolding main_start_def d_def by (rule daemon_step.button) (simp add: prod_eq_iff)
  then have "daemon_step\<^sup>*\<^sup>* (main_start sample_daemon) (run_round dir_world WakeInput (d, start_tasks))"
    by (rule converse_rtranclp_into_rtranclp) (rule run_steps)
  moreover have "flight (run_round dir_world WakeInput (d, start_tasks)) = 2"
    unfolding d_def by code_simp
  ultimately show ?thesis by blast
qed

text \<open>There are never more than two: in every reachable state at most one apply more is under way
  than \<open>mode_changing\<close> admits.\<close>

theorem at_most_two_applies:
  assumes "run_state (NewDaemon plat cmd) w = (Inr d, w')" and "daemon_step\<^sup>*\<^sup>* (main_start d) s"
  shows "flight s \<le> of_bool (mode_changing (fst s)) + 1"
proof -
  note wf = NewDaemon_wf [OF assms(1)]
  have "flight_bound 1 (main_start d)"
    using wf by (simp add: flight_bound_def flight_def main_start_def start_tasks_def start_led_interpreters_def)
  from reachable_flight_bound [OF assms(2) main_start_inv [OF wf(1)] this] show ?thesis
    by (simp add: flight_bound_def)
qed

theorem at_most_two_applies_witness: "flight (main_start sample_daemon) \<le> 1 + 1"
  using at_most_two_applies [OF new_sample, of "main_start sample_daemon"] by (simp add: order_trans)

section \<open>An apply never gets stuck\<close>

definition releases :: "daemon_state \<Rightarrow> bool" where
  "releases s \<longleftrightarrow> (\<exists>s'. daemon_step\<^sup>*\<^sup>* s s' \<and> \<not> mode_changing (fst s'))"

lemma releases_step: "daemon_step s s' \<Longrightarrow> releases s' \<Longrightarrow> releases s"
  unfolding releases_def by (blast intro: converse_rtranclp_into_rtranclp)

lemma releases_now: "daemon_step s (d', ts') \<Longrightarrow> \<not> mode_changing d' \<Longrightarrow> releases s"
  unfolding releases_def by (metis fst_conv r_into_rtranclp)

text \<open>A goroutine of an apply goes on to its next piece, until one clears the flag.\<close>

lemma task_releases:
  assumes "sys_inv cfg (d, ts)" "t \<in> set ts" "\<And>u. t \<noteq> TaskSend u"
    and "\<And>d' new xs ys. sys_inv cfg (d', xs @ new @ ys) \<Longrightarrow> task_result t d new d' \<Longrightarrow>
      rebind_chan d' = rebind_chan d \<Longrightarrow> shutting_down d' = shutting_down d \<Longrightarrow>
      \<not> mode_changing d' \<or> releases (d', xs @ new @ ys)"
  shows "releases (d, ts)"
proof -
  obtain xs ys where ts: "ts = xs @ t # ys" using split_list [OF assms(2)] by blast
  define r where "r = fst (run_state (piece t d) undefined)"
  have r: "run_task undefined t d = Some (fst r, snd r)"
    unfolding run_task_def r_def by (subst not_send [OF assms(3)]) simp
  have "wf_daemon d" "targets_ok (modes d) [t]" using assms(1) by (simp_all add: sys_inv_def ts)
  then have ok: "task_ok t d (fst r) (snd r)" by (intro run_task_ok [OF _ r])
  then have same: "rebind_chan (snd r) = rebind_chan d" "shutting_down (snd r) = shutting_down d" "task_result t d (fst r) (snd r)"
    by (simp_all add: task_ok_def not_send [OF assms(3)])
  have step: "daemon_step (d, ts) (snd r, xs @ fst r @ ys)" unfolding ts by (rule daemon_step.task [OF r])
  from assms(4) [OF sys_inv_step [OF step assms(1)] same(3,1,2)] step show ?thesis
    by (blast intro: releases_now releases_step)
qed

lemma conclude_releases: "sys_inv cfg (d, ts) \<Longrightarrow> TaskConclude b \<in> set ts \<Longrightarrow> releases (d, ts)"
  by (erule (1) task_releases) (auto simp: task_result_def)

lemma applied_releases:
  "sys_inv cfg (d, ts) \<Longrightarrow> TaskSubmodeDone target \<in> set ts \<Longrightarrow> releases (d, ts)"
  "sys_inv cfg (d, ts) \<Longrightarrow> TaskEnabled target \<in> set ts \<Longrightarrow> releases (d, ts)"
  by (erule (1) task_releases; auto simp: task_result_def applied_def)+

lemma rollback_bind_releases: "sys_inv cfg (d, ts) \<Longrightarrow> TaskRollbackBind \<in> set ts \<Longrightarrow> releases (d, ts)"
  by (erule (1) task_releases) (auto simp: task_result_def intro: conclude_releases)

lemma rollback_releases:
  "sys_inv cfg (d, ts) \<Longrightarrow> TaskRollback \<in> set ts \<Longrightarrow> releases (d, ts)"
  "sys_inv cfg (d, ts) \<Longrightarrow> TaskRollbackSubmode i \<in> set ts \<Longrightarrow> releases (d, ts)"
  by (erule (1) task_releases; auto simp: task_result_def intro: conclude_releases rollback_bind_releases)+

lemma failed_releases: "sys_inv cfg (d, ts) \<Longrightarrow> TaskFailed target so \<in> set ts \<Longrightarrow> releases (d, ts)"
  by (erule (1) task_releases) (auto simp: task_result_def intro: conclude_releases rollback_releases)

lemma finish_releases: "sys_inv cfg (d, ts) \<Longrightarrow> TaskFinish \<in> set ts \<Longrightarrow> releases (d, ts)"
  by (erule (1) task_releases) (auto simp: task_result_def intro: applied_releases failed_releases)

lemma due_round_releases:
  assumes "sys_inv cfg (d, ts)" "\<not> shutting_down d" "k \<noteq> WakeStop" "take_wakeup t k d = Some d0" "wf_daemon d0"
    and "pending_enable d0" "enable_deadline d0 \<le> t"
  shows "releases (d, ts)"
proof -
  define w where "w = dir_world\<lparr>clock := t\<rparr>"
  obtain new d' w' where r: "run_state (handle_events d0) w = ((new, d'), w')" by (metis surj_pair)
  have "clock w = t" by (simp add: w_def)
  then have "main_round w k d = Some (new, d')" by (simp add: main_round_def assms(4) r)
  then have step: "daemon_step (d, ts) (d', ts @ new)" by (rule daemon_step.round [OF assms(3,2)])
  have "round_ok (enable_deadline d0 \<le> clock w) d0 new d'" by (rule handle_events_round_ok [OF assms(5) r])
  then have "TaskFinish \<in> set (ts @ new)" using assms(6,7) by (auto simp: round_ok_def w_def)
  with finish_releases [OF sys_inv_step [OF step assms(1)]] step show ?thesis by (blast intro: releases_step)
qed

lemma rebind_releases:
  assumes "sys_inv cfg (d, ts)" "\<not> shutting_down d" "rebind_chan d = Some t"
  shows "releases (d, ts)"
proof (rule due_round_releases [OF assms(1,2), of WakeRebind t])
  show "take_wakeup t WakeRebind d = Some (d\<lparr>rebind_chan := None, enable_deadline := t, pending_enable := True\<rparr>)"
    using assms(3) by (simp add: take_wakeup_def)
qed (use assms(1) in \<open>simp_all add: sys_inv_def\<close>)

lemma pending_releases:
  assumes "sys_inv cfg (d, ts)" "\<not> shutting_down d" "pending_enable d" "enable_deadline d \<noteq> 0"
  shows "releases (d, ts)"
proof (rule due_round_releases [OF assms(1,2), of WakeTimer "enable_deadline d" d])
  show "take_wakeup (enable_deadline d) WakeTimer d = Some d"
    using assms(3,4) by (auto simp: take_wakeup_def lazy_deadline_def Let_def split: option.split)
qed (use assms in \<open>simp_all add: sys_inv_def\<close>)

lemma send_releases:
  assumes "sys_inv cfg (d, ts)" "\<not> shutting_down d" "rebind_chan d = None" "TaskSend u \<in> set ts"
  shows "releases (d, ts)"
proof -
  obtain xs ys where ts: "ts = xs @ TaskSend u # ys" using split_list [OF assms(4)] by blast
  have step: "daemon_step (d, ts) (d\<lparr>rebind_chan := Some u\<rparr>, xs @ [] @ ys)"
    unfolding ts by (rule daemon_step.task [of undefined]) (simp add: run_task_def rebind_send_def assms(3))
  have "releases (d\<lparr>rebind_chan := Some u\<rparr>, xs @ [] @ ys)"
    by (rule rebind_releases [OF sys_inv_step [OF step assms(1)]]) (simp_all add: assms(2))
  with step show ?thesis by (rule releases_step)
qed

lemma work_releases:
  assumes "sys_inv cfg (d, ts)" "\<not> shutting_down d" "rebind_chan d = None" "TaskWork target so \<in> set ts"
  shows "releases (d, ts)"
proof (rule task_releases [OF assms(1,4)])
  fix d' new xs ys
  assume inv: "sys_inv cfg (d', xs @ new @ ys)" and r: "task_result (TaskWork target so) d new d'"
    and "rebind_chan d' = rebind_chan d" "shutting_down d' = shutting_down d"
  then have d': "\<not> shutting_down d'" "rebind_chan d' = None" using assms(2,3) by simp_all
  from r consider "new = [TaskFailed target so]" | "new = [TaskSubmodeDone target]" | u where "new = [TaskSend u]"
    by (auto simp: task_result_def)
  then show "\<not> mode_changing d' \<or> releases (d', xs @ new @ ys)"
    using inv send_releases [OF inv d'] failed_releases [OF inv] applied_releases(1) [OF inv] by cases auto
qed simp

lemma apply_releases:
  assumes "sys_inv cfg (d, ts)" "\<not> shutting_down d" "rebind_chan d = None" "TaskApply \<in> set ts"
  shows "releases (d, ts)"
proof (rule task_releases [OF assms(1,4)])
  fix d' new xs ys
  assume inv: "sys_inv cfg (d', xs @ new @ ys)" and r: "task_result TaskApply d new d'"
    and "rebind_chan d' = rebind_chan d" "shutting_down d' = shutting_down d"
  then have d': "\<not> shutting_down d'" "rebind_chan d' = None" using assms(2,3) by simp_all
  from r obtain target so where "new = [TaskWork target so]" by (auto simp: task_result_def)
  with work_releases [OF inv d'] show "\<not> mode_changing d' \<or> releases (d', xs @ new @ ys)" by auto
qed simp

lemma any_apply_releases:
  assumes "sys_inv cfg (d, ts)" "\<not> shutting_down d" "rebind_chan d = None" "t \<in> set ts" "is_apply t"
  shows "releases (d, ts)"
proof (cases t)
  case TaskApply
  with assms show ?thesis by (simp add: apply_releases)
next
  case TaskWork
  with assms show ?thesis by (simp add: work_releases)
next
  case TaskSend
  with assms show ?thesis by (simp add: send_releases)
qed (use assms(1,4,5) in \<open>simp_all add: finish_releases failed_releases applied_releases rollback_releases
      rollback_bind_releases conclude_releases\<close>)



section \<open>Failed applies\<close>



text \<open>A machine with the network interface present and no upstream: every other call fails.\<close>

definition lonely_world :: world where
  "lonely_world = \<lparr>env = \<lambda>h c. (case c of NetInterface i \<Rightarrow> (Done [[]], 1) | _ \<Rightarrow> (Fail OtherErr, 1)),
     clock = 5, trace = [], fuel = 3, adbd_process = None\<rparr>"

text \<open>The submode recorded as good can differ from the one in effect: when the RNDIS client mode
  finds no upstream it falls back to the gateway submode by itself, reports success, and the daemon
  commits the submode it had asked for.\<close>

theorem fallback_commits_requested_submode:
  "let d = (set_current_mode 1 sample_daemon)\<lparr>submode_changed := True\<rparr>;
       target = \<lparr>tgt_mode = 1, tgt_submode = 1\<rparr>;
       d' = snd (fst (run_state (apply_work target True d) lonely_world))
   in last_good_mode d' = 1 \<and> last_good_submode d' = 1 \<and> \<not> apply_error d' \<and> GetSubmode (modes d' ! 1) = 0"
  by code_simp

end
