(* ===== verification/Daemon_Sync.thy ===== *)
theory Daemon_Sync
  imports Daemon_Correct
begin

text \<open>
  What an idle daemon has on the bus: the mode it names as current, the mode the gadget is built from
  and the last good mode agree. A goroutine of an apply is followed stage by stage through the
  rounds of the main loop that come between its pieces. The one way to lose the agreement is a change of submode
  that overtakes a change of mode; a run that does is given at the end.
\<close>

section \<open>Stages\<close>

text \<open>The gadget is built from the mode of \<open>target\<close>, and so is the current mode unless a change is announced.\<close>

definition at_target :: "daemon \<Rightarrow> apply_target \<Rightarrow> bool" where
  "at_target d target \<longleftrightarrow> built_modes d = [tgt_mode target] \<and> (\<not> mode_changed d \<longrightarrow> current_mode d = tgt_mode target)"

fun stage_ok :: "daemon \<Rightarrow> apply_task \<Rightarrow> bool" where
  "stage_ok d TaskApply \<longleftrightarrow> built_modes d = [last_good_mode d]"
| "stage_ok d (TaskWork target so) \<longleftrightarrow> at_target d target \<and> (so \<longrightarrow> tgt_mode target = last_good_mode d)"
| "stage_ok d (TaskSubmodeDone target) \<longleftrightarrow> at_target d target"
| "stage_ok d (TaskSend t) \<longleftrightarrow> at_target d (pending_apply d)"
| "stage_ok d TaskFinish \<longleftrightarrow> at_target d (pending_apply d)"
| "stage_ok d (TaskEnabled target) \<longleftrightarrow> at_target d target"
| "stage_ok d (TaskFailed target so) \<longleftrightarrow> at_target d target \<and> (so \<longrightarrow> tgt_mode target = last_good_mode d)"
| "stage_ok d TaskRollback \<longleftrightarrow> at_target d (last_good d)"
| "stage_ok d TaskRollbackBind \<longleftrightarrow> at_target d (last_good d)"
| "stage_ok d (TaskRollbackSubmode i) \<longleftrightarrow> at_target d (last_good d)"
| "stage_ok d (TaskConclude b) \<longleftrightarrow> at_target d (last_good d)"
| "stage_ok d _ \<longleftrightarrow> True"

text \<open>The message of an apply waits in the channel or in the main loop.\<close>

definition waiting :: "daemon \<Rightarrow> bool" where
  "waiting d \<longleftrightarrow> rebind_chan d \<noteq> None \<or> pending_enable d"

definition sync_inv :: "daemon_state \<Rightarrow> bool" where
  "sync_inv s \<longleftrightarrow> stopped (fst s) \<or>
     list_all (stage_ok (fst s)) (snd s) \<and> (waiting (fst s) \<longrightarrow> at_target (fst s) (pending_apply (fst s))) \<and>
     (flight s = 0 \<longrightarrow> at_target (fst s) (last_good (fst s)))"

lemma last_good_modes: "last_good d' = last_good d \<Longrightarrow> last_good_mode d' = last_good_mode d"
  by (simp add: last_good_def)

lemma tgt_last_good [simp]: "tgt_mode (last_good d) = last_good_mode d"
  by (simp add: last_good_def)

text \<open>What keeps every stage: the three modes and the target of the second phase, with changes of the current one announced.\<close>

lemma at_target_keeps:
  assumes "announces d d'" "built_modes d' = built_modes d" "at_target d target"
  shows "at_target d' target"
  using assms by (auto simp: at_target_def announces_def)

lemma stage_keeps:
  assumes "announces d d'" "built_modes d' = built_modes d" "last_good d' = last_good d" "pending_apply d' = pending_apply d"
    and "stage_ok d t"
  shows "stage_ok d' t"
  using assms(5) at_target_keeps [OF assms(1,2)] by (cases t) (simp_all add: assms last_good_modes [OF assms(3)])

lemma stages_keep:
  assumes "announces d d'" "built_modes d' = built_modes d" "last_good d' = last_good d" "pending_apply d' = pending_apply d"
    and "list_all (stage_ok d) ts"
  shows "list_all (stage_ok d') ts"
  using assms(5) stage_keeps [OF assms(1-4)] by (simp add: list_all_iff)

lemma sync_keeps:
  assumes "announces d d'" "built_modes d' = built_modes d" "last_good d' = last_good d" "pending_apply d' = pending_apply d"
    and "waiting d' = waiting d" "flight (d', ts) = flight (d, ts)" "stopped d \<longrightarrow> stopped d'" "sync_inv (d, ts)"
  shows "sync_inv (d', ts)"
  using assms(5-8) stages_keep [OF assms(1-4)] at_target_keeps [OF assms(1,2)]
  by (auto simp: sync_inv_def assms(3,4))

section \<open>Rounds\<close>

lemma woken_sync:
  assumes "woken d d'" "same_names d d'" "flight (d, ts) \<le> 1" "sync_inv (d, ts)"
  shows "sync_inv (d', ts)"
proof (rule sync_keeps [OF _ _ _ _ _ _ _ assms(4)])
  show "announces d d'" "last_good d' = last_good d" using assms(2) by (auto simp: same_names_def intro: announces_same)
  show "built_modes d' = built_modes d" "pending_apply d' = pending_apply d" "waiting d' = waiting d"
    using assms(1) unfolding woken_def
    by (elim disjE exE conjE; simp add: quiet_def built_modes_def waiting_def)+
  show "flight (d', ts) = flight (d, ts)" "stopped d \<longrightarrow> stopped d'"
    using woken_flight(3,4) [OF assms(1)] assms(3) by simp_all
qed

lemma idle_flight: "flight_exact (d, ts) \<Longrightarrow> \<not> stopped d \<Longrightarrow> \<not> mode_changing d \<Longrightarrow> flight (d, ts) = 0"
  by (simp add: flight_exact_def)

lemma flight_zero_waiting: "flight (d, ts) = 0 \<Longrightarrow> \<not> waiting d \<and> \<not> list_ex is_apply ts"
  by (simp add: flight_zero waiting_def)

lemma not_apply_stage: "\<not> list_ex is_apply ts \<Longrightarrow> list_all (stage_ok d) ts"
proof (induction ts)
  case (Cons t ts)
  then show ?case by (cases t) simp_all
qed simp

lemma round_sync:
  assumes "round_ok due d new d'" "flight_exact (d, ts)" "sync_inv (d, ts)"
  shows "sync_inv (d', ts @ new)"
proof (cases "stopped d")
  case True
  with assms(1) show ?thesis by (simp add: round_ok_def sync_inv_def)
next
  case live: False
  obtain start where start: "new = (if pending_enable d \<and> due then [TaskFinish] else []) @ start"
    "start = [] \<and> announces d d' \<or> start = [TaskApply] \<and> \<not> mode_changing d"
    using assms(1) unfolding round_ok_def by blast
  have d': "built_modes d' = built_modes d" "rebind_chan d' = rebind_chan d" "pending_apply d' = pending_apply d"
    "last_good d' = last_good d" "pending_enable d' = (pending_enable d \<and> \<not> due)" "stopped d' = stopped d"
    using assms(1) by (simp_all add: round_ok_def built_modes_def)
  have inv: "list_all (stage_ok d) ts" "waiting d \<longrightarrow> at_target d (pending_apply d)"
    "flight (d, ts) = 0 \<longrightarrow> at_target d (last_good d)"
    using assms(3) live by (simp_all add: sync_inv_def)
  from start(2) show ?thesis
  proof (elim disjE conjE)
    assume s: "start = []" "announces d d'"
    have w: "waiting d' \<or> TaskFinish \<in> set new \<longrightarrow> at_target d' (pending_apply d')"
      using inv(2) at_target_keeps [OF s(2) d'(1)] by (auto simp: waiting_def d' start(1) s(1) split: if_splits)
    have "flight (d', ts @ new) = flight (d, ts)"
      by (cases "pending_enable d"; cases due) (simp_all add: start(1) s(1) d' flight_def)
    with w inv(1,3) stages_keep [OF s(2) d'(1,4,3)] at_target_keeps [OF s(2) d'(1)] show ?thesis
      by (simp add: sync_inv_def start(1) s(1) d'(4))
  next
    assume s: "start = [TaskApply]" "\<not> mode_changing d"
    have f: "flight (d, ts) = 0" by (rule idle_flight [OF assms(2) live s(2)])
    then have new: "new = [TaskApply]" "\<not> waiting d'"
      using flight_zero_waiting [OF f] by (simp_all add: start(1) s(1) waiting_def d')
    have "built_modes d' = [last_good_mode d']" using inv(3) f d'(1) last_good_modes [OF d'(4)] by (simp add: at_target_def)
    with new flight_zero_waiting [OF f] show ?thesis
      by (simp add: sync_inv_def not_apply_stage)
  qed
qed

section \<open>Pieces\<close>

text \<open>Every change of submode that is under way is one of the mode the gadget is built from.\<close>

fun on_built :: "daemon \<Rightarrow> apply_task \<Rightarrow> bool" where
  "on_built d (TaskWork target so) \<longleftrightarrow> so \<longrightarrow> built_modes d = [tgt_mode target]"
| "on_built d _ \<longleftrightarrow> True"

definition prudent :: "daemon_state \<Rightarrow> bool" where
  "prudent s \<longleftrightarrow> list_all (on_built (fst s)) (snd s)"

text \<open>The stage a piece leads to, or, where the apply ends, the agreement.\<close>

lemma piece_stage:
  assumes "task_ok t d new d'" "is_apply t" "stage_ok d t" "wf_daemon d" "targets_ok (modes d) [t]" "prudent (d', new)"
  shows "list_all (stage_ok d') new \<and> (new = [] \<longrightarrow> (\<exists>u. t = TaskSend u) \<or> at_target d' (last_good d')) \<and>
    (\<forall>u. t = TaskSend u \<longrightarrow> at_target d' (pending_apply d'))"
proof -
  have mc: "mode_changed d' = mode_changed d" using assms(1) by (simp add: task_ok_def)
  have r: "task_result t d new d'" using assms(1) by (simp add: task_ok_def)
  have same: "at_target d' target" if "same_modes d d'" "at_target d target" for target
    using that mc by (simp add: at_target_def same_modes_def)
  have lgm: "last_good_mode d' = last_good_mode d" if "last_good d' = last_good d"
    by (rule last_good_modes [OF that])
  show ?thesis
  proof (cases t)
    case TaskApply
    with r obtain target so where new: "new = [TaskWork target so]" "tgt_mode target = current_mode d'"
      "built_modes d' = (if so then built_modes d else [tgt_mode target])" "last_good d' = last_good d"
      by (auto simp: task_result_def)
    moreover have "so \<longrightarrow> built_modes d' = [tgt_mode target]" using assms(6) new(1) by (simp add: prudent_def)
    ultimately show ?thesis
      using assms(3) lgm TaskApply by (cases so) (simp_all add: at_target_def)
  next
    case (TaskWork target so)
    then have "same_modes d d'" "last_good d' = last_good d" using r by (simp_all add: task_result_def same_modes_def)
    with r assms(3) TaskWork same [of target] lgm show ?thesis by (auto simp: task_result_def)
  next
    case (TaskSend u)
    with r assms(3) same [of "pending_apply d"] show ?thesis by (simp add: task_result_def carries_on_def)
  next
    case TaskFinish
    with r assms(3) same [of "pending_apply d"] show ?thesis by (auto simp: task_result_def carries_on_def)
  next
    case (TaskFailed target so)
    have one: "tgt_mode target = last_good_mode d" if "length (modes d) \<le> 1"
      using that assms(4,5) TaskFailed by (simp add: wf_daemon_def target_ok_def last_good_def)
    have lg: "last_good d' = last_good d" using r TaskFailed by (simp add: task_result_def)
    from r TaskFailed consider
        (none) "new = [TaskConclude False]" "tgt_mode target = last_good_mode d" "same_modes d d'"
      | (rolls) "new = [TaskRollbackSubmode (last_good_mode d)] \<and> so \<and> built_modes d' = built_modes d \<or>
          new = [TaskRollback] \<and> built_modes d' = [last_good_mode d]" "current_mode d' = last_good_mode d"
      using one by (auto simp: task_result_def)
    then show ?thesis
    proof cases
      case none
      with same [of target] assms(3) TaskFailed lg lgm [OF lg] show ?thesis by (simp add: at_target_def)
    next
      case rolls
      with assms(3) TaskFailed lgm [OF lg] show ?thesis by (auto simp: at_target_def)
    qed
  next
    case (TaskConclude b)
    with r assms(3) same [of "last_good d"] show ?thesis by (simp add: task_result_def same_modes_def)
  next
    case (TaskSubmodeDone target)
    with r assms(3) mc show ?thesis by (auto simp: task_result_def applied_def at_target_def)
  next
    case (TaskEnabled target)
    with r assms(3) mc show ?thesis by (auto simp: task_result_def applied_def at_target_def)
  qed (use r assms(2,3) same [of "last_good d"] in \<open>auto simp: task_result_def carries_on_def same_modes_def\<close>)
qed

lemma task_sync:
  assumes "task_ok t d new d'" "flight_exact (d, xs @ t # ys)" "flight_exact (d', xs @ new @ ys)" "sync_inv (d, xs @ t # ys)"
    and "wf_daemon d" "targets_ok (modes d) [t]" "prudent (d', new)"
  shows "sync_inv (d', xs @ new @ ys)"
proof (cases "stopped d")
  case True
  with assms(1) show ?thesis by (simp add: task_ok_def sync_inv_def)
next
  case live: False
  have inv: "stage_ok d t" "list_all (stage_ok d) (xs @ ys)" "waiting d \<longrightarrow> at_target d (pending_apply d)"
    "flight (d, xs @ t # ys) = 0 \<longrightarrow> at_target d (last_good d)"
    using assms(4) live by (simp_all add: sync_inv_def)
  show ?thesis
  proof (cases "is_apply t")
    case False
    with assms(1) have c: "\<not> list_ex is_apply new" "carries_on d d'" "rebind_chan d' = rebind_chan d"
      "pending_enable d' = pending_enable d" "mode_changed d' = mode_changed d"
      by (cases t; simp add: task_defs)+
    then have a: "announces d d'" "built_modes d' = built_modes d" "last_good d' = last_good d" "pending_apply d' = pending_apply d"
      by (auto simp: carries_on_def same_modes_def intro: announces_same)
    have "flight (d', xs @ new @ ys) = flight (d, xs @ t # ys)"
      using False c(1) by (simp add: flight_def c(3,4) no_apply_filter)
    with inv stages_keep [OF a] at_target_keeps [OF a(1,2)] not_apply_stage [OF c(1)] c(3,4) show ?thesis
      by (simp add: sync_inv_def waiting_def a(3,4))
  next
    case True
    have f: "flight (d, xs @ t # ys) \<le> 1"
      using assms(2) by (cases "mode_changing d") (simp_all add: flight_exact_def flight_bound_def)
    then have only: "\<not> list_ex is_apply (xs @ ys)" "\<not> waiting d"
      using True by (auto simp: flight_def list_ex_iff filter_empty_conv waiting_def split: if_splits)
    have pe: "pending_enable d' = pending_enable d" using assms(1) by (simp add: task_ok_def)
    note stage = piece_stage [OF assms(1) True inv(1) assms(5-7)]
    have w: "at_target d' (pending_apply d')" if "waiting d'"
    proof -
      have "\<exists>u. t = TaskSend u"
        using that only(2) pe assms(1) by (cases t) (simp_all add: waiting_def task_ok_def)
      with stage show ?thesis by blast
    qed
    have "new = [] \<and> (\<forall>u. t \<noteq> TaskSend u)" if "flight (d', xs @ new @ ys) = 0"
    proof -
      have z: "\<not> list_ex is_apply new" "rebind_chan d' = None" using that by (simp_all add: flight_zero del: flight_simps)
      then have "\<forall>u. t \<noteq> TaskSend u" using assms(1) by (auto simp: task_ok_def)
      moreover have "new = []"
        using z(1) assms(1) True by (cases t) (auto simp: task_defs)
      ultimately show ?thesis by simp
    qed
    with stage w not_apply_stage [of xs] not_apply_stage [of ys] only(1) show ?thesis
      by (auto simp: sync_inv_def)
  qed
qed

section \<open>Runs\<close>

definition prudent_step :: "daemon_state \<Rightarrow> daemon_state \<Rightarrow> bool" where
  "prudent_step s s' \<longleftrightarrow> daemon_step s s' \<and> prudent s'"

lemma sync_inv_step:
  assumes "prudent_step s s'" "sys_inv cfg s" "flight_exact s" "sync_inv s"
  shows "sync_inv s'"
proof -
  obtain d ts d' ts' where s: "s = (d, ts)" "s' = (d', ts')" by (metis surj_pair)
  have step: "daemon_step s s'" and p: "prudent s'" using assms(1) by (simp_all add: prudent_step_def)
  have f: "flight (d, ts) \<le> 1"
    using assms(3) by (cases "mode_changing d") (simp_all add: s flight_exact_def flight_bound_def)
  show ?thesis
    using step [unfolded s] assms(2) [unfolded s]
  proof (cases rule: step_view)
    case quiet
    with f assms(4) woken_sync [of d d' ts] show ?thesis by (simp add: s woken_def)
  next
    case (round d0 due new)
    have "flight (d0, ts) = flight (d, ts)" by (rule woken_flight(4) [OF round(1) f])
    then have "flight_exact (d0, ts)"
      using assms(3) woken_flight(2,3) [OF round(1)] by (auto simp: s flight_exact_def flight_bound_def)
    moreover have "sync_inv (d0, ts)" using woken_sync [OF round(1,2) f] assms(4) by (simp add: s)
    ultimately show ?thesis unfolding s round(4) by (rule round_sync [OF round(3)])
  next
    case (task xs t ys new)
    have "flight_exact s'" by (rule flight_exact_step [OF step assms(2,3)])
    moreover have "prudent (d', new)" using p by (simp add: s task(3) prudent_def)
    moreover have "wf_daemon d" "targets_ok (modes d) [t]" using assms(2) by (simp_all add: s task(1) sys_inv_def)
    ultimately show ?thesis
      using assms(3,4) task_sync [OF task(2)] unfolding s task(1,3) by blast
  next
    case drop
    then show ?thesis by (simp add: s sync_inv_def)
  qed
qed

lemma begun_sync:
  assumes "run_state (NewDaemon plat cmd) w = (Inr d, w')"
  shows "sync_inv (begun d)"
proof -
  note wf = NewDaemon_wf [OF assms]
  define d0 where "d0 = start_led_interpreters d"
  have d0: "wf_daemon d0" "\<not> submode_changed d0" "rebind_chan d0 = None" "\<not> pending_enable d0"
    using wf by (simp_all add: d0_def start_led_interpreters_def)
  obtain nxt d1 where b: "apply_begin d0 = (nxt, d1)" by (metis surj_pair)
  have ok: "task_ok TaskApply d0 [nxt] d1" by (rule apply_begin_ok [OF d0(1) b])
  then obtain target so where t: "nxt = TaskWork target so" "tgt_mode target = current_mode d1"
      "built_modes d1 = (if so then built_modes d0 else [tgt_mode target])"
    by (auto simp: task_defs)
  have "\<not> so" using b d0(2) t(1) by (auto simp: apply_begin_def Let_def)
  moreover have "\<not> waiting d1" using ok d0 by (simp add: task_ok_def waiting_def)
  ultimately show ?thesis
    using t by (simp add: sync_inv_def begun_def d0_def [symmetric] b at_target_def)
qed

lemma reachable_sync:
  assumes "prudent_step\<^sup>*\<^sup>* s s'" "sys_inv cfg s" "flight_exact s" "commit_inv s" "sync_inv s"
  shows "sys_inv cfg s' \<and> flight_exact s' \<and> sync_inv s'"
  using assms(1)
proof (induction rule: rtranclp_induct)
  case (step y z)
  then have "daemon_step y z" by (simp add: prudent_step_def)
  with step show ?case by (blast intro: sys_inv_step flight_exact_step sync_inv_step)
qed (use assms in simp)


section \<open>Runs on a sample daemon\<close>

text \<open>Some executable moves one after the other, and what is left of the state at the end: the goroutines, the applies
  under way, the mode the gadget is built from, the current and the last good one, and the flags; \<open>None\<close> when a
  change of submode reaches another gadget.\<close>

definition snapshot :: "daemon_state \<Rightarrow> apply_task list \<times> nat \<times> nat list \<times> nat \<times> nat \<times> bool list" where
  "snapshot s = (snd s, flight s, built_modes (fst s), current_mode (fst s), last_good_mode (fst s),
     [mode_changed (fst s), mode_changing (fst s), apply_error (fst s), stopped (fst s)])"

fun run_moves :: "(daemon_state \<Rightarrow> daemon_state) list \<Rightarrow> daemon_state \<Rightarrow> daemon_state" where
  "run_moves [] s = s"
| "run_moves (m # ms) s = run_moves ms (m s)"

fun all_prudent :: "(daemon_state \<Rightarrow> daemon_state) list \<Rightarrow> daemon_state \<Rightarrow> bool" where
  "all_prudent [] s \<longleftrightarrow> prudent s"
| "all_prudent (m # ms) s \<longleftrightarrow> prudent s \<and> all_prudent ms (m s)"

lemma all_prudent_hd: "all_prudent ms s \<Longrightarrow> prudent s"
  by (cases ms) simp_all

definition is_move :: "(daemon_state \<Rightarrow> daemon_state) \<Rightarrow> bool" where
  "is_move m \<longleftrightarrow> (\<forall>s. m s = s \<or> daemon_step s (m s))"

lemma is_move_runs [simp]: "is_move (run_hd w)" "is_move (run_round w k)" "is_move (run_last w)"
  by (simp_all add: is_move_def run_hd_move run_round_move run_last_move)

lemma is_moveD: "is_move m \<Longrightarrow> m s = s \<or> daemon_step s (m s)"
  unfolding is_move_def by (rule spec)

lemma moves_steps:
  assumes "list_all is_move ms"
  shows "daemon_step\<^sup>*\<^sup>* s (run_moves ms s)" "all_prudent ms s \<Longrightarrow> prudent_step\<^sup>*\<^sup>* s (run_moves ms s)"
  using assms
proof (induction ms arbitrary: s)
  case (Cons m ms)
  {
    case 1
    then have "m s = s \<or> daemon_step s (m s)" "list_all is_move ms" by (simp_all add: is_moveD)
    with Cons.IH(1) [of "m s"] show ?case by (auto intro: converse_rtranclp_into_rtranclp)
  next
    case 2
    then have p: "all_prudent ms (m s)" and "m s = s \<or> daemon_step s (m s)" "list_all is_move ms" by (simp_all add: is_moveD)
    then have "m s = s \<or> prudent_step s (m s)" using all_prudent_hd [OF p] by (simp add: prudent_step_def)
    with Cons.IH(2) [OF p] \<open>list_all is_move ms\<close> show ?case by (auto intro: converse_rtranclp_into_rtranclp)
  }
qed simp_all

text \<open>The first apply of the sample daemon, to its end.\<close>

definition sample_moves :: "(daemon_state \<Rightarrow> daemon_state) list" where
  "sample_moves =
     [run_hd dir_world, run_hd dir_world, run_round (dir_world\<lparr>clock := 9000000000\<rparr>) WakeRebind,
      run_last dir_world, run_last dir_world]"

lemma sample_moves_ok: "list_all is_move sample_moves"
  by (simp add: sample_moves_def)


text \<open>A request on the control bus, and the round of the main loop it wakes.\<close>

definition ask :: "string \<Rightarrow> daemon_state \<Rightarrow> daemon_state" where
  "ask spec s = (case RequestGadget spec (fst s) of Some d \<Rightarrow> (d, snd s) | None \<Rightarrow> s)"

lemma ask_move: "is_move (ask spec)"
  by (auto simp: is_move_def ask_def split: option.split intro: daemon_step.gadget)

text \<open>While the first apply works, the RNDIS gadget is asked for in one submode and then in the other.\<close>

definition overtaking :: "(daemon_state \<Rightarrow> daemon_state) list" where
  "overtaking =
     [ask ''rndis.1'', run_round dir_world WakeChan, ask ''rndis'', run_round dir_world WakeChan] @ sample_moves @
     [ask [], run_round dir_world WakeChan, run_last dir_world, run_last lonely_world, run_last dir_world]"

text \<open>The second request turns the pending change of mode into one of submode: the daemon ends up idle,
  naming RNDIS as its current and its last good mode, with no error, and ADB is still what the gadget is built from.\<close>

theorem pending_rebuild_lost:
  defines "s \<equiv> run_moves overtaking (begun sample_daemon)"
  shows "daemon_step\<^sup>*\<^sup>* (begun sample_daemon) s \<and> snapshot s = ([TaskLedInit], 0, [0], 1, 1, [False, False, False, False])"
proof
  show "daemon_step\<^sup>*\<^sup>* (begun sample_daemon) s"
    unfolding s_def
    by (rule moves_steps(1)) (simp add: overtaking_def ask_move sample_moves_ok)
  show "snapshot s = ([TaskLedInit], 0, [0], 1, 1, [False, False, False, False])"
    unfolding s_def by code_simp
qed

text \<open>A simulated tap and a simulated long tap, with the time stamp zero.\<close>

definition press :: "input_event_type \<Rightarrow> daemon_state \<Rightarrow> daemon_state" where
  "press ty s = (with_input (InjectEvent (Some (synthetic 0 ty))) (fst s), snd s)"

lemma press_move: "is_move (press INPUT_TAP)" "is_move (press INPUT_LONG_TAP)"
proof -
  have "daemon_step s (press INPUT_TAP s)" "daemon_step s (press INPUT_LONG_TAP s)" for s
  proof -
    define t where "t = MultipleTapThreshold (Config (input_device (fst s))) + Millisecond"
    have "SimulateButton t SIMULATE_BUTTON_TAP 1 (fst s) = (None, fst (press INPUT_TAP s))"
      "SimulateButton t SIMULATE_BUTTON_LONG 1 (fst s) = (None, fst (press INPUT_LONG_TAP s))"
      by (simp_all add: SimulateButton_def press_def t_def)
    then show "daemon_step s (press INPUT_TAP s)" "daemon_step s (press INPUT_LONG_TAP s)"
      by (cases s; simp add: press_def daemon_step.button)+
  qed
  then show "is_move (press INPUT_TAP)" "is_move (press INPUT_LONG_TAP)" by (simp_all add: is_move_def)
qed

text \<open>A machine on which every call fails, the files being absent: the first apply, then a long tap and a tap.\<close>

definition dead_world :: world where
  "dead_world = \<lparr>env = \<lambda>h c. (Fail NotExist, 1), clock = 5, trace = [], fuel = 1, adbd_process = None\<rparr>"

definition failing :: "(daemon_state \<Rightarrow> daemon_state) list" where
  "failing = [run_hd dead_world, run_hd dead_world, run_hd dead_world]"

definition reselecting :: "(daemon_state \<Rightarrow> daemon_state) list" where
  "reselecting =
     [press INPUT_LONG_TAP, run_round (dead_world\<lparr>clock := 9000000000\<rparr>) WakeInput,
      press INPUT_TAP, run_round (dead_world\<lparr>clock := 9000000000\<rparr>) WakeInput,
      run_last dead_world, run_last dead_world, run_last dead_world]"

text \<open>The failure is shown, and then forgotten: a change of submode reports success and clears the error although
  no gadget was ever built, let alone bound.\<close>

theorem failed_apply_forgotten:
  defines "s \<equiv> run_moves failing (begun sample_daemon)"
  shows "daemon_step\<^sup>*\<^sup>* (begun sample_daemon) s \<and> snapshot s = ([TaskLedInit], 0, [0], 0, 0, [False, False, True, False]) \<and>
    daemon_step\<^sup>*\<^sup>* s (run_moves reselecting s) \<and>
    snapshot (run_moves reselecting s) = ([TaskLedInit], 0, [0], 0, 0, [False, False, False, False])"
proof (intro conjI)
  show "daemon_step\<^sup>*\<^sup>* (begun sample_daemon) s" unfolding s_def by (rule moves_steps(1)) (simp add: failing_def)
  show "daemon_step\<^sup>*\<^sup>* s (run_moves reselecting s)" by (rule moves_steps(1)) (simp add: reselecting_def press_move)
  show "snapshot s = ([TaskLedInit], 0, [0], 0, 0, [False, False, True, False])"
    "snapshot (run_moves reselecting s) = ([TaskLedInit], 0, [0], 0, 0, [False, False, False, False])"
    unfolding s_def by code_simp+
qed

end
