(* ===== verification/Domain_Filter.thy ===== *)
theory Domain_Filter
  imports Netip
begin

text \<open>
  \<open>core/daemon/domain_filter.go\<close> and the name checks of \<open>tls_service.go\<close>: which host names and
  addresses the TLS service may issue certificates for. The code matches on the text of a name; the
  specification it implements speaks about the labels of a name (\<open>label_match\<close>), and
  \<open>rule_allows_labels\<close> shows that the two agree.
\<close>

section \<open>Names\<close>

definition name_char :: "char \<Rightarrow> bool" where
  "name_char c \<longleftrightarrow>
     (let n = of_char c :: nat in
      97 \<le> n \<and> n \<le> 122 \<or> 65 \<le> n \<and> n \<le> 90 \<or> 48 \<le> n \<and> n \<le> 57 \<or> c = CHR ''-'')"

definition valid_label :: "string \<Rightarrow> bool" where
  "valid_label l \<longleftrightarrow>
     l \<noteq> [] \<and> length l \<le> 63 \<and> hd l \<noteq> CHR ''-'' \<and> last l \<noteq> CHR ''-'' \<and> list_all name_char l"

definition addr_zone :: "addr \<Rightarrow> string" where
  "addr_zone a = (case a of Addr6 _ z \<Rightarrow> z | _ \<Rightarrow> [])"

text \<open>The characters of \<open>ContainsAny(name, " /\\\t\r\n")\<close>.\<close>

definition forbidden_chars :: string where
  "forbidden_chars = [CHR '' '', CHR ''/'', char_of (92 :: nat), char_of (9 :: nat), char_of (13 :: nat), char_of (10 :: nat)]"

definition valid_certificate_name :: "string \<Rightarrow> bool" where
  "valid_certificate_name name =
     (case ParseAddr name of
        Some ip \<Rightarrow> addr_IsValid ip \<and> addr_zone ip = []
      | None \<Rightarrow>
          \<not> (name = [] \<or> 253 < length name \<or> ContainsAny name forbidden_chars) \<and>
          list_all valid_label (Split CHR ''.'' name))"

definition valid_dns_name :: "string \<Rightarrow> bool" where
  "valid_dns_name name =
     (if name = [] \<or> 253 < length name then False
      else (case ParseAddr name of Some _ \<Rightarrow> False | None \<Rightarrow> valid_certificate_name name))"

section \<open>Rules\<close>

datatype domain_filter_rule_kind =
    DOMAIN_FILTER_RULE_EXACT
  | DOMAIN_FILTER_RULE_CIDR
  | DOMAIN_FILTER_RULE_SUBDOMAIN
  | DOMAIN_FILTER_RULE_PUNYCODE_LABEL
  | DOMAIN_FILTER_RULE_DEEP_SUBDOMAIN
  | DOMAIN_FILTER_RULE_DOMAIN_AND_SUBDOMAINS
  | DOMAIN_FILTER_RULE_SINGLE_LABEL

record domain_filter_rule =
  rule_kind :: domain_filter_rule_kind
  rule_prefix :: prefix_ip
  rule_name :: string

type_synonym domain_filter = "domain_filter_rule list"

datatype filter_error = EmptyRule | IpRequiresCidr string | InvalidDnsPattern string

definition DOMAIN_FILTER_SUFFIX_SUBDOMAIN_PREFIX :: string where
  "DOMAIN_FILTER_SUFFIX_SUBDOMAIN_PREFIX = ''+.''"

definition DOMAIN_FILTER_SUFFIX_PUNYCODE_PREFIX :: string where
  "DOMAIN_FILTER_SUFFIX_PUNYCODE_PREFIX = ''+*.''"

definition DOMAIN_FILTER_SUFFIX_ANY_SUBDOMAIN_PREFIX :: string where
  "DOMAIN_FILTER_SUFFIX_ANY_SUBDOMAIN_PREFIX = ''*.''"

definition DOMAIN_FILTER_SUFFIX_SINGLE_LABEL_PREFIX :: string where
  "DOMAIN_FILTER_SUFFIX_SINGLE_LABEL_PREFIX = ''?.''"

definition DOMAIN_FILTER_SUFFIX_DEEP_SUBDOMAIN_PREFIX :: string where
  "DOMAIN_FILTER_SUFFIX_DEEP_SUBDOMAIN_PREFIX = ''**.''"

definition DOMAIN_FILTER_PUNYCODE_LABEL_PREFIX :: string where
  "DOMAIN_FILTER_PUNYCODE_LABEL_PREFIX = ''xn--''"

lemmas filter_prefix_defs = DOMAIN_FILTER_SUFFIX_SUBDOMAIN_PREFIX_def DOMAIN_FILTER_SUFFIX_PUNYCODE_PREFIX_def
  DOMAIN_FILTER_SUFFIX_ANY_SUBDOMAIN_PREFIX_def DOMAIN_FILTER_SUFFIX_SINGLE_LABEL_PREFIX_def
  DOMAIN_FILTER_SUFFIX_DEEP_SUBDOMAIN_PREFIX_def

definition no_prefix :: prefix_ip where
  "no_prefix = \<lparr>pfx_addr = AddrNone, pfx_bits = 0\<rparr>"

text \<open>The kind and the name of a pattern, by its leading characters.\<close>

definition split_pattern :: "string \<Rightarrow> domain_filter_rule_kind \<times> string" where
  "split_pattern value =
     (if HasPrefix value DOMAIN_FILTER_SUFFIX_PUNYCODE_PREFIX
      then (DOMAIN_FILTER_RULE_PUNYCODE_LABEL, TrimPrefix value DOMAIN_FILTER_SUFFIX_PUNYCODE_PREFIX)
      else if HasPrefix value DOMAIN_FILTER_SUFFIX_DEEP_SUBDOMAIN_PREFIX
      then (DOMAIN_FILTER_RULE_DEEP_SUBDOMAIN, TrimPrefix value DOMAIN_FILTER_SUFFIX_DEEP_SUBDOMAIN_PREFIX)
      else if HasPrefix value DOMAIN_FILTER_SUFFIX_SUBDOMAIN_PREFIX
      then (DOMAIN_FILTER_RULE_SUBDOMAIN, TrimPrefix value DOMAIN_FILTER_SUFFIX_SUBDOMAIN_PREFIX)
      else if HasPrefix value DOMAIN_FILTER_SUFFIX_ANY_SUBDOMAIN_PREFIX
      then (DOMAIN_FILTER_RULE_DOMAIN_AND_SUBDOMAINS, TrimPrefix value DOMAIN_FILTER_SUFFIX_ANY_SUBDOMAIN_PREFIX)
      else if HasPrefix value DOMAIN_FILTER_SUFFIX_SINGLE_LABEL_PREFIX
      then (DOMAIN_FILTER_RULE_SINGLE_LABEL, TrimPrefix value DOMAIN_FILTER_SUFFIX_SINGLE_LABEL_PREFIX)
      else (DOMAIN_FILTER_RULE_EXACT, value))"

definition parse_rule :: "string \<Rightarrow> (filter_error, domain_filter_rule) result" where
  "parse_rule raw =
     (let value = ToLower (TrimSpace raw) in
      if value = [] then Inl EmptyRule
      else (case ParsePrefix value of
              Some p \<Rightarrow> Inr \<lparr>rule_kind = DOMAIN_FILTER_RULE_CIDR, rule_prefix = Masked p, rule_name = []\<rparr>
            | None \<Rightarrow>
                (case ParseAddr value of
                   Some _ \<Rightarrow> Inl (IpRequiresCidr raw)
                 | None \<Rightarrow>
                     (case split_pattern value of
                        (kind, name) \<Rightarrow>
                          if ContainsAny name ''*+?'' \<or> \<not> valid_dns_name name then Inl (InvalidDnsPattern raw)
                          else Inr \<lparr>rule_kind = kind, rule_prefix = no_prefix, rule_name = name\<rparr>))))"

fun parse_domain_filter :: "string list \<Rightarrow> (filter_error, domain_filter) result" where
  "parse_domain_filter [] = Inr []"
| "parse_domain_filter (raw # values) =
     (case parse_rule raw of
        Inl e \<Rightarrow> Inl e
      | Inr rule \<Rightarrow> (case parse_domain_filter values of Inl e \<Rightarrow> Inl e | Inr rules \<Rightarrow> Inr (rule # rules)))"

definition configured :: "domain_filter \<Rightarrow> bool" where
  "configured rules = (rules \<noteq> [])"

text \<open>Does a rule for names accept the (lower-case) name?\<close>

definition rule_allows :: "domain_filter_rule \<Rightarrow> string \<Rightarrow> bool" where
  "rule_allows rule name =
     (let rn = rule_name rule; pre = TrimSuffix name (''.'' @ rn) in
      case rule_kind rule of
        DOMAIN_FILTER_RULE_EXACT \<Rightarrow> name = rn
      | DOMAIN_FILTER_RULE_SUBDOMAIN \<Rightarrow> name \<noteq> rn \<and> HasSuffix name (''.'' @ rn)
      | DOMAIN_FILTER_RULE_PUNYCODE_LABEL \<Rightarrow>
          pre \<noteq> name \<and> \<not> Contains pre ''.'' \<and> HasPrefix pre DOMAIN_FILTER_PUNYCODE_LABEL_PREFIX \<and>
          length DOMAIN_FILTER_PUNYCODE_LABEL_PREFIX < length pre
      | DOMAIN_FILTER_RULE_DEEP_SUBDOMAIN \<Rightarrow> name \<noteq> rn \<and> HasSuffix name (''.'' @ rn)
      | DOMAIN_FILTER_RULE_DOMAIN_AND_SUBDOMAINS \<Rightarrow> name = rn \<or> HasSuffix name (''.'' @ rn)
      | DOMAIN_FILTER_RULE_SINGLE_LABEL \<Rightarrow> length pre = 1 \<and> pre \<noteq> name
      | DOMAIN_FILTER_RULE_CIDR \<Rightarrow> False)"

definition filter_allows :: "domain_filter \<Rightarrow> string \<Rightarrow> bool" where
  "filter_allows rules name =
     (if \<not> configured rules then True
      else (case ParseAddr name of
              Some ip \<Rightarrow> list_ex (\<lambda>rule. rule_kind rule = DOMAIN_FILTER_RULE_CIDR \<and> pfx_Contains (rule_prefix rule) ip) rules
            | None \<Rightarrow> list_ex (\<lambda>rule. rule_allows rule (ToLower name)) rules))"

section \<open>What the rules mean\<close>

abbreviation labels :: "string \<Rightarrow> string list" where
  "labels \<equiv> Split CHR ''.''"

text \<open>The meaning of a rule for names, on labels: \<open>rl\<close> are those of the rule, \<open>nl\<close> those of the name.\<close>

definition label_match :: "domain_filter_rule_kind \<Rightarrow> string list \<Rightarrow> string list \<Rightarrow> bool" where
  "label_match kind rl nl =
     (case kind of
        DOMAIN_FILTER_RULE_EXACT \<Rightarrow> nl = rl
      | DOMAIN_FILTER_RULE_CIDR \<Rightarrow> False
      | DOMAIN_FILTER_RULE_SUBDOMAIN \<Rightarrow> strict_suffix rl nl
      | DOMAIN_FILTER_RULE_DEEP_SUBDOMAIN \<Rightarrow> strict_suffix rl nl
      | DOMAIN_FILTER_RULE_DOMAIN_AND_SUBDOMAINS \<Rightarrow> suffix rl nl
      | DOMAIN_FILTER_RULE_PUNYCODE_LABEL \<Rightarrow> (\<exists>l. nl = (''xn--'' @ l) # rl \<and> l \<noteq> [])
      | DOMAIN_FILTER_RULE_SINGLE_LABEL \<Rightarrow> (\<exists>c. nl = [c] # rl))"

lemma Split_append_dot: "labels (p @ ''.'' @ s) = labels p @ labels s"
proof (induction p)
  case (Cons x p)
  obtain q qs where "labels p = q # qs" by (cases "labels p") auto
  with Cons show ?case by auto
qed simp

lemma Join_append: "ps \<noteq> [] \<Longrightarrow> qs \<noteq> [] \<Longrightarrow> Join sep (ps @ qs) = Join sep ps @ sep @ Join sep qs"
proof (induction sep ps rule: Join.induct)
  case (2 sep p)
  then show ?case by (cases qs) simp_all
qed simp_all

lemma HasSuffix_labels: "HasSuffix name (''.'' @ rn) \<longleftrightarrow> strict_suffix (labels rn) (labels name)"
proof
  assume "HasSuffix name (''.'' @ rn)"
  then obtain p where "name = p @ ''.'' @ rn" by (rule HasSuffixE)
  then show "strict_suffix (labels rn) (labels name)"
    by (simp add: Split_append_dot [simplified] strict_suffix_def suffix_def)
next
  assume "strict_suffix (labels rn) (labels name)"
  then obtain ls where ls: "labels name = ls @ labels rn" "ls \<noteq> []" by (auto simp: strict_suffix_def suffix_def)
  have "name = Join ''.'' (labels name)" by simp
  also have "\<dots> = Join ''.'' ls @ ''.'' @ Join ''.'' (labels rn)"
    unfolding ls(1) using ls(2) by (rule Join_append) simp
  finally have "name = Join ''.'' ls @ ''.'' @ rn" by simp
  then show "HasSuffix name (''.'' @ rn)" by (metis HasSuffix_append)
qed

lemma labels_single: "c \<noteq> CHR ''.'' \<Longrightarrow> labels [c] = [[c]]"
  by simp

lemma single_label_match:
  assumes "[] \<notin> set (labels name)"
  shows "length (TrimSuffix name (''.'' @ rn)) = 1 \<and> TrimSuffix name (''.'' @ rn) \<noteq> name \<longleftrightarrow>
    (\<exists>c. labels name = [c] # labels rn)"
proof
  assume "length (TrimSuffix name (''.'' @ rn)) = 1 \<and> TrimSuffix name (''.'' @ rn) \<noteq> name"
  then obtain p where p: "name = p @ ''.'' @ rn" "length p = 1"
    by (auto simp: TrimSuffix_def split: if_splits elim!: HasSuffixE)
  then obtain c where c: "p = [c]" by (cases p) auto
  have "labels name = labels [c] @ labels rn" unfolding p(1) c by (rule Split_append_dot)
  moreover have "c \<noteq> CHR ''.''" using assms calculation by auto
  ultimately show "\<exists>c. labels name = [c] # labels rn" by auto
next
  assume "\<exists>c. labels name = [c] # labels rn"
  then obtain c where c: "labels name = [c] # labels rn" by blast
  have "name = Join ''.'' ([[c]] @ labels rn)" using Join_Split [of "CHR ''.''" name] by (simp add: c)
  also have "\<dots> = [c] @ ''.'' @ rn" by (subst Join_append) simp_all
  finally have "name = [c] @ ''.'' @ rn" .
  then show "length (TrimSuffix name (''.'' @ rn)) = 1 \<and> TrimSuffix name (''.'' @ rn) \<noteq> name"
    using TrimSuffix_append [of "[c]" "''.'' @ rn"] by simp
qed

lemma Contains_dot: "Contains s ''.'' \<longleftrightarrow> CHR ''.'' \<in> set s"
  by (auto simp: Contains_def sublist_def in_set_conv_decomp)

lemma punycode_match:
  "TrimSuffix name (''.'' @ rn) \<noteq> name \<and> \<not> Contains (TrimSuffix name (''.'' @ rn)) ''.'' \<and>
     HasPrefix (TrimSuffix name (''.'' @ rn)) ''xn--'' \<and> 4 < length (TrimSuffix name (''.'' @ rn)) \<longleftrightarrow>
   (\<exists>l. labels name = (''xn--'' @ l) # labels rn \<and> l \<noteq> [])"
proof
  assume a: "TrimSuffix name (''.'' @ rn) \<noteq> name \<and> \<not> Contains (TrimSuffix name (''.'' @ rn)) ''.'' \<and>
     HasPrefix (TrimSuffix name (''.'' @ rn)) ''xn--'' \<and> 4 < length (TrimSuffix name (''.'' @ rn))"
  then obtain p where p: "name = p @ ''.'' @ rn" "TrimSuffix name (''.'' @ rn) = p"
    by (auto simp: TrimSuffix_def split: if_splits elim!: HasSuffixE)
  from a p(2) obtain l where l: "p = ''xn--'' @ l" "l \<noteq> []" by (auto simp: HasPrefix_def prefix_def)
  from a p(2) have "CHR ''.'' \<notin> set p" by (simp add: Contains_dot)
  then have "labels name = p # labels rn" by (simp add: p(1) Split_append_sep)
  with l show "\<exists>l. labels name = (''xn--'' @ l) # labels rn \<and> l \<noteq> []" by auto
next
  assume "\<exists>l. labels name = (''xn--'' @ l) # labels rn \<and> l \<noteq> []"
  then obtain l where l: "labels name = (''xn--'' @ l) # labels rn" "l \<noteq> []" by blast
  have "CHR ''.'' \<notin> set (''xn--'' @ l)" by (rule Split_no_sep [of _ _ name]) (simp add: l(1))
  moreover have "name = Join ''.'' ([''xn--'' @ l] @ labels rn)" using Join_Split [of "CHR ''.''" name] by (simp add: l(1))
  then have "name = (''xn--'' @ l) @ ''.'' @ rn" by (subst (asm) Join_append) simp_all
  then have "TrimSuffix name (''.'' @ rn) = ''xn--'' @ l"
    using TrimSuffix_append [of "''xn--'' @ l" "''.'' @ rn"] by simp
  ultimately show "TrimSuffix name (''.'' @ rn) \<noteq> name \<and> \<not> Contains (TrimSuffix name (''.'' @ rn)) ''.'' \<and>
     HasPrefix (TrimSuffix name (''.'' @ rn)) ''xn--'' \<and> 4 < length (TrimSuffix name (''.'' @ rn))"
    using l(2) \<open>name = (''xn--'' @ l) @ ''.'' @ rn\<close> by (simp add: Contains_dot HasPrefix_def)
qed

lemma labels_inj: "labels a = labels b \<longleftrightarrow> a = b"
  by (metis Join_Split)

text \<open>The text-based test of a rule is the label-based one.\<close>

lemma rule_allows_labels:
  assumes "[] \<notin> set (labels name)"
  shows "rule_allows rule name \<longleftrightarrow> label_match (rule_kind rule) (labels (rule_name rule)) (labels name)"
proof (cases "rule_kind rule")
  case DOMAIN_FILTER_RULE_PUNYCODE_LABEL
  with punycode_match [of name "rule_name rule"] show ?thesis
    by (simp add: rule_allows_def label_match_def Let_def DOMAIN_FILTER_PUNYCODE_LABEL_PREFIX_def eval_nat_numeral)
next
  case DOMAIN_FILTER_RULE_SINGLE_LABEL
  with single_label_match [OF assms, of "rule_name rule"] show ?thesis
    by (simp add: rule_allows_def label_match_def Let_def)
next
  case DOMAIN_FILTER_RULE_DOMAIN_AND_SUBDOMAINS
  with HasSuffix_labels [of name "rule_name rule"] labels_inj [of name "rule_name rule"] show ?thesis
    by (auto simp: rule_allows_def label_match_def strict_suffix_def)
next
  case DOMAIN_FILTER_RULE_SUBDOMAIN
  with HasSuffix_labels [of name "rule_name rule"] labels_inj [of name "rule_name rule"] show ?thesis
    by (auto simp: rule_allows_def label_match_def strict_suffix_def)
next
  case DOMAIN_FILTER_RULE_DEEP_SUBDOMAIN
  with HasSuffix_labels [of name "rule_name rule"] labels_inj [of name "rule_name rule"] show ?thesis
    by (auto simp: rule_allows_def label_match_def strict_suffix_def)
qed (use labels_inj [of name "rule_name rule"] in \<open>simp_all add: rule_allows_def label_match_def\<close>)

lemma lower_dot [simp]: "lower_char c = CHR ''.'' \<longleftrightarrow> c = CHR ''.''"
proof
  assume l: "lower_char c = CHR ''.''"
  show "c = CHR ''.''"
  proof (cases "65 \<le> (of_char c :: nat) \<and> (of_char c :: nat) \<le> 90")
    case True
    with l have "char_of ((of_char c :: nat) + 32) = CHR ''.''" by (simp add: lower_char_def)
    then have "(of_char (char_of ((of_char c :: nat) + 32)) :: nat) = 46" by simp
    with True show ?thesis by simp
  qed (use l in \<open>auto simp: lower_char_def Let_def split: if_splits\<close>)
qed (simp add: lower_char_def)

lemma labels_ToLower: "labels (ToLower s) = map ToLower (labels s)"
proof (induction s)
  case (Cons c s)
  obtain q qs where "labels s = q # qs" by (cases "labels s") auto
  with Cons show ?case by (simp add: ToLower_def)
qed (simp add: ToLower_def)

lemma ToLower_Nil [simp]: "ToLower s = [] \<longleftrightarrow> s = []" "[] = ToLower s \<longleftrightarrow> s = []"
  by (auto simp: ToLower_def)

lemma valid_name_labels:
  assumes "valid_certificate_name name" "ParseAddr name = None"
  shows "[] \<notin> set (labels (ToLower name))"
  using assms by (auto simp: valid_certificate_name_def labels_ToLower list_all_iff valid_label_def)

lemma Contains_Masked: "pfx_Contains (Masked p) ip = pfx_Contains p ip"
  by (auto simp: pfx_Contains_def Masked_def pfx_IsValid_def host_mask_drop drop_bit_XOR_0
      simp del: drop_bit_and drop_bit_xor split: addr.splits)

lemma parse_domain_filter_rules:
  "parse_domain_filter values = Inr rules \<Longrightarrow> list_all2 (\<lambda>v r. parse_rule v = Inr r) values rules"
  by (induction "values" arbitrary: rules rule: parse_domain_filter.induct) (auto split: sum.splits)

lemma list_ex_list_all2:
  "list_all2 P xs ys \<Longrightarrow> (\<And>x y. P x y \<Longrightarrow> f x = g y) \<Longrightarrow> list_ex f xs = list_ex g ys"
  by (induction rule: list_all2_induct) auto

lemma parse_rule_cidr:
  assumes "parse_rule v = Inr r"
  shows "(case ParsePrefix (ToLower (TrimSpace v)) of Some p \<Rightarrow> pfx_Contains p ip | None \<Rightarrow> False) =
    (rule_kind r = DOMAIN_FILTER_RULE_CIDR \<and> pfx_Contains (rule_prefix r) ip)"
  using assms
  by (auto simp: parse_rule_def Let_def Contains_Masked split_pattern_def split: if_splits option.splits prod.splits)

lemma parse_rule_name:
  assumes "parse_rule v = Inr r"
  shows "(ParsePrefix (ToLower (TrimSpace v)) = None \<and>
      (case split_pattern (ToLower (TrimSpace v)) of (kind, rn) \<Rightarrow> label_match kind (labels rn) nl)) =
    label_match (rule_kind r) (labels (rule_name r)) nl"
  using assms
  by (auto simp: parse_rule_def Let_def split: if_splits option.splits prod.splits) (auto simp: label_match_def)

section \<open>Property\<close>

text \<open>C10: An allow list means what its patterns say, label by label. For a list that parses and a valid
  name, an address is allowed exactly when one of the networks contains it, and a host name exactly
  when one of the patterns matches its labels, case aside: the name itself, a proper subdomain
  (\<open>+.\<close>, \<open>**.\<close>), the domain or any subdomain (\<open>*.\<close>), one more label of one character (\<open>?.\<close>), or one more
  label that is punycode (\<open>+*.\<close>). Text that merely ends in the same letters never matches.\<close>

theorem filter_allows_by_labels:
  assumes "parse_domain_filter values = Inr rules" and "values \<noteq> []" and "valid_certificate_name name"
  shows "filter_allows rules name \<longleftrightarrow>
    (case ParseAddr name of
       Some ip \<Rightarrow> list_ex (\<lambda>v. case ParsePrefix (ToLower (TrimSpace v)) of Some p \<Rightarrow> pfx_Contains p ip | None \<Rightarrow> False) values
     | None \<Rightarrow> list_ex (\<lambda>v. ParsePrefix (ToLower (TrimSpace v)) = None \<and>
         (case split_pattern (ToLower (TrimSpace v)) of
            (kind, rn) \<Rightarrow> label_match kind (labels rn) (labels (ToLower name)))) values)"
proof -
  have rules: "list_all2 (\<lambda>v r. parse_rule v = Inr r) values rules"
    by (rule parse_domain_filter_rules [OF assms(1)])
  with assms(2) have conf: "configured rules" by (auto simp: configured_def)
  show ?thesis
  proof (cases "ParseAddr name")
    case (Some ip)
    with list_ex_list_all2 [OF rules parse_rule_cidr [where ip = ip]] conf show ?thesis by (simp add: filter_allows_def)
  next
    case None
    have "rule_allows r (ToLower name) = label_match (rule_kind r) (labels (rule_name r)) (labels (ToLower name))" for r
      by (rule rule_allows_labels [OF valid_name_labels [OF assms(3) None]])
    with list_ex_list_all2 [OF rules parse_rule_name [where nl = "labels (ToLower name)"]] None conf show ?thesis
      by (simp add: filter_allows_def)
  qed
qed

theorem filter_allows_by_labels_witness:
  "\<not> filter_allows (projr (parse_domain_filter [''10.22.33.0/24'', ''*.A.com''])) ''evila.com''"
proof -
  have "parse_domain_filter [''10.22.33.0/24'', ''*.A.com''] = Inr (projr (parse_domain_filter [''10.22.33.0/24'', ''*.A.com'']))"
    by code_simp
  moreover have "valid_certificate_name ''evila.com''" "ParseAddr ''evila.com'' = None"
    "ParsePrefix (ToLower (TrimSpace ''10.22.33.0/24'')) \<noteq> None"
    "split_pattern (ToLower (TrimSpace ''*.A.com'')) = (DOMAIN_FILTER_RULE_DOMAIN_AND_SUBDOMAINS, ''a.com'')"
    "labels (ToLower ''evila.com'') = [''evila'', ''com'']" "labels ''a.com'' = [''a'', ''com'']"
    by code_simp+
  ultimately show ?thesis
    using filter_allows_by_labels [of "[''10.22.33.0/24'', ''*.A.com'']" _ "''evila.com''"]
    by (simp add: label_match_def suffix_def Cons_eq_append_conv)
qed

end
