(* ===== verification/Tls_Service.thy ===== *)
theory Tls_Service
  imports Domain_Filter Daemon_Init "HOL-Library.AList"
begin

text \<open>
  \<open>core/daemon/tls_service.go\<close>: the HTTP endpoints Caddy asks, the certificates they issue, and the
  cache. A certificate is the record of its fields (\<open>leaf_cert\<close>); what the crypto libraries
  answer, and what they read from the PEM files, are the arguments \<open>crypto_answers\<close> and
  \<open>root_material\<close>. A request is its method and its query. Serving HTTP itself (\<open>Start\<close>, \<open>Stop\<close>)
  is not modelled. A mutex guards the cache, so each request finds and leaves it whole.
\<close>

section \<open>Data\<close>

definition TLS_SERVICE_DEFAULT_LISTEN :: string where
  "TLS_SERVICE_DEFAULT_LISTEN = ''127.0.0.1:50996''"

datatype key_kind = KeyRsa int | KeyP256 | KeyP384 | KeyP521

text \<open>What \<open>X509KeyPair\<close>, \<open>ParseCertificate\<close> and \<open>pem.Decode\<close> make of the two files.\<close>

record root_material =
  pair_ok :: bool
  chain_nonempty :: bool
  parse_ok :: bool
  root_IsCA :: bool
  root_KeyUsage :: "32 word"
  is_signer :: bool
  is_certificate_pem :: bool
  root_NotBefore :: int
  root_NotAfter :: int

record crypto_answers =
  key_ok :: bool
  serial :: "nat option"
  sign_ok :: bool
  encode_ok :: bool

datatype ext_key_usage = ExtKeyUsageAny | ExtKeyUsageServerAuth | ExtKeyUsageClientAuth

text \<open>The template handed to \<open>CreateCertificate\<close>; fields the source leaves out have Go's zero value.\<close>

record leaf_cert =
  leaf_serial :: nat
  leaf_CommonName :: string
  leaf_NotBefore :: int
  leaf_NotAfter :: int
  leaf_KeyUsage :: "32 word"
  leaf_ExtKeyUsage :: "ext_key_usage list"
  leaf_BasicConstraintsValid :: bool
  leaf_IsCA :: bool
  leaf_IPAddresses :: "addr list"
  leaf_DNSNames :: "string list"
  leaf_key :: key_kind

record cached_tls_certificate =
  cached_leaf :: leaf_cert
  expires_at :: int

record tls_service =
  tls_listen :: string
  tls_root :: root_material
  tls_algorithm :: string
  tls_leaf_duration :: int
  tls_allow :: domain_filter
  cert_cache :: "(string \<times> cached_tls_certificate) list"

datatype tls_error =
    DurationTwice
  | DurationNotPositive
  | UnsupportedAlgorithm string
  | BadFilter filter_error
  | CannotLoadRoot
  | EmptyRoot
  | CannotParseRoot
  | NotSigningCA
  | NotSigner
  | NotPem
  | RootExpired
  | RootNotYetValid
  | BadRsaSize
  | SchemesWithoutRsa
  | SchemesWithout string
  | KeyFailed
  | SerialFailed
  | SignFailed
  | EncodeFailed
  | TooManyListens
  | RootPairIncomplete
  | RootRequired
  | CannotReadCert
  | CannotReadKey

section \<open>Keys\<close>

definition supported_tls_algorithm :: "string \<Rightarrow> bool" where
  "supported_tls_algorithm algorithm =
     (if algorithm \<in> {''ecdsa-p256'', ''ecdsa-p384'', ''ecdsa-p521''} then True
      else if \<not> HasPrefix algorithm ''rsa'' then False
      else (case Atoi (TrimPrefix algorithm ''rsa'') of
              None \<Rightarrow> False
            | Some bits \<Rightarrow> 4096 \<le> bits \<and> go_mod bits 1024 = 0))"

text \<open>\<open>strconv.ParseUint(value, 16, 16)\<close>.\<close>

definition ParseUint16_hex :: "string \<Rightarrow> nat option" where
  "ParseUint16_hex s =
     (if s \<noteq> [] \<and> list_all (\<lambda>c. hex_val c \<noteq> None) s \<and> hexes_val s < 65536 then Some (hexes_val s) else None)"

definition parse_schemes :: "string \<Rightarrow> nat list" where
  "parse_schemes schemes =
     List.map_filter (\<lambda>v. ParseUint16_hex (TrimSpace (TrimPrefix v ''0x''))) (Split CHR '','' schemes)"

definition has_rsa_signature_scheme :: "nat list \<Rightarrow> bool" where
  "has_rsa_signature_scheme schemes = list_ex (\<lambda>s. s \<in> {0x0401, 0x0501, 0x0601, 0x0804, 0x0805, 0x0806}) schemes"

definition curve_of :: "string \<Rightarrow> (key_kind \<times> nat) option" where
  "curve_of algorithm =
     (if algorithm = ''ecdsa-p256'' then Some (KeyP256, 0x0403)
      else if algorithm = ''ecdsa-p384'' then Some (KeyP384, 0x0503)
      else if algorithm = ''ecdsa-p521'' then Some (KeyP521, 0x0603)
      else None)"

definition generate_leaf_key :: "crypto_answers \<Rightarrow> string \<Rightarrow> string \<Rightarrow> (tls_error, key_kind) result" where
  "generate_leaf_key cr algorithm signature_schemes =
     (let schemes = parse_schemes signature_schemes in
      if HasPrefix algorithm ''rsa'' then
        (case Atoi (TrimPrefix algorithm ''rsa'') of
           None \<Rightarrow> Inl BadRsaSize
         | Some bits \<Rightarrow>
             if bits < 4096 \<or> go_mod bits 1024 \<noteq> 0 then Inl BadRsaSize
             else if schemes \<noteq> [] \<and> \<not> has_rsa_signature_scheme schemes then Inl SchemesWithoutRsa
             else if key_ok cr then Inr (KeyRsa bits) else Inl KeyFailed)
      else (case curve_of algorithm of
              None \<Rightarrow> Inl (UnsupportedAlgorithm algorithm)
            | Some (kind, compatible) \<Rightarrow>
                if schemes \<noteq> [] \<and> compatible \<notin> set schemes then Inl (SchemesWithout algorithm)
                else if key_ok cr then Inr kind else Inl KeyFailed))"

section \<open>The service\<close>

definition KeyUsageCertSign :: "32 word" where
  "KeyUsageCertSign = 32"

definition KeyUsageDigitalSignature :: "32 word" where
  "KeyUsageDigitalSignature = 1"

definition NewTlsService ::
  "string \<Rightarrow> root_material \<Rightarrow> string \<Rightarrow> string list \<Rightarrow> int list \<Rightarrow> (tls_error, tls_service) result" where
  "NewTlsService listen root algorithm allow_values leaf_durations =
     (let listen = TrimSpace listen;
          listen = (if listen = [] then TLS_SERVICE_DEFAULT_LISTEN else listen);
          algorithm = ToLower (TrimSpace algorithm);
          algorithm = (if algorithm = [] then ''ecdsa-p384'' else algorithm);
          leaf_duration = (case leaf_durations of [d] \<Rightarrow> d | _ \<Rightarrow> 26 * 3600 * Second) in
      if 1 < length leaf_durations then Inl DurationTwice
      else if leaf_duration \<le> 0 then Inl DurationNotPositive
      else if \<not> supported_tls_algorithm algorithm then Inl (UnsupportedAlgorithm algorithm)
      else (case parse_domain_filter allow_values of
              Inl e \<Rightarrow> Inl (BadFilter e)
            | Inr allowed \<Rightarrow>
                if \<not> pair_ok root then Inl CannotLoadRoot
                else if \<not> chain_nonempty root then Inl EmptyRoot
                else if \<not> parse_ok root then Inl CannotParseRoot
                else if \<not> root_IsCA root \<or> (root_KeyUsage root \<noteq> 0 \<and> root_KeyUsage root AND KeyUsageCertSign = 0)
                then Inl NotSigningCA
                else if \<not> is_signer root then Inl NotSigner
                else if \<not> is_certificate_pem root then Inl NotPem
                else Inr \<lparr>tls_listen = listen, tls_root = root, tls_algorithm = algorithm,
                          tls_leaf_duration = leaf_duration, tls_allow = allowed, cert_cache = []\<rparr>))"

definition min_time :: "int \<Rightarrow> int \<Rightarrow> int" where
  "min_time a b = (if b < a then b else a)"

definition generate_certificate ::
  "crypto_answers \<Rightarrow> string \<Rightarrow> string \<Rightarrow> tls_service \<Rightarrow> (tls_error, leaf_cert) result io" where
  "generate_certificate cr server_name signature_schemes this = do {
     t \<leftarrow> now;
     if root_NotAfter (tls_root this) < t then return (Inl RootExpired)
     else (case generate_leaf_key cr (tls_algorithm this) signature_schemes of
             Inl e \<Rightarrow> return (Inl e)
           | Inr key \<Rightarrow>
               (case serial cr of
                  None \<Rightarrow> return (Inl SerialFailed)
                | Some sn \<Rightarrow> do {
                    t \<leftarrow> now;
                    let not_after = t + tls_leaf_duration this;
                    let not_after = (if root_NotAfter (tls_root this) < not_after then root_NotAfter (tls_root this) else not_after);
                    if t < root_NotBefore (tls_root this) then return (Inl RootNotYetValid)
                    else do {
                      let not_before = t - 60 * Second;
                      let not_before = (if not_before < root_NotBefore (tls_root this) then root_NotBefore (tls_root this) else not_before);
                      let leaf = \<lparr>leaf_serial = sn, leaf_CommonName = server_name, leaf_NotBefore = not_before,
                          leaf_NotAfter = not_after, leaf_KeyUsage = KeyUsageDigitalSignature,
                          leaf_ExtKeyUsage = [ExtKeyUsageServerAuth], leaf_BasicConstraintsValid = True, leaf_IsCA = False,
                          leaf_IPAddresses = (case ParseAddr server_name of Some ip \<Rightarrow> [ip] | None \<Rightarrow> []),
                          leaf_DNSNames = (case ParseAddr server_name of Some _ \<Rightarrow> [] | None \<Rightarrow> [server_name]),
                          leaf_key = key\<rparr>;
                      return (if \<not> sign_ok cr then Inl SignFailed
                              else if \<not> encode_ok cr then Inl EncodeFailed
                              else Inr leaf)
                    }
                  }))
   }"

definition cache_key :: "string \<Rightarrow> string \<Rightarrow> string" where
  "cache_key server_name signature_schemes = server_name @ [char_of (0 :: nat)] @ signature_schemes"

definition get_or_generate_certificate ::
  "crypto_answers \<Rightarrow> string \<Rightarrow> string \<Rightarrow> tls_service \<Rightarrow> ((tls_error, leaf_cert) result \<times> tls_service) io" where
  "get_or_generate_certificate cr server_name signature_schemes this = do {
     let key = cache_key server_name signature_schemes;
     t \<leftarrow> now;
     (case (case map_of (cert_cache this) key of
              Some cached \<Rightarrow> if 60 * Second < expires_at cached - t then Some cached else None
            | None \<Rightarrow> None) of
        Some cached \<Rightarrow> return (Inr (cached_leaf cached), this)
      | None \<Rightarrow> do {
          leaf \<leftarrow> generate_certificate cr server_name signature_schemes this;
          (case leaf of
             Inl e \<Rightarrow> return (Inl e, this)
           | Inr leaf \<Rightarrow> do {
               t \<leftarrow> now;
               return (Inr leaf, this\<lparr>cert_cache := AList.update key
                 \<lparr>cached_leaf = leaf, expires_at = min_time (t + tls_leaf_duration this) (root_NotAfter (tls_root this))\<rparr>
                 (cert_cache this)\<rparr>)
             })
        })
   }"

section \<open>Who owns an address\<close>

text \<open>The reply to \<open>NetInterface\<close> has \<open>''up''\<close> among its items when the flag is set.\<close>

definition iface_owns_ip :: "string \<Rightarrow> addr \<Rightarrow> bool io" where
  "iface_owns_ip ifn ip =
     (if ifn = [] then return False
      else do {
        iface \<leftarrow> sys (NetInterface ifn);
        if \<not> ok iface \<or> ''up'' \<notin> set (items iface) then return False
        else do {
          addrs \<leftarrow> sys (IfaceAddrs ifn);
          return (ok addrs \<and>
            list_ex (\<lambda>a. case ParsePrefix a of Some p \<Rightarrow> pfx_addr p = ip | None \<Rightarrow> False) (items addrs))
        }
      })"

fun rndis_ifname :: "gadget_function list \<Rightarrow> string" where
  "rndis_ifname [] = []"
| "rndis_ifname (FnRndis r # ms) = ifname r"
| "rndis_ifname (FnAdb a # ms) = rndis_ifname ms"

definition rndis_owns_ip :: "addr \<Rightarrow> daemon \<Rightarrow> bool io" where
  "rndis_owns_ip ip d = iface_owns_ip (rndis_ifname (modes d)) ip"

definition is_current_rndis_mode :: "daemon \<Rightarrow> bool" where
  "is_current_rndis_mode d = current_mode_rndis d"

section \<open>The endpoints\<close>

record http_request =
  req_Method :: string
  req_Query :: "string \<Rightarrow> string"

abbreviation (input) StatusOK :: nat where "StatusOK \<equiv> 200"
abbreviation (input) StatusBadRequest :: nat where "StatusBadRequest \<equiv> 400"
abbreviation (input) StatusForbidden :: nat where "StatusForbidden \<equiv> 403"
abbreviation (input) StatusMethodNotAllowed :: nat where "StatusMethodNotAllowed \<equiv> 405"
abbreviation (input) StatusInternalServerError :: nat where "StatusInternalServerError \<equiv> 500"

definition handle_ask :: "http_request \<Rightarrow> daemon \<Rightarrow> tls_service \<Rightarrow> nat io" where
  "handle_ask r d this =
     (if req_Method r \<noteq> ''GET'' then return StatusMethodNotAllowed
      else
        (let domain = TrimSpace (req_Query r ''domain'') in
         if domain = [] then return StatusBadRequest
         else if \<not> is_current_rndis_mode d then return StatusForbidden
         else if \<not> valid_certificate_name domain then return StatusBadRequest
         else if configured (tls_allow this) then
           return (if \<not> filter_allows (tls_allow this) domain then StatusForbidden else StatusOK)
         else (case ParseAddr domain of
                 None \<Rightarrow> return StatusForbidden
               | Some ip \<Rightarrow> do {
                   owned \<leftarrow> rndis_owns_ip ip d;
                   return (if \<not> owned then StatusForbidden else StatusOK)
                 })))"

text \<open>May a certificate for \<open>server_name\<close> be issued on \<open>local_ip\<close>?\<close>

definition may_issue :: "addr \<Rightarrow> string \<Rightarrow> daemon \<Rightarrow> tls_service \<Rightarrow> bool io" where
  "may_issue local_ip server_name d this =
     (if configured (tls_allow this) then return (filter_allows (tls_allow this) server_name)
      else do {
        owned \<leftarrow> rndis_owns_ip local_ip d;
        if \<not> owned then return False
        else (case ParseAddr server_name of
                Some name_ip \<Rightarrow> rndis_owns_ip name_ip d
              | None \<Rightarrow> return True)
      })"

definition handle_generate ::
  "crypto_answers \<Rightarrow> http_request \<Rightarrow> daemon \<Rightarrow> tls_service \<Rightarrow> (nat \<times> leaf_cert option \<times> tls_service) io" where
  "handle_generate cr r d this =
     (if req_Method r \<noteq> ''GET'' then return (StatusMethodNotAllowed, None, this)
      else (case ParseAddr (TrimSpace (req_Query r ''local_ip'')) of
        None \<Rightarrow> return (StatusBadRequest, None, this)
      | Some local_ip \<Rightarrow>
          if \<not> is_current_rndis_mode d then return (StatusForbidden, None, this)
          else
            (let server_name = req_Query r ''server_name'';
                 server_name = (if server_name = [] then addr_String local_ip else server_name) in
             if TrimSpace server_name \<noteq> server_name \<or> \<not> valid_certificate_name server_name
             then return (StatusBadRequest, None, this)
             else do {
               allowed \<leftarrow> may_issue local_ip server_name d this;
               if \<not> allowed then return (StatusForbidden, None, this)
               else do {
                 (leaf, this) \<leftarrow> get_or_generate_certificate cr server_name (req_Query r ''signature_schemes'') this;
                 return (case leaf of
                     Inl _ \<Rightarrow> (StatusInternalServerError, None, this)
                   | Inr leaf \<Rightarrow> (StatusOK, Some leaf, this))
               }
             })))"

section \<open>Options\<close>

fun listen_from_argv :: "string list \<Rightarrow> string" where
  "listen_from_argv [] = []"
| "listen_from_argv (arg # argv) =
     (if arg = ''--tls-service'' \<or> arg = ''--tls-service='' then TLS_SERVICE_DEFAULT_LISTEN
      else if HasPrefix arg ''--tls-service='' then
        (let addr = TrimSpace (TrimPrefix arg ''--tls-service='') in
         if addr = [] then TLS_SERVICE_DEFAULT_LISTEN else addr)
      else listen_from_argv argv)"

definition parse_tls_service_listen :: "string list \<Rightarrow> string list \<Rightarrow> (tls_error, string) result" where
  "parse_tls_service_listen values argv =
     (case values of
        [] \<Rightarrow> Inr (listen_from_argv argv)
      | [v] \<Rightarrow> (let addr = TrimSpace v in Inr (if addr = [] then TLS_SERVICE_DEFAULT_LISTEN else addr))
      | _ \<Rightarrow> Inl TooManyListens)"

definition read_tls_root :: "string \<Rightarrow> string \<Rightarrow> (tls_error, string \<times> string) result io" where
  "read_tls_root cert_path key_path = do {
     cert \<leftarrow> sys (ReadFile cert_path);
     if \<not> ok cert then return (Inl CannotReadCert)
     else do {
       key \<leftarrow> sys (ReadFile key_path);
       return (if \<not> ok key then Inl CannotReadKey else Inr (data cert, data key))
     }
   }"

text \<open>The end of the daemon's \<open>init\<close>: no service, a service, or an error. \<open>load\<close> reads the PEM files.\<close>

definition init_tls ::
  "(string \<Rightarrow> string \<Rightarrow> root_material) \<Rightarrow> string list \<Rightarrow> daemon_cmd \<Rightarrow> (tls_error, tls_service option) result io" where
  "init_tls load argv cmd =
     (case parse_tls_service_listen (cmd_TlsService cmd) argv of
        Inl e \<Rightarrow> return (Inl e)
      | Inr listen \<Rightarrow>
          if (cmd_TlsRootKey cmd = []) \<noteq> (cmd_TlsRootCert cmd = []) then return (Inl RootPairIncomplete)
          else if listen = [] then return (Inr None)
          else if cmd_TlsRootKey cmd = [] \<or> cmd_TlsRootCert cmd = [] then return (Inl RootRequired)
          else do {
            root \<leftarrow> read_tls_root (cmd_TlsRootCert cmd) (cmd_TlsRootKey cmd);
            return (case root of
                Inl e \<Rightarrow> Inl e
              | Inr (cert, key) \<Rightarrow>
                  (case NewTlsService listen (load cert key) (cmd_TlsAlgorithm cmd) (cmd_TlsAllow cmd) [cmd_TlsLeafDuration cmd] of
                     Inl e \<Rightarrow> Inl e
                   | Inr s \<Rightarrow> Inr (Some s)))
          })"

section \<open>Valid names hold no NUL\<close>

text \<open>The cache key puts a NUL between the name and the schemes, so it tells them apart only for names without one.\<close>

abbreviation NUL :: char where
  "NUL \<equiv> char_of (0 :: nat)"

lemma NUL_not_char: "hex_val NUL = None" "\<not> is_digit NUL" "\<not> name_char NUL"
  by (simp_all add: hex_val_def is_digit_def name_char_def char_of_def)

lemma NUL_not_literal [simp]:
  "CHR ''.'' \<noteq> NUL" "NUL \<noteq> CHR ''.''" "CHR '':'' \<noteq> NUL" "NUL \<noteq> CHR '':''" "NUL \<noteq> CHR ''%''"
  by (simp_all add: char_of_def)

lemma NUL_Split:
  assumes "sep \<noteq> NUL" and "\<And>p. p \<in> set (Split sep s) \<Longrightarrow> NUL \<notin> set p"
  shows "NUL \<notin> set s"
proof -
  have "set (Join [sep] ps) \<subseteq> insert sep (\<Union>p \<in> set ps. set p)" for ps
    by (induction "[sep]" ps rule: Join.induct) auto
  from this [of "Split sep s"] assms show ?thesis by auto
qed

lemma NUL_parse_decimal: "parse_decimal s = Some n \<Longrightarrow> NUL \<notin> set s"
  using NUL_not_char(2) by (auto simp: parse_decimal_def list_all_iff split: if_splits)

lemma NUL_parse_ipv4: "parse_ipv4 s = Some b \<Longrightarrow> NUL \<notin> set s"
  by (rule NUL_Split [of "CHR ''.''"])
    (auto simp: parse_ipv4_def parse_octet_def split: list.splits option.splits if_splits dest!: NUL_parse_decimal)

lemma NUL_takeWhile:
  assumes "NUL \<notin> set (drop (length (takeWhile (\<lambda>c. hex_val c \<noteq> None) s)) s)"
  shows "NUL \<notin> set s"
proof
  assume "NUL \<in> set s"
  then have "NUL \<in> set (takeWhile (\<lambda>c. hex_val c \<noteq> None) s @ dropWhile (\<lambda>c. hex_val c \<noteq> None) s)" by simp
  with assms have "NUL \<in> set (takeWhile (\<lambda>c. hex_val c \<noteq> None) s)" by (auto simp: dropWhile_eq_drop)
  then show False using NUL_not_char(1) by (auto dest: set_takeWhileD)
qed

lemma NUL_ipv6_loop: "ipv6_loop gs ell s = Some (hs, e, []) \<Longrightarrow> NUL \<notin> set s"
proof (induction gs ell s rule: ipv6_loop.induct)
  case (1 gs ell s)
  define digits where "digits = takeWhile (\<lambda>c. hex_val c \<noteq> None) s"
  define rest where "rest = drop (length digits) s"
  note IH = 1(1,2) [OF _ digits_def rest_def]
  have suff: "NUL \<notin> set rest \<Longrightarrow> NUL \<notin> set s"
    unfolding rest_def digits_def by (rule NUL_takeWhile)
  note eq = 1(3) [unfolded ipv6_loop.simps [of gs ell s] Let_def, folded digits_def, folded rest_def]
  show ?case
  proof (cases "8 \<le> length gs \<or> rest = [] \<or> hd rest = CHR ''.''")
    case True
    with eq suff show ?thesis by (auto split: if_splits option.splits dest: NUL_parse_ipv4)
  next
    case False
    with eq have colon: "hd rest = CHR '':''" "length rest \<noteq> 1" by (auto split: if_splits)
    then obtain t where rest: "rest = CHR '':'' # t" "t \<noteq> []" using False by (cases rest) auto
    obtain c u where t: "t = c # u" using rest(2) by (cases t) auto
    have "NUL \<notin> set t"
    proof (cases "c = CHR '':''")
      case True
      with eq False rest t IH(1) show ?thesis by (auto split: if_splits)
    next
      case c: False
      with eq False rest t IH(2) show ?thesis by (auto split: if_splits)
    qed
    with rest(1) show ?thesis by (intro suff) simp
  qed
qed

lemma NUL_ParseAddr:
  assumes "ParseAddr s = Some ip" and "addr_zone ip = []"
  shows "NUL \<notin> set s"
proof -
  from assms(1) consider b where "parse_ipv4 s = Some b" | "parse_ipv6 s = Some ip"
    by (auto simp: ParseAddr_def split: list.splits if_splits)
  then show ?thesis
  proof cases
    case 2
    obtain t zone zoned where cut: "Cut CHR ''%'' s = (t, zone, zoned)" by (metis surj_pair)
    from 2 assms(2) have zone: "zone = []" "\<not> zoned"
      by (auto simp: parse_ipv6_def cut addr_zone_def Let_def split: if_splits option.splits)
    with cut have t: "t = s" by (auto simp: Cut_def split: if_splits)
    show ?thesis
    proof (cases "HasPrefix s ''::''")
      case True
      then obtain u where u: "s = ''::'' @ u" by (auto simp: HasPrefix_def prefix_def)
      with 2 cut t zone show ?thesis
        by (auto simp: parse_ipv6_def Let_def HasPrefix_def split: if_splits option.splits dest: NUL_ipv6_loop)
    next
      case False
      with 2 cut t zone show ?thesis
        by (auto simp: parse_ipv6_def Let_def split: if_splits option.splits dest: NUL_ipv6_loop)
    qed
  qed (rule NUL_parse_ipv4)
qed

lemma NUL_valid_name:
  assumes "valid_certificate_name name"
  shows "NUL \<notin> set name"
proof (cases "ParseAddr name")
  case None
  with assms have labs: "list_all valid_label (Split CHR ''.'' name)" by (simp add: valid_certificate_name_def)
  show ?thesis
  proof (rule NUL_Split)
    fix p
    assume "p \<in> set (Split CHR ''.'' name)"
    with labs have "list_all name_char p" by (auto simp: list_all_iff valid_label_def)
    with NUL_not_char(3) show "NUL \<notin> set p" by (auto simp: list_all_iff)
  qed simp
next
  case (Some ip)
  with assms NUL_ParseAddr [OF Some] show ?thesis by (simp add: valid_certificate_name_def)
qed

lemma cache_key_inj:
  assumes "valid_certificate_name n" "valid_certificate_name n'" "cache_key n s = cache_key n' s'"
  shows "n = n' \<and> s = s'"
proof -
  have cut: "Cut NUL (cache_key n s) = (n, s, True)" if "valid_certificate_name n" for n s
    unfolding cache_key_def append.simps by (rule Cut_append [OF NUL_valid_name [OF that]])
  show ?thesis using cut [OF assms(1), of s] unfolding assms(3) cut [OF assms(2)] by blast
qed

section \<open>The cache\<close>

text \<open>
  A cache whose keys are built from two parts, used by a client that only ever asks for valid first
  parts: what it holds under a key was stored for the very parts the key is built from.
\<close>

definition cache_holds ::
  "('n \<Rightarrow> 's \<Rightarrow> 'k) \<Rightarrow> ('n \<Rightarrow> bool) \<Rightarrow> ('n \<Rightarrow> 's \<Rightarrow> 'v \<Rightarrow> bool) \<Rightarrow> ('k \<times> 'v) list \<Rightarrow> bool" where
  "cache_holds key valid good cache \<longleftrightarrow>
     (\<forall>k v. map_of cache k = Some v \<longrightarrow> (\<exists>n s. valid n \<and> k = key n s \<and> good n s v))"

locale keyed_cache =
  fixes key :: "'n \<Rightarrow> 's \<Rightarrow> 'k" and valid :: "'n \<Rightarrow> bool"
  assumes key_inj: "valid n \<Longrightarrow> valid n' \<Longrightarrow> key n s = key n' s' \<Longrightarrow> n = n' \<and> s = s'"
begin

lemma empty: "cache_holds key valid good []"
  by (simp add: cache_holds_def)

lemma lookup:
  assumes "cache_holds key valid good cache" "valid n" "map_of cache (key n s) = Some v"
  shows "good n s v"
  using assms key_inj unfolding cache_holds_def by blast

lemma store:
  assumes "cache_holds key valid good cache" "valid n" "good n s v"
  shows "cache_holds key valid good (AList.update (key n s) v cache)"
  using assms unfolding cache_holds_def by (auto simp: update_conv')

end

interpretation certs: keyed_cache cache_key valid_certificate_name
  by unfold_locales (rule cache_key_inj)

section \<open>The certificates\<close>

text \<open>
  What a leaf certificate for a name and a request's signature schemes must be: that name and no
  other, for servers and never for signing, inside the root's validity, no longer than the configured duration plus the minute of
  backdating, with a key of the configured algorithm that the schemes admit.
\<close>

definition leaf_for :: "tls_service \<Rightarrow> string \<Rightarrow> string \<Rightarrow> leaf_cert \<Rightarrow> bool" where
  "leaf_for this name schemes leaf \<longleftrightarrow>
     leaf_CommonName leaf = name \<and>
     leaf_IPAddresses leaf = (case ParseAddr name of Some ip \<Rightarrow> [ip] | None \<Rightarrow> []) \<and>
     leaf_DNSNames leaf = (case ParseAddr name of Some _ \<Rightarrow> [] | None \<Rightarrow> [name]) \<and>
     \<not> leaf_IsCA leaf \<and> leaf_KeyUsage leaf AND KeyUsageCertSign = 0 \<and> leaf_ExtKeyUsage leaf = [ExtKeyUsageServerAuth] \<and>
     root_NotBefore (tls_root this) \<le> leaf_NotBefore leaf \<and>
     leaf_NotAfter leaf \<le> root_NotAfter (tls_root this) \<and>
     leaf_NotAfter leaf \<le> leaf_NotBefore leaf + tls_leaf_duration this + 60 * Second \<and>
     (\<exists>cr. generate_leaf_key cr (tls_algorithm this) schemes = Inr (leaf_key leaf))"

definition certs_ok :: "tls_service \<Rightarrow> bool" where
  "certs_ok this \<longleftrightarrow>
     cache_holds cache_key valid_certificate_name (\<lambda>n s c. leaf_for this n s (cached_leaf c)) (cert_cache this)"

definition same_config :: "tls_service \<Rightarrow> tls_service \<Rightarrow> bool" where
  "same_config s s' \<longleftrightarrow> s'\<lparr>cert_cache := []\<rparr> = s\<lparr>cert_cache := []\<rparr>"

lemma same_config_fields:
  assumes "same_config s s'"
  shows "tls_root s' = tls_root s" "tls_algorithm s' = tls_algorithm s" "tls_allow s' = tls_allow s"
    "tls_leaf_duration s' = tls_leaf_duration s"
  using assms by (cases s; cases s'; simp add: same_config_def)+

lemma leaf_for_cong: "same_config s s' \<Longrightarrow> leaf_for s' = leaf_for s"
  by (intro ext) (simp add: leaf_for_def same_config_fields)

lemma same_config_refl [simp]: "same_config s s"
  by (simp add: same_config_def)

lemma same_config_trans: "same_config s t \<Longrightarrow> same_config t u \<Longrightarrow> same_config s u"
  by (simp add: same_config_def)

lemma same_config_cache [simp]: "same_config s (s\<lparr>cert_cache := c\<rparr>)"
  by (simp add: same_config_def)

lemma generate_certificate_leaf:
  assumes "run_state (generate_certificate cr name schemes this) w = (Inr leaf, w')"
  shows "leaf_for this name schemes leaf"
  using assms
  by (auto simp: generate_certificate_def leaf_for_def Let_def KeyUsageCertSign_def KeyUsageDigitalSignature_def split: if_splits sum.splits option.splits)

lemma get_or_generate_ok:
  assumes "certs_ok this" "valid_certificate_name name"
    "run_state (get_or_generate_certificate cr name schemes this) w = ((res, this'), w')"
  shows "same_config this this' \<and> certs_ok this' \<and> (\<forall>leaf. res = Inr leaf \<longrightarrow> leaf_for this name schemes leaf)"
proof (cases "\<exists>c. map_of (cert_cache this) (cache_key name schemes) = Some c \<and> 60 * Second < expires_at c - clock w")
  case True
  then obtain c where c: "map_of (cert_cache this) (cache_key name schemes) = Some c" "60 * Second < expires_at c - clock w"
    by blast
  moreover from certs.lookup [OF _ assms(2) c(1)] assms(1) have "leaf_for this name schemes (cached_leaf c)"
    unfolding certs_ok_def by blast
  ultimately show ?thesis using assms(1,3) by (auto simp: get_or_generate_certificate_def Let_def)
next
  case False
  then have miss: "(case map_of (cert_cache this) (cache_key name schemes) of
      Some cached \<Rightarrow> if 60 * Second < expires_at cached - clock w then Some cached else None | None \<Rightarrow> None) = None"
    by (auto split: option.splits)
  obtain leaf w1 where gen: "run_state (generate_certificate cr name schemes this) w = (leaf, w1)" by (metis surj_pair)
  show ?thesis
  proof (cases leaf)
    case (Inl e)
    with gen miss assms(1,3) show ?thesis by (auto simp: get_or_generate_certificate_def Let_def)
  next
    case (Inr l)
    with gen have l: "leaf_for this name schemes l" by (metis generate_certificate_leaf)
    define c where "c = \<lparr>cached_leaf = l, expires_at = min_time (clock w1 + tls_leaf_duration this) (root_NotAfter (tls_root this))\<rparr>"
    from gen miss assms(3) Inr have res: "res = Inr l" "this' = this\<lparr>cert_cache := AList.update (cache_key name schemes) c (cert_cache this)\<rparr>"
      by (auto simp: get_or_generate_certificate_def Let_def c_def)
    have "certs_ok this'"
      unfolding certs_ok_def res(2)
      using certs.store [of "\<lambda>n s c. leaf_for this n s (cached_leaf c)" "cert_cache this" name schemes c] assms(1,2) l
      by (simp add: certs_ok_def c_def leaf_for_cong [OF same_config_cache])
    with l res show ?thesis by simp
  qed
qed

text \<open>The service from its start on: any requests, answered in any order, at any state of the daemon.\<close>

inductive tls_run :: "tls_service \<Rightarrow> tls_service \<Rightarrow> bool" for s0 :: tls_service where
  start: "tls_run s0 s0"
| request: "tls_run s0 s \<Longrightarrow> run_state (handle_generate cr r d s) w = ((code, leaf, s'), w') \<Longrightarrow> tls_run s0 s'"

definition requested_name :: "http_request \<Rightarrow> addr \<Rightarrow> string" where
  "requested_name r local_ip =
     (if req_Query r ''server_name'' = [] then addr_String local_ip else req_Query r ''server_name'')"

lemma handle_generate_cases:
  assumes "run_state (handle_generate cr r d this) w = ((code, leaf, this'), w')"
  obtains (refused) "code \<noteq> StatusOK" "leaf = None" "this' = this"
  | (served) local_ip w1 res where
      "req_Method r = ''GET''" "ParseAddr (TrimSpace (req_Query r ''local_ip'')) = Some local_ip"
      "is_current_rndis_mode d" "TrimSpace (requested_name r local_ip) = requested_name r local_ip"
      "valid_certificate_name (requested_name r local_ip)"
      "run_state (may_issue local_ip (requested_name r local_ip) d this) w = (True, w1)"
      "run_state (get_or_generate_certificate cr (requested_name r local_ip) (req_Query r ''signature_schemes'') this) w1 =
         ((res, this'), w')"
      "(code, leaf) = (case res of Inl _ \<Rightarrow> (StatusInternalServerError, None) | Inr l \<Rightarrow> (StatusOK, Some l))"
proof (cases "\<exists>local_ip. ParseAddr (TrimSpace (req_Query r ''local_ip'')) = Some local_ip \<and> req_Method r = ''GET'' \<and>
    is_current_rndis_mode d \<and> TrimSpace (requested_name r local_ip) = requested_name r local_ip \<and>
    valid_certificate_name (requested_name r local_ip)")
  case True
  then obtain ip where ip: "ParseAddr (TrimSpace (req_Query r ''local_ip'')) = Some ip" "req_Method r = ''GET''"
    "is_current_rndis_mode d" "TrimSpace (requested_name r ip) = requested_name r ip"
    "valid_certificate_name (requested_name r ip)" by blast
  obtain b w1 where may: "run_state (may_issue ip (requested_name r ip) d this) w = (b, w1)" by (metis surj_pair)
  obtain res this1 w2 where get: "run_state (get_or_generate_certificate cr (requested_name r ip)
      (req_Query r ''signature_schemes'') this) w1 = ((res, this1), w2)" by (metis surj_pair)
  note run = assms [unfolded handle_generate_def Let_def, folded requested_name_def]
  show thesis
  proof (cases b)
    case True
    with run ip may get have "this1 = this'" "w2 = w'"
      "(code, leaf) = (case res of Inl _ \<Rightarrow> (StatusInternalServerError, None) | Inr l \<Rightarrow> (StatusOK, Some l))"
      by (simp_all split: sum.splits)
    with served [OF ip(2) ip(1) ip(3-5)] may get True show thesis by simp
  next
    case False
    with run ip may refused show thesis by simp
  qed
next
  case False
  with assms refused show thesis
    by (auto simp: handle_generate_def Let_def requested_name_def split: if_splits option.splits)
qed

lemma handle_generate_keeps:
  assumes "certs_ok this" "run_state (handle_generate cr r d this) w = ((code, leaf, this'), w')"
  shows "same_config this this' \<and> certs_ok this'"
  using assms(2) by (cases rule: handle_generate_cases) (use assms(1) get_or_generate_ok in \<open>auto\<close>)

lemma tls_run_ok: "tls_run s0 s \<Longrightarrow> certs_ok s0 \<Longrightarrow> same_config s0 s \<and> certs_ok s"
  by (induction rule: tls_run.induct) (auto dest: handle_generate_keeps intro: same_config_trans)

lemma NewTlsService_ok:
  assumes "NewTlsService listen root algorithm allow_values leaf_durations = Inr s"
  shows "certs_ok s" "supported_tls_algorithm (tls_algorithm s)" "0 < tls_leaf_duration s" "tls_root s = root"
    "root_IsCA root" "parse_domain_filter allow_values = Inr (tls_allow s)"
  using assms
  by (auto simp: NewTlsService_def Let_def certs_ok_def certs.empty split: if_splits sum.splits list.splits)

lemma may_issue_allowed:
  assumes "run_state (may_issue local_ip name d this) w = (True, w1)"
  shows "if configured (tls_allow this) then filter_allows (tls_allow this) name
    else fst (run_state (rndis_owns_ip local_ip d) w) \<and>
      (\<forall>ip. ParseAddr name = Some ip \<longrightarrow> (\<exists>v. fst (run_state (rndis_owns_ip ip d) v)))"
proof (cases "configured (tls_allow this)")
  case False
  obtain b v where b: "run_state (rndis_owns_ip local_ip d) w = (b, v)" by (metis surj_pair)
  have b: "run_state (rndis_owns_ip local_ip d) w = (True, v)" using False assms b by (auto simp: may_issue_def split: if_splits)
  moreover have "fst (run_state (rndis_owns_ip ip d) v)" if "ParseAddr name = Some ip" for ip
    using False assms b that by (simp add: may_issue_def)
  ultimately show ?thesis using False by auto
qed (use assms in \<open>simp add: may_issue_def\<close>)

lemma supported_generates:
  assumes "supported_tls_algorithm algorithm" "key_ok cr"
  shows "\<exists>key. generate_leaf_key cr algorithm [] = Inr key"
proof -
  have nil: "parse_schemes [] = []" by code_simp
  have ec: "curve_of a \<noteq> None \<and> \<not> HasPrefix a ''rsa''" if "a \<in> {''ecdsa-p256'', ''ecdsa-p384'', ''ecdsa-p521''}" for a
    using that by (auto simp: curve_of_def HasPrefix_def)
  show ?thesis
  proof (cases "HasPrefix algorithm ''rsa''")
    case True
    with assms ec [of algorithm] show ?thesis
      by (auto simp: supported_tls_algorithm_def generate_leaf_key_def nil split: if_splits option.splits)
  next
    case False
    with assms(1) have "algorithm \<in> {''ecdsa-p256'', ''ecdsa-p384'', ''ecdsa-p521''}"
      by (auto simp: supported_tls_algorithm_def split: if_splits)
    from ec [OF this] assms(2) show ?thesis by (auto simp: generate_leaf_key_def nil)
  qed
qed

section \<open>A sample service\<close>

definition sample_root :: root_material where
  "sample_root = \<lparr>pair_ok = True, chain_nonempty = True, parse_ok = True, root_IsCA = True, root_KeyUsage = 32,
     is_signer = True, is_certificate_pem = True, root_NotBefore = 0, root_NotAfter = 900000000000000\<rparr>"

definition sample_service :: tls_service where
  "sample_service = projr (NewTlsService [] sample_root '' RSA4096 '' [''*.stick.lan''] [])"

lemma new_sample_service: "NewTlsService [] sample_root '' RSA4096 '' [''*.stick.lan''] [] = Inr sample_service"
  by code_simp

definition sample_crypto :: crypto_answers where
  "sample_crypto = \<lparr>key_ok = True, serial = Some 7, sign_ok = True, encode_ok = True\<rparr>"

definition sample_request :: http_request where
  "sample_request = \<lparr>req_Method = ''GET'', req_Query = (\<lambda>k.
     if k = ''local_ip'' then ''10.22.33.1'' else if k = ''server_name'' \<or> k = ''domain'' then ''www.stick.lan'' else [])\<rparr>"

definition rndis_daemon :: daemon where
  "rndis_daemon = set_current_mode 1 sample_daemon"

text \<open>The daemon, the request and the allow list fit together.\<close>

lemma sample_fits:
  "is_current_rndis_mode rndis_daemon"
  "req_Method sample_request = ''GET''"
  "ParseAddr (TrimSpace (req_Query sample_request ''local_ip'')) = Some (Addr4 0x0a162101)"
  "requested_name sample_request (Addr4 0x0a162101) = ''www.stick.lan''"
  "TrimSpace (req_Query sample_request ''domain'') = ''www.stick.lan''"
  "req_Query sample_request ''server_name'' = ''www.stick.lan''"
  "req_Query sample_request ''signature_schemes'' = []"
  "TrimSpace ''www.stick.lan'' = ''www.stick.lan''"
  "valid_certificate_name ''www.stick.lan''"
  "configured (tls_allow sample_service)"
  "filter_allows (tls_allow sample_service) ''www.stick.lan''"
  by code_simp+

lemma sample_may_issue: "run_state (may_issue ip ''www.stick.lan'' d sample_service) w = (True, w)"
  by (simp add: may_issue_def sample_fits)

section \<open>Properties\<close>

text \<open>C8: No certificate is handed out that the rules do not allow, and none for another name. Whatever
  requests came before, an answer of \<open>/generate\<close> with status 200 went to a GET request made while
  the current mode is RNDIS, for a valid name that the allow list admits or, without a list,
  over an address the RNDIS interface owns; the certificate (fresh or cached) carries exactly
  that name, cannot sign others, lies within the root's validity and has a key the client's signature schemes admit.
  Every other answer carries no certificate and changes nothing.\<close>

theorem generate_issues_only_allowed:
  assumes "NewTlsService listen root algorithm allow_values leaf_durations = Inr s0" and "tls_run s0 s"
    and "run_state (handle_generate cr r d s) w = ((code, leaf, s'), w')"
  shows "if code = StatusOK
    then (\<exists>l local_ip. leaf = Some l \<and> req_Method r = ''GET'' \<and> is_current_rndis_mode d
      \<and> ParseAddr (TrimSpace (req_Query r ''local_ip'')) = Some local_ip
      \<and> valid_certificate_name (requested_name r local_ip)
      \<and> (if allow_values \<noteq> [] then filter_allows (tls_allow s0) (requested_name r local_ip)
         else fst (run_state (rndis_owns_ip local_ip d) w) \<and>
           (\<forall>ip. ParseAddr (requested_name r local_ip) = Some ip \<longrightarrow> (\<exists>v. fst (run_state (rndis_owns_ip ip d) v))))
      \<and> leaf_for s0 (requested_name r local_ip) (req_Query r ''signature_schemes'') l)
    else leaf = None \<and> cert_cache s' = cert_cache s"
proof -
  note new = NewTlsService_ok [OF assms(1)]
  from tls_run_ok [OF assms(2) new(1)] have s: "same_config s0 s" "certs_ok s" by simp_all
  have conf: "configured (tls_allow s) \<longleftrightarrow> allow_values \<noteq> []"
    using parse_domain_filter_rules [OF new(6)] by (auto simp: configured_def same_config_fields [OF s(1)])
  from assms(3) show ?thesis
  proof (cases rule: handle_generate_cases)
    case (served ip w1 res)
    note got = get_or_generate_ok [OF s(2) served(5,7)]
    show ?thesis
    proof (cases res)
      case (Inl e)
      have "s' = s" using served(7) Inl
        by (auto simp: get_or_generate_certificate_def Let_def split: option.splits if_splits sum.splits prod.splits)
      with Inl served(8) show ?thesis by simp
    next
      case (Inr l)
      with got have "leaf_for s0 (requested_name r ip) (req_Query r ''signature_schemes'') l"
        by (simp add: leaf_for_cong [OF s(1)])
      with Inr served(1-3,5,8) may_issue_allowed [OF served(6)] conf show ?thesis
        by (auto simp: same_config_fields [OF s(1)])
    qed
  qed simp
qed

theorem generate_issues_only_allowed_witness:
  "\<exists>l s' w'. run_state (handle_generate sample_crypto sample_request rndis_daemon sample_service) fine_world =
      ((StatusOK, Some l, s'), w') \<and> leaf_for sample_service ''www.stick.lan'' [] l"
proof -
  have "fst (fst (run_state (handle_generate sample_crypto sample_request rndis_daemon sample_service) fine_world)) = StatusOK"
    by code_simp
  then obtain leaf s' w' where
    run: "run_state (handle_generate sample_crypto sample_request rndis_daemon sample_service) fine_world = ((StatusOK, leaf, s'), w')"
    by (metis prod.collapse)
  from generate_issues_only_allowed [OF new_sample_service tls_run.start run] run show ?thesis
    by (auto simp: sample_fits)
qed

text \<open>C27: \<open>/ask\<close> and \<open>/generate\<close> agree. With an allow list, \<open>/ask\<close> says yes to a domain exactly when
  \<open>/generate\<close> does not refuse it (the answer is then a certificate or an internal error),
  so Caddy is never told to ask for a certificate it will be denied.\<close>

theorem ask_agrees_with_generate:
  assumes "configured (tls_allow s)" and "req_Method r = ''GET''" and "req_Method q = ''GET''"
    and "req_Query q ''server_name'' = TrimSpace (req_Query r ''domain'')" and "TrimSpace (req_Query r ''domain'') \<noteq> []"
    and "ParseAddr (TrimSpace (req_Query q ''local_ip'')) \<noteq> None"
    and "run_state (handle_generate cr q d s) w = ((code, leaf, s'), w')"
  shows "fst (run_state (handle_ask r d s) v) = StatusOK \<longleftrightarrow> code \<in> {StatusOK, StatusInternalServerError}"
proof -
  obtain ip where ip: "ParseAddr (TrimSpace (req_Query q ''local_ip'')) = Some ip" using assms(6) by blast
  let ?n = "TrimSpace (req_Query r ''domain'')"
  have trim: "TrimSpace ?n = ?n" by simp
  have name: "requested_name q ip = ?n" using assms(4,5) by (simp add: requested_name_def)
  have ask: "fst (run_state (handle_ask r d s) v) = StatusOK \<longleftrightarrow>
      is_current_rndis_mode d \<and> valid_certificate_name ?n \<and> filter_allows (tls_allow s) ?n"
    using assms(1,2,5) by (simp add: handle_ask_def Let_def)
  note gen = assms(7) [unfolded handle_generate_def Let_def, folded requested_name_def]
  have run: "run_state (may_issue ip ?n d s) w = (filter_allows (tls_allow s) ?n, w)"
    using assms(1) by (simp add: may_issue_def)
  show ?thesis
    unfolding ask using gen assms(3) ip run trim
    by (auto simp: name split: if_splits sum.splits prod.splits)
qed

theorem ask_agrees_with_generate_witness:
  "fst (run_state (handle_ask sample_request rndis_daemon sample_service) fine_world) = StatusOK"
proof -
  obtain code leaf s' w' where
    run: "run_state (handle_generate sample_crypto sample_request rndis_daemon sample_service) fine_world = ((code, leaf, s'), w')"
    by (metis prod.collapse)
  moreover have "fst (fst (run_state (handle_generate sample_crypto sample_request rndis_daemon sample_service) fine_world)) = StatusOK"
    by code_simp
  ultimately have "code = StatusOK" by simp
  with ask_agrees_with_generate [OF sample_fits(10) sample_fits(2) sample_fits(2) _ _ _ run, of fine_world] show ?thesis
    by (simp add: sample_fits)
qed

text \<open>A service that starts can issue. Whatever algorithm \<open>NewTlsService\<close> accepts, keys of it can
  be made: when the crypto library works, the root is within its validity and the client names no
  signature schemes, every request that may be served is answered with a certificate.\<close>

theorem accepted_service_issues:
  assumes "NewTlsService listen root algorithm allow_values leaf_durations = Inr s0" and "tls_run s0 s"
    and "req_Method r = ''GET''" and "is_current_rndis_mode d"
    and "ParseAddr (TrimSpace (req_Query r ''local_ip'')) = Some local_ip"
    and "TrimSpace (requested_name r local_ip) = requested_name r local_ip" and "valid_certificate_name (requested_name r local_ip)"
    and "run_state (may_issue local_ip (requested_name r local_ip) d s) w = (True, w1)"
    and "req_Query r ''signature_schemes'' = []" and "key_ok cr" "serial cr \<noteq> None" "sign_ok cr" "encode_ok cr"
    and "root_NotBefore root \<le> clock w1" "clock w1 \<le> root_NotAfter root"
  shows "\<exists>l s' w'. run_state (handle_generate cr r d s) w = ((StatusOK, Some l, s'), w')"
proof -
  note new = NewTlsService_ok [OF assms(1)]
  from tls_run_ok [OF assms(2) new(1)] have s: "same_config s0 s" by simp
  have "parse_schemes [] = []" by code_simp
  then obtain key where key: "generate_leaf_key cr (tls_algorithm s) [] = Inr key"
    using supported_generates [OF _ assms(10)] new(2) same_config_fields(2) [OF s] by metis
  obtain res s1 w2 where get: "run_state (get_or_generate_certificate cr (requested_name r local_ip) [] s) w1 = ((res, s1), w2)"
    by (metis surj_pair)
  have "\<exists>l. res = Inr l"
    using get key assms(11-15) new(4) same_config_fields(1) [OF s]
    by (auto simp: get_or_generate_certificate_def generate_certificate_def Let_def
        split: option.splits if_splits sum.splits)
  with get assms(3-9) show ?thesis
    by (auto simp: handle_generate_def Let_def requested_name_def [symmetric])
qed

theorem accepted_service_issues_witness:
  "\<exists>l s' w'. run_state (handle_generate sample_crypto sample_request rndis_daemon sample_service) fine_world =
      ((StatusOK, Some l, s'), w')"
proof -
  have clk: "root_NotBefore sample_root \<le> clock fine_world" "clock fine_world \<le> root_NotAfter sample_root" by code_simp+
  show ?thesis
    using accepted_service_issues [OF new_sample_service tls_run.start, of sample_request rndis_daemon
        "Addr4 0x0a162101" fine_world fine_world sample_crypto]
    by (simp add: sample_fits sample_may_issue clk sample_crypto_def)
qed

end
