(* ===== verification/Typeinject.thy ===== *)
theory Typeinject
  imports Prelude
begin

text \<open>
  \<open>core/typeinject\<close>: from the type of a function to descriptions of its arguments
  (\<open>parser.go\<close>), and from a JSON payload to values of those types (\<open>validator.go\<close>,
  \<open>caller.go\<close>). Go's types and values are the datatypes \<open>go_type\<close> and \<open>go_value\<close>, a JSON text
  is the value it denotes (\<open>json\<close>), a number keeping its text as in \<open>json.Number\<close>; a text that is no JSON is
  \<open>None\<close>. What the sources only call is an argument (\<open>inject_lib\<close>): decoding a JSON object into a
  struct, the validator package, the reading and rounding of floating-point numbers, and encoding a
  composite value.

  \<open>ConvertArgv\<close>, \<open>ConvertArgs\<close> and \<open>CallFunction\<close> are modelled on the values JSON decoding gives, nil being \<open>JNull\<close>; the
  conversion of other Go values, which only tests ask for, is left out.
\<close>

section \<open>Types and values\<close>

text \<open>Named types carry their name; widths are in bits. \<open>TInterface\<close> is the empty interface.\<close>

datatype go_type =
    TBool string
  | TInt string nat
  | TUint string nat
  | TFloat string nat
  | TString string
  | TInterface
  | TFunc "go_type list"
  | TPointer go_type
  | TSlice go_type
  | TMap go_type go_type
  | TStruct string "struct_field list"
and struct_field =
    Field (f_Name: string) (f_IsExported: bool) (f_validate: string) (f_inject: string) (f_Type: go_type)

datatype json =
    JNull
  | JBool bool
  | JNum string
  | JStr string
  | JArr "json list"
  | JObj "(string \<times> json) list"

text \<open>
  A floating-point number is its bit pattern. \<open>VJson\<close> is a decoded JSON value kept as it is;
  \<open>VConv t j\<close> is what \<open>Convert\<close> makes of \<open>j\<close> for a slice or map type \<open>t\<close>.
\<close>

datatype go_value =
    VNil
  | VBool bool
  | VInt int
  | VUint nat
  | VFloat "64 word"
  | VString string
  | VJson json
  | VConv go_type json
  | VPtr go_value
  | VStruct string "go_value list"

datatype inject_error =
    InvalidInjectTag string
  | NotAFunction
  | TooFewParameters nat
  | NotInteger
  | Overflowed
  | NegativeValue
  | InfOrNan
  | NotNumberType
  | NilValue
  | CannotConvert
  | NotStruct
  | BadStruct
  | ValidationFailed
  | BadJson
  | LengthMismatch nat nat
  | ArgInvalid nat inject_error
  | StaticNil nat
  | PointerOrStruct
  | Panicked

record inject_lib =
  decode_struct :: "go_type \<Rightarrow> json \<Rightarrow> go_value option"
  validate :: "go_type \<Rightarrow> go_value \<Rightarrow> bool"
  ParseFloat :: "string \<Rightarrow> 64 word"
  Round32 :: "64 word \<Rightarrow> 64 word"
  marshal_other :: "go_value \<Rightarrow> json"

section \<open>Descriptions of arguments\<close>

type_synonym field_type = "16 word"

definition FIELD_TYPE_CHECK :: field_type where
  "FIELD_TYPE_CHECK = 1"

definition FIELD_TYPE_VALIDATION_STRUCT :: field_type where
  "FIELD_TYPE_VALIDATION_STRUCT = 2"

definition FIELD_TYPE_RECURSION :: field_type where
  "FIELD_TYPE_RECURSION = 4"

definition FIELD_TYPE_VALIDATION_FIELD :: field_type where
  "FIELD_TYPE_VALIDATION_FIELD = 8"

lemmas field_type_defs = FIELD_TYPE_CHECK_def FIELD_TYPE_VALIDATION_STRUCT_def FIELD_TYPE_RECURSION_def
  FIELD_TYPE_VALIDATION_FIELD_def

unbundle bit_operations_syntax

definition MetadataAddType :: "field_type \<Rightarrow> field_type \<Rightarrow> field_type" where
  "MetadataAddType ft target = ft OR target"

definition MetadataRemoveType :: "field_type \<Rightarrow> field_type \<Rightarrow> field_type" where
  "MetadataRemoveType ft target = ft AND NOT target"

definition MetadataHasType :: "field_type \<Rightarrow> field_type \<Rightarrow> bool" where
  "MetadataHasType ft target = (ft AND target = target)"

datatype metadata =
  Metadata (md_Index: nat) (md_FieldType: field_type) (md_IsPointer: bool) (md_Type: go_type)
    (md_StructField: "struct_field option") (md_Child: "metadata list")

definition with_FieldType :: "field_type \<Rightarrow> metadata \<Rightarrow> metadata" where
  "with_FieldType ft m = Metadata (md_Index m) ft (md_IsPointer m) (md_Type m) (md_StructField m) (md_Child m)"

fun parse_tag_parts :: "string list \<Rightarrow> metadata \<Rightarrow> (inject_error, metadata) result" where
  "parse_tag_parts [] m = Inr m"
| "parse_tag_parts (part # parts) m =
     (if part = [] then parse_tag_parts parts m
      else if part = ''ignore-check''
      then parse_tag_parts parts (with_FieldType (MetadataRemoveType (md_FieldType m) FIELD_TYPE_CHECK) m)
      else Inl (InvalidInjectTag part))"

definition ParseInjectTag :: "string \<Rightarrow> metadata \<Rightarrow> (inject_error, metadata) result" where
  "ParseInjectTag tag m =
     parse_tag_parts (if \<not> Contains tag '','' then [tag] else map TrimSpace (Split CHR '','' tag)) m"

definition elem_type :: "go_type \<Rightarrow> bool \<times> go_type" where
  "elem_type t = (case t of TPointer e \<Rightarrow> (True, e) | _ \<Rightarrow> (False, t))"

text \<open>The loop over the fields of a struct: whether an inject tag was seen, and the descriptions.\<close>

fun parse_fields ::
  "nat \<Rightarrow> struct_field list \<Rightarrow> (inject_error, bool \<times> metadata list) result" where
  "parse_fields i [] = Inr (False, [])"
| "parse_fields i (f # fs) =
     (if \<not> f_IsExported f then parse_fields (Suc i) fs
      else
        (let (is_pointer, t) = elem_type (f_Type f);
             validate_tag = TrimSpace (f_validate f);
             ft = (if validate_tag \<noteq> [] \<and> validate_tag \<noteq> ''-''
                   then MetadataAddType FIELD_TYPE_CHECK FIELD_TYPE_VALIDATION_FIELD else FIELD_TYPE_CHECK);
             m = Metadata i ft is_pointer t (Some f) [];
             inject_tag = TrimSpace (f_inject f);
             tagged = inject_tag \<noteq> [] \<and> inject_tag \<noteq> ''-'' in
         case (if tagged then ParseInjectTag inject_tag m else Inr m) of
           Inl e \<Rightarrow> Inl e
         | Inr m \<Rightarrow>
             (case parse_fields (Suc i) fs of
                Inl e \<Rightarrow> Inl e
              | Inr (has_tag, ms) \<Rightarrow> Inr (tagged \<or> has_tag, m # ms))))"

definition ParseStructArgv :: "nat \<Rightarrow> go_type \<Rightarrow> (inject_error, metadata) result" where
  "ParseStructArgv index t =
     (case parse_fields 0 (case t of TStruct _ fs \<Rightarrow> fs | _ \<Rightarrow> []) of
        Inl e \<Rightarrow> Inl e
      | Inr (has_inject_tag, ms) \<Rightarrow>
          Inr (if has_inject_tag then Metadata index FIELD_TYPE_RECURSION False t None ms
               else Metadata index FIELD_TYPE_VALIDATION_STRUCT False t None []))"

definition ParseStaticArgv :: "nat \<Rightarrow> go_type \<Rightarrow> metadata" where
  "ParseStaticArgv index t = Metadata index 0 False t None []"

text \<open>
  \<open>ParseFunctionArgv\<close>: \<open>parse_elem\<close> is its switch, on the type under a pointer. A function
  argument is described by its own arguments, so the recursion follows the type.
\<close>

fun parse_elem :: "nat \<Rightarrow> bool \<Rightarrow> go_type \<Rightarrow> (inject_error, metadata) result"
and ParseFunctionArgv :: "nat \<Rightarrow> go_type \<Rightarrow> (inject_error, metadata) result"
and parse_params :: "nat \<Rightarrow> go_type list \<Rightarrow> (inject_error, metadata list) result" where
  "parse_elem index is_pointer (TFunc ps) =
     (case parse_params 0 ps of
        Inl e \<Rightarrow> Inl e
      | Inr child \<Rightarrow> Inr (Metadata index FIELD_TYPE_RECURSION is_pointer (TFunc ps) None child))"
| "parse_elem index is_pointer (TStruct n fs) =
     (case ParseStructArgv index (TStruct n fs) of
        Inl e \<Rightarrow> Inl e
      | Inr m \<Rightarrow> Inr (Metadata (md_Index m) (md_FieldType m) is_pointer (md_Type m) (md_StructField m) (md_Child m)))"
| "parse_elem index is_pointer t = Inr (Metadata index FIELD_TYPE_CHECK is_pointer t None [])"
| "ParseFunctionArgv index (TPointer t) = parse_elem index True t"
| "ParseFunctionArgv index t = parse_elem index False t"
| "parse_params index [] = Inr []"
| "parse_params index (t # ts) =
     (case ParseFunctionArgv index t of
        Inl e \<Rightarrow> Inl e
      | Inr m \<Rightarrow> (case parse_params (Suc index) ts of Inl e \<Rightarrow> Inl e | Inr ms \<Rightarrow> Inr (m # ms)))"

definition GetStructByFunctionType :: "go_type \<Rightarrow> go_type list \<Rightarrow> (inject_error, metadata list) result" where
  "GetStructByFunctionType t static_args =
     (case t of
        TFunc ps \<Rightarrow>
          (let n = length static_args in
           if length ps < n then Inl (TooFewParameters n)
           else (case parse_params n (drop n ps) of
                   Inl e \<Rightarrow> Inl e
                 | Inr ms \<Rightarrow> Inr (map2 ParseStaticArgv [0..<n] static_args @ ms)))
      | _ \<Rightarrow> Inl NotAFunction)"

section \<open>Values for arguments\<close>

text \<open>\<open>IsNaN\<close> or \<open>IsInf\<close>: the exponent bits are all ones.\<close>

definition inf_or_nan :: "64 word \<Rightarrow> bool" where
  "inf_or_nan b = (b AND 0x7FF0000000000000 = 0x7FF0000000000000)"

definition OverflowFloat :: "nat \<Rightarrow> 64 word \<Rightarrow> bool" where
  "OverflowFloat width b =
     (let a = b AND 0x7FFFFFFFFFFFFFFF in
      width = 32 \<and> 0x47EFFFFFE0000000 < a \<and> a \<le> 0x7FEFFFFFFFFFFFFF)"

definition OverflowInt :: "nat \<Rightarrow> int \<Rightarrow> bool" where
  "OverflowInt width v = (v < - (2 ^ (width - 1)) \<or> 2 ^ (width - 1) \<le> v)"

definition OverflowUint :: "nat \<Rightarrow> nat \<Rightarrow> bool" where
  "OverflowUint width v = (2 ^ width \<le> v)"

definition ConvertJsonNumber :: "inject_lib \<Rightarrow> string \<Rightarrow> go_type \<Rightarrow> (inject_error, go_value) result" where
  "ConvertJsonNumber lib value target =
     (case target of
        TInt _ width \<Rightarrow>
          (case Atoi value of
             None \<Rightarrow> Inl NotInteger
           | Some v \<Rightarrow> if OverflowInt width v then Inl Overflowed else Inr (VInt v))
      | TUint _ width \<Rightarrow>
          (case Atoi value of
             None \<Rightarrow> Inl NotInteger
           | Some v \<Rightarrow>
               if v < 0 then Inl NegativeValue
               else if OverflowUint width (nat v) then Inl Overflowed
               else Inr (VUint (nat v)))
      | TFloat _ width \<Rightarrow>
          (let f = ParseFloat lib value in
           if inf_or_nan f then Inl InfOrNan
           else if OverflowFloat width f then Inl Overflowed
           else Inr (VFloat (if width = 32 then Round32 lib f else f)))
      | _ \<Rightarrow> Inl NotNumberType)"

text \<open>
  \<open>CanConvert\<close> and \<open>Convert\<close> for the values of decoded JSON other than numbers: a \<open>bool\<close>, a \<open>string\<close>
  (also to bytes or runes), a \<open>[]any\<close>, a \<open>map[string]any\<close>.
\<close>

definition convert_json :: "json \<Rightarrow> go_type \<Rightarrow> go_value option" where
  "convert_json j t =
     (case (j, t) of
        (JBool b, TBool _) \<Rightarrow> Some (VBool b)
      | (JStr s, TString _) \<Rightarrow> Some (VString s)
      | (JStr s, TSlice (TUint _ w)) \<Rightarrow> if w = 8 then Some (VConv t j) else None
      | (JStr s, TSlice (TInt _ w)) \<Rightarrow> if w = 32 then Some (VConv t j) else None
      | (JArr _, TSlice TInterface) \<Rightarrow> Some (VConv t j)
      | (JObj _, TMap k TInterface) \<Rightarrow> if k = TString ''string'' then Some (VConv t j) else None
      | _ \<Rightarrow> None)"

definition is_func :: "go_type \<Rightarrow> bool" where
  "is_func t = (case t of TFunc _ \<Rightarrow> True | _ \<Rightarrow> False)"

definition ConvertArgv :: "inject_lib \<Rightarrow> metadata \<Rightarrow> json \<Rightarrow> (inject_error, go_value) result" where
  "ConvertArgv lib m argv =
     (if \<not> MetadataHasType (md_FieldType m) FIELD_TYPE_CHECK \<and>
         \<not> MetadataHasType (md_FieldType m) FIELD_TYPE_VALIDATION_STRUCT \<and>
         \<not> MetadataHasType (md_FieldType m) FIELD_TYPE_RECURSION then Inr VNil
      else if argv = JNull then Inl NilValue
      else if is_func (md_Type m) then (if md_IsPointer m then Inl Panicked else Inr (VJson argv))
      else if MetadataHasType (md_FieldType m) FIELD_TYPE_VALIDATION_STRUCT then Inl CannotConvert
      else if MetadataHasType (md_FieldType m) FIELD_TYPE_RECURSION then Inl NotStruct
      else if md_Type m = TInterface then Inr (VJson argv)
      else
        (case (case argv of
                 JNum s \<Rightarrow> ConvertJsonNumber lib s (md_Type m)
               | _ \<Rightarrow> (case convert_json argv (md_Type m) of None \<Rightarrow> Inl CannotConvert | Some v \<Rightarrow> Inr v)) of
           Inl e \<Rightarrow> Inl e
         | Inr v \<Rightarrow> Inr (if md_IsPointer m then VPtr v else v)))"

definition decode_json_argv :: "inject_lib \<Rightarrow> metadata \<Rightarrow> json \<Rightarrow> (inject_error, go_value) result" where
  "decode_json_argv lib m raw =
     (case md_Type m of
        TStruct _ _ \<Rightarrow>
          (case decode_struct lib (md_Type m) raw of
             None \<Rightarrow> Inl BadStruct
           | Some v \<Rightarrow>
               if MetadataHasType (md_FieldType m) FIELD_TYPE_VALIDATION_STRUCT \<and> \<not> validate lib (md_Type m) v
               then Inl ValidationFailed
               else Inr (if md_IsPointer m then VPtr v else v))
      | _ \<Rightarrow> ConvertArgv lib m raw)"

text \<open>\<open>Decode(&raws)\<close> into a \<open>[]json.RawMessage\<close>: an array, or \<open>null\<close> for no elements.\<close>

definition decode_raws :: "json option \<Rightarrow> json list option" where
  "decode_raws data =
     (case data of Some (JArr raws) \<Rightarrow> Some raws | Some JNull \<Rightarrow> Some [] | _ \<Rightarrow> None)"

fun decode_args :: "inject_lib \<Rightarrow> nat \<Rightarrow> metadata list \<Rightarrow> json list \<Rightarrow> (inject_error, go_value list) result" where
  "decode_args lib i (m # ms) (raw # raws) =
     (case decode_json_argv lib m raw of
        Inl e \<Rightarrow> Inl (ArgInvalid i e)
      | Inr v \<Rightarrow> (case decode_args lib (Suc i) ms raws of Inl e \<Rightarrow> Inl e | Inr vs \<Rightarrow> Inr (v # vs)))"
| "decode_args lib i _ _ = Inr []"

definition ParseJsonPayloadWithMetas ::
  "inject_lib \<Rightarrow> metadata list \<Rightarrow> json option \<Rightarrow> (inject_error, go_value list) result" where
  "ParseJsonPayloadWithMetas lib metas data =
     (case decode_raws data of
        None \<Rightarrow> Inl BadJson
      | Some raws \<Rightarrow>
          if length raws \<noteq> length metas then Inl (LengthMismatch (length metas) (length raws))
          else decode_args lib 0 metas raws)"

definition ParseJsonPayload ::
  "inject_lib \<Rightarrow> go_type \<Rightarrow> json option \<Rightarrow> go_type list \<Rightarrow> (inject_error, go_value list) result" where
  "ParseJsonPayload lib fn_type data static_types =
     (case GetStructByFunctionType fn_type static_types of
        Inl e \<Rightarrow> Inl e
      | Inr metas \<Rightarrow>
          (let payload_metas = drop (length static_types) metas in
           case decode_raws data of
             None \<Rightarrow> Inl BadJson
           | Some raws \<Rightarrow>
               if length raws \<noteq> length payload_metas then Inl (LengthMismatch (length payload_metas) (length raws))
               else decode_args lib (length static_types) payload_metas raws))"

text \<open>\<open>ConvertArgs\<close>: a nil argument is passed over, and the values after it move up.\<close>

fun convert_args :: "inject_lib \<Rightarrow> nat \<Rightarrow> metadata list \<Rightarrow> json list \<Rightarrow> (inject_error, go_value list) result" where
  "convert_args lib i (m # ms) (argv # args) =
     (if argv = JNull then convert_args lib (Suc i) ms args
      else (case ConvertArgv lib m argv of
              Inl e \<Rightarrow> Inl (ArgInvalid i e)
            | Inr v \<Rightarrow> (case convert_args lib (Suc i) ms args of Inl e \<Rightarrow> Inl e | Inr vs \<Rightarrow> Inr (v # vs))))"
| "convert_args lib i _ _ = Inr []"

definition ConvertArgs :: "inject_lib \<Rightarrow> metadata list \<Rightarrow> json list \<Rightarrow> (inject_error, go_value list) result" where
  "ConvertArgs lib types args =
     (if length types \<noteq> length args then Inl (LengthMismatch (length types) (length args))
      else convert_args lib 0 types args)"

section \<open>Calls\<close>

text \<open>What \<open>Call\<close> accepts for a parameter.\<close>

primrec has_type :: "go_value \<Rightarrow> go_type \<Rightarrow> bool" where
  "has_type VNil t = False"
| "has_type (VBool b) t = (case t of TBool _ \<Rightarrow> True | _ \<Rightarrow> False)"
| "has_type (VInt i) t = (case t of TInt _ width \<Rightarrow> - (2 ^ (width - 1)) \<le> i \<and> i < 2 ^ (width - 1) | _ \<Rightarrow> False)"
| "has_type (VUint n) t = (case t of TUint _ width \<Rightarrow> n < 2 ^ width | _ \<Rightarrow> False)"
| "has_type (VFloat f) t = (case t of TFloat _ _ \<Rightarrow> True | _ \<Rightarrow> False)"
| "has_type (VString s) t = (case t of TString _ \<Rightarrow> True | _ \<Rightarrow> False)"
| "has_type (VJson j) t = (t = TInterface \<and> j \<noteq> JNull)"
| "has_type (VConv u j) t = (u = t \<and> (case t of TSlice _ \<Rightarrow> True | TMap _ _ \<Rightarrow> True | _ \<Rightarrow> False))"
| "has_type (VPtr v) t = (case t of TPointer e \<Rightarrow> has_type v e | _ \<Rightarrow> False)"
| "has_type (VStruct n vs) t = (case t of TStruct n' fs \<Rightarrow> n = n' \<and> length vs = length fs | _ \<Rightarrow> False)"

text \<open>
  \<open>CallFunction\<close> and \<open>CallFunctionJSON\<close>: \<open>function\<close> is its type and what it does; a static argument is its type and
  value, or nil. \<open>Call\<close> panics on arguments of another number or of other types than the parameters.
\<close>

fun static_values :: "nat \<Rightarrow> (go_type \<times> go_value) option list \<Rightarrow> (inject_error, (go_type \<times> go_value) list) result" where
  "static_values i [] = Inr []"
| "static_values i (None # xs) = Inl (StaticNil i)"
| "static_values i (Some tv # xs) =
     (case static_values (Suc i) xs of Inl e \<Rightarrow> Inl e | Inr tvs \<Rightarrow> Inr (tv # tvs))"

definition assignable :: "go_type \<Rightarrow> go_type \<Rightarrow> bool" where
  "assignable p t \<longleftrightarrow> p = t \<or> p = TInterface"

definition reflect_call ::
  "go_type list \<Rightarrow> (go_value list \<Rightarrow> 'r) \<Rightarrow> (go_type \<times> go_value) list \<Rightarrow> go_value list \<Rightarrow> (inject_error, 'r) result" where
  "reflect_call params f tvs args =
     (if list_all2 assignable (take (length tvs) params) (map fst tvs) \<and> list_all2 has_type args (drop (length tvs) params)
      then Inr (f (map snd tvs @ args)) else Inl Panicked)"

definition CallFunction ::
  "inject_lib \<Rightarrow> go_type \<times> (go_value list \<Rightarrow> 'r) \<Rightarrow> json list \<Rightarrow> (go_type \<times> go_value) option list \<Rightarrow> (inject_error, 'r) result" where
  "CallFunction lib function args static =
     (case fst function of
        TFunc params \<Rightarrow>
          (case static_values 0 static of
             Inl e \<Rightarrow> Inl e
           | Inr tvs \<Rightarrow>
               (case GetStructByFunctionType (fst function) (map fst tvs) of
                  Inl e \<Rightarrow> Inl e
                | Inr metas \<Rightarrow>
                    (case ConvertArgs lib (drop (length tvs) metas) args of
                       Inl e \<Rightarrow> Inl e
                     | Inr converted \<Rightarrow> reflect_call params (snd function) tvs converted)))
      | _ \<Rightarrow> Inl NotAFunction)"

definition CallFunctionJSON ::
  "inject_lib \<Rightarrow> go_type \<times> (go_value list \<Rightarrow> 'r) \<Rightarrow> json option \<Rightarrow> (go_type \<times> go_value) option list \<Rightarrow> (inject_error, 'r) result" where
  "CallFunctionJSON lib function data static =
     (case fst function of
        TFunc params \<Rightarrow>
          (case static_values 0 static of
             Inl e \<Rightarrow> Inl e
           | Inr tvs \<Rightarrow>
               (case ParseJsonPayload lib (fst function) data (map fst tvs) of
                  Inl e \<Rightarrow> Inl e
                | Inr args \<Rightarrow> reflect_call params (snd function) tvs args))
      | _ \<Rightarrow> Inl NotAFunction)"

text \<open>\<open>ProcessAnyPayload\<close> and \<open>ConvertAnyPayload\<close>: any value but nil, pointers and structs; the positions of all others are reported.\<close>

definition ProcessAnyPayload :: "go_value \<Rightarrow> (inject_error, go_value) result" where
  "ProcessAnyPayload value =
     (case value of
        VNil \<Rightarrow> Inl NilValue
      | VPtr _ \<Rightarrow> Inl PointerOrStruct
      | VStruct _ _ \<Rightarrow> Inl PointerOrStruct
      | _ \<Rightarrow> Inr value)"

fun any_payload_loop :: "nat \<Rightarrow> go_value list \<Rightarrow> go_value list \<times> (nat \<times> inject_error) list" where
  "any_payload_loop i [] = ([], [])"
| "any_payload_loop i (v # vs) =
     (let (result, errs) = any_payload_loop (Suc i) vs in
      case ProcessAnyPayload v of Inl e \<Rightarrow> (result, (i, e) # errs) | Inr v \<Rightarrow> (v # result, errs))"

definition ConvertAnyPayload :: "go_value list \<Rightarrow> ((nat \<times> inject_error) list, go_value list) result" where
  "ConvertAnyPayload payload =
     (let (result, errs) = any_payload_loop 0 payload in if errs \<noteq> [] then Inl errs else Inr result)"

lemma any_payload_loop_result:
  "any_payload_loop i vs = (result, errs) \<Longrightarrow>
    map fst errs = map ((+) i) (filter (\<lambda>k. isl (ProcessAnyPayload (vs ! k))) [0..<length vs]) \<and> (errs = [] \<longrightarrow> result = vs)"
proof (induction i vs arbitrary: result errs rule: any_payload_loop.induct)
  case (1 i)
  then show ?case by simp
next
  case (2 i v vs)
  obtain r es where rec: "any_payload_loop (Suc i) vs = (r, es)" by (metis surj_pair)
  have same: "v' = v" if "ProcessAnyPayload v = Inr v'" for v'
    using that by (cases v) (simp_all add: ProcessAnyPayload_def)
  have up: "[0..<length (v # vs)] = 0 # map Suc [0..<length vs]" by (simp add: upt_conv_Cons map_Suc_upt del: upt_Suc)
  have "filter (\<lambda>k. isl (ProcessAnyPayload ((v # vs) ! k))) [0..<length (v # vs)] =
      (if isl (ProcessAnyPayload v) then [0] else []) @ map Suc (filter (\<lambda>k. isl (ProcessAnyPayload (vs ! k))) [0..<length vs])"
    unfolding up by (simp add: filter_map comp_def)
  with "2.IH" [OF rec] "2.prems" rec same show ?case
    by (auto simp: comp_def split: sum.splits)
qed

text \<open>All positions that are not allowed are reported; when there are none the payload is kept as it is.\<close>

lemma ConvertAnyPayload_spec:
  "(case ConvertAnyPayload payload of
      Inl errs \<Rightarrow> map fst errs = filter (\<lambda>k. isl (ProcessAnyPayload (payload ! k))) [0..<length payload]
    | Inr vs \<Rightarrow> vs = payload \<and> (\<forall>v \<in> set payload. \<not> isl (ProcessAnyPayload v)))"
proof -
  obtain r errs where loop: "any_payload_loop 0 payload = (r, errs)" by (metis surj_pair)
  have map0: "map ((+) (0 :: nat)) xs = xs" for xs by (induction xs) simp_all
  from any_payload_loop_result [OF loop]
  have *: "map fst errs = filter (\<lambda>k. isl (ProcessAnyPayload (payload ! k))) [0..<length payload]" "errs = [] \<Longrightarrow> r = payload"
    by (simp_all only: map0)
  have "\<forall>v \<in> set payload. \<not> isl (ProcessAnyPayload v)" if "errs = []"
    using *(1) that by (metis (no_types, lifting) atLeastLessThan_iff atLeast_upt filter_empty_conv in_set_conv_nth le0 list.map_disc_iff lessThan_iff)
  with * show ?thesis by (simp add: ConvertAnyPayload_def loop)
qed

text \<open>\<open>json.Marshal\<close> of one value.\<close>

fun json_Marshal :: "inject_lib \<Rightarrow> go_value \<Rightarrow> json" where
  "json_Marshal lib VNil = JNull"
| "json_Marshal lib (VBool b) = JBool b"
| "json_Marshal lib (VInt i) = JNum (Itoa i)"
| "json_Marshal lib (VUint n) = JNum (Utoa n)"
| "json_Marshal lib (VString s) = JStr s"
| "json_Marshal lib (VJson j) = j"
| "json_Marshal lib (VPtr v) = json_Marshal lib v"
| "json_Marshal lib v = marshal_other lib v"

section \<open>Values and their types\<close>

text \<open>Parameters a JSON value can be given for: no functions, no pointers to functions or to interfaces.\<close>

definition json_param :: "go_type \<Rightarrow> bool" where
  "json_param t \<longleftrightarrow>
     (case t of
        TFunc _ \<Rightarrow> False
      | TPointer e \<Rightarrow> (case e of TFunc _ \<Rightarrow> False | TInterface \<Rightarrow> False | _ \<Rightarrow> True)
      | _ \<Rightarrow> True)"

definition struct_param :: "go_type \<Rightarrow> bool" where
  "struct_param t \<longleftrightarrow> (\<exists>n fs. snd (elem_type t) = TStruct n fs)"

definition structs_typed :: "inject_lib \<Rightarrow> bool" where
  "structs_typed lib \<longleftrightarrow> (\<forall>t j v. decode_struct lib t j = Some v \<longrightarrow> has_type v t)"

text \<open>A description fits the parameter it was made for.\<close>

definition describes :: "metadata \<Rightarrow> go_type \<Rightarrow> bool" where
  "describes m t \<longleftrightarrow>
     t = (if md_IsPointer m then TPointer (md_Type m) else md_Type m) \<and>
     (md_IsPointer m \<or> (\<forall>e. md_Type m \<noteq> TPointer e)) \<and>
     ((\<exists>n fs. md_Type m = TStruct n fs) \<or> is_func (md_Type m) \<or> md_FieldType m = FIELD_TYPE_CHECK)"

lemma has_type_checks [simp]:
  "MetadataHasType FIELD_TYPE_CHECK FIELD_TYPE_CHECK"
  "\<not> MetadataHasType FIELD_TYPE_CHECK FIELD_TYPE_VALIDATION_STRUCT"
  "\<not> MetadataHasType FIELD_TYPE_CHECK FIELD_TYPE_RECURSION"
  by (simp_all add: MetadataHasType_def field_type_defs)

lemma ParseStructArgv_Type: "ParseStructArgv i t = Inr m \<Longrightarrow> md_Type m = t"
  by (auto simp: ParseStructArgv_def split: sum.splits if_splits)

lemma parse_elem_describes:
  assumes "parse_elem i p t = Inr m"
  shows "md_IsPointer m = p \<and> md_Type m = t \<and>
    ((\<exists>n fs. t = TStruct n fs) \<or> is_func t \<or> md_FieldType m = FIELD_TYPE_CHECK)"
  using assms by (cases t) (auto simp: is_func_def split: sum.splits dest: ParseStructArgv_Type)

lemma ParseFunctionArgv_describes: "ParseFunctionArgv i t = Inr m \<Longrightarrow> describes m t"
  by (cases t) (auto simp: describes_def simp del: parse_elem.simps dest!: parse_elem_describes)

lemma parse_params_describes: "parse_params i ts = Inr ms \<Longrightarrow> list_all2 describes ms ts"
  by (induction ts arbitrary: i ms) (auto split: sum.splits dest: ParseFunctionArgv_describes)

lemma ConvertJsonNumber_typed: "ConvertJsonNumber lib s t = Inr v \<Longrightarrow> has_type v t"
  by (cases t) (auto simp: ConvertJsonNumber_def OverflowInt_def OverflowUint_def Let_def split: option.splits if_splits)

lemma convert_json_typed: "convert_json j t = Some v \<Longrightarrow> has_type v t"
  by (auto simp: convert_json_def split: json.splits go_type.splits if_splits)

lemma decode_typed:
  assumes "struct_param t \<Longrightarrow> structs_typed lib" "describes m t" "json_param t" "decode_json_argv lib m raw = Inr v"
  shows "has_type v t"
proof (cases "\<exists>n fs. md_Type m = TStruct n fs")
  case True
  with assms(2) have "struct_param t" by (auto simp: describes_def struct_param_def elem_type_def)
  with assms True show ?thesis
    by (auto simp: decode_json_argv_def describes_def structs_typed_def split: option.splits if_splits)
next
  case False
  then have conv: "ConvertArgv lib m raw = Inr v" using assms(4) by (auto simp: decode_json_argv_def split: go_type.splits)
  have nf: "\<not> is_func (md_Type m)" using assms(2,3) by (auto simp: describes_def is_func_def json_param_def split: go_type.splits if_splits)
  with False assms(2) have ft: "md_FieldType m = FIELD_TYPE_CHECK" by (auto simp: describes_def)
  show ?thesis
  proof (cases "md_Type m = TInterface")
    case True
    with assms(2,3) have "\<not> md_IsPointer m" by (auto simp: describes_def json_param_def)
    with True conv ft nf assms(2) show ?thesis by (auto simp: ConvertArgv_def describes_def split: if_splits)
  next
    case no: False
    from conv ft nf no obtain u where
      "(\<exists>s. ConvertJsonNumber lib s (md_Type m) = Inr u) \<or> (\<exists>j. convert_json j (md_Type m) = Some u)"
      "v = (if md_IsPointer m then VPtr u else u)"
      by (auto simp: ConvertArgv_def split: if_splits sum.splits json.splits option.splits)
    moreover from this have "has_type u (md_Type m)" using ConvertJsonNumber_typed convert_json_typed by blast
    ultimately show ?thesis using assms(2) by (auto simp: describes_def)
  qed
qed

lemma decode_args_typed:
  "(list_ex struct_param ts \<Longrightarrow> structs_typed lib) \<Longrightarrow> list_all2 describes ms ts \<Longrightarrow> list_all json_param ts \<Longrightarrow> length raws = length ms \<Longrightarrow>
    decode_args lib i ms raws = Inr vs \<Longrightarrow> list_all2 has_type vs ts"
  by (induction lib i ms raws arbitrary: ts vs rule: decode_args.induct)
    (auto simp: list_all2_Cons1 split: sum.splits intro: decode_typed)

text \<open>Encoding a value of a basic type and decoding it gives it back.\<close>

definition basic_value :: "go_value \<Rightarrow> go_type \<Rightarrow> bool" where
  "basic_value v t \<longleftrightarrow>
     has_type v t \<and>
     (case v of
        VBool _ \<Rightarrow> True
      | VString _ \<Rightarrow> True
      | VInt i \<Rightarrow> int_min \<le> i \<and> i \<le> int_max
      | VUint k \<Rightarrow> int k \<le> int_max
      | _ \<Rightarrow> False)"

lemma basic_not_func: "basic_value v t \<Longrightarrow> json_param t \<and> \<not> is_func t \<and> (\<forall>n fs. t \<noteq> TStruct n fs) \<and> (\<forall>e. t \<noteq> TPointer e) \<and> t \<noteq> TInterface"
  by (cases v; cases t) (auto simp: is_func_def basic_value_def json_param_def)

lemma decode_marshal:
  assumes "basic_value v t" "describes m t"
  shows "decode_json_argv lib m (json_Marshal lib v) = Inr v"
proof -
  note nf = basic_not_func [OF assms(1)]
  with assms(2) have m: "md_Type m = t" "\<not> md_IsPointer m" "md_FieldType m = FIELD_TYPE_CHECK"
    by (auto simp: describes_def split: if_splits)
  have "decode_json_argv lib m j = ConvertArgv lib m j" for j
    using nf m(1) by (cases t) (auto simp: decode_json_argv_def)
  with assms(1) nf m show ?thesis
    by (cases v; cases t)
      (auto simp: ConvertArgv_def ConvertJsonNumber_def convert_json_def OverflowInt_def OverflowUint_def basic_value_def
        Atoi_Itoa Atoi_Utoa)
qed

lemma decode_args_marshal:
  "list_all2 basic_value vs ts \<Longrightarrow> list_all2 describes ms ts \<Longrightarrow>
     decode_args lib i ms (map (json_Marshal lib) vs) = Inr vs"
  by (induction vs ts arbitrary: ms i rule: list_all2_induct) (auto simp: list_all2_Cons2 decode_marshal)

text \<open>A library that decodes an object into a struct of zero values and knows no floating-point numbers.\<close>

definition sample_lib :: inject_lib where
  "sample_lib = \<lparr>decode_struct = (\<lambda>t j. case (t, j) of (TStruct n fs, JObj _) \<Rightarrow> Some (VStruct n (map (\<lambda>_. VNil) fs)) | _ \<Rightarrow> None),
     validate = (\<lambda>t v. True), ParseFloat = (\<lambda>s. 0), Round32 = (\<lambda>b. b), marshal_other = (\<lambda>v. JNull)\<rparr>"

text \<open>The two ways to call a function agree on arguments without nil, where no parameter is a struct: one succeeds exactly
  when the other does, with the same result.\<close>

lemma describes_elem: "describes m t \<Longrightarrow> snd (elem_type t) = md_Type m"
  by (cases "md_IsPointer m") (auto simp: describes_def elem_type_def split: go_type.split)

lemma convert_args_decode:
  assumes "list_all2 describes ms ts" "\<not> list_ex struct_param ts" "JNull \<notin> set args" "length args = length ms"
  shows "convert_args lib i ms args = Inr vs \<longleftrightarrow> decode_args lib k ms args = Inr vs"
  using assms
proof (induction ms args arbitrary: ts vs i k rule: list_induct2')
  case (4 m ms argv args)
  from "4.prems"(1) obtain t ts' where ts: "ts = t # ts'" "describes m t" "list_all2 describes ms ts'"
    by (auto simp: list_all2_Cons1)
  then have "\<forall>n fs. md_Type m \<noteq> TStruct n fs"
    using "4.prems"(2) describes_elem [OF ts(2)] by (simp add: struct_param_def)
  then have "decode_json_argv lib m argv = ConvertArgv lib m argv"
    by (auto simp: decode_json_argv_def split: go_type.split)
  moreover have "convert_args lib (Suc i) ms args = Inr us \<longleftrightarrow> decode_args lib (Suc k) ms args = Inr us" for us
    using "4.IH" [OF ts(3)] "4.prems" ts(1) by simp
  ultimately show ?case
    using "4.prems"(3) by (auto split: sum.split) (metis Inl_Inr_False obj_sumE)+
qed simp_all

lemma calls_agree:
  assumes "\<not> list_ex struct_param (drop (length static) params)" "JNull \<notin> set args"
  shows "CallFunction lib (TFunc params, f) args static = Inr r \<longleftrightarrow>
    CallFunctionJSON lib (TFunc params, f) (Some (JArr args)) static = Inr r"
proof (cases "static_values 0 static")
  case (Inr tvs)
  have len: "static_values i xs = Inr us \<Longrightarrow> length us = length xs" for i xs us
    by (induction i xs arbitrary: us rule: static_values.induct) (auto split: sum.splits)
  have n: "length tvs = length static" by (rule len [OF Inr])
  show ?thesis
  proof (cases "GetStructByFunctionType (TFunc params) (map fst tvs)")
    case (Inr metas)
    then have "parse_params (length tvs) (drop (length tvs) params) = Inr (drop (length tvs) metas)"
      by (auto simp: GetStructByFunctionType_def Let_def split: if_splits sum.splits)
    note d = parse_params_describes [OF this]
    have "convert_args lib 0 (drop (length tvs) metas) args = Inr vs \<longleftrightarrow>
        decode_args lib (length tvs) (drop (length tvs) metas) args = Inr vs"
      if "length args = length (drop (length tvs) metas)" for vs
      using convert_args_decode [OF d _ assms(2) that] assms(1) n by simp
    then have eq: "ConvertArgs lib (drop (length tvs) metas) args = Inr vs \<longleftrightarrow>
        ParseJsonPayload lib (TFunc params) (Some (JArr args)) (map fst tvs) = Inr vs" for vs
      by (cases "length args = length (drop (length tvs) metas)")
        (simp_all add: ConvertArgs_def ParseJsonPayload_def decode_raws_def Inr)
    have "CallFunction lib (TFunc params, f) args static = Inr r \<longleftrightarrow>
        (\<exists>vs. ConvertArgs lib (drop (length tvs) metas) args = Inr vs \<and> reflect_call params f tvs vs = Inr r)"
      by (simp add: CallFunction_def Inr \<open>static_values 0 static = Inr tvs\<close> split: sum.split)
    moreover have "CallFunctionJSON lib (TFunc params, f) (Some (JArr args)) static = Inr r \<longleftrightarrow>
        (\<exists>vs. ParseJsonPayload lib (TFunc params) (Some (JArr args)) (map fst tvs) = Inr vs \<and> reflect_call params f tvs vs = Inr r)"
      by (simp add: CallFunctionJSON_def \<open>static_values 0 static = Inr tvs\<close> split: sum.split)
    ultimately show ?thesis by (simp only: eq)
  qed (simp add: CallFunction_def CallFunctionJSON_def ParseJsonPayload_def Inr)
qed (simp add: CallFunction_def CallFunctionJSON_def)

text \<open>With a nil argument the function is never called: what is left is too short, and \<open>Call\<close> panics.\<close>

lemma convert_args_length: "convert_args lib i ms args = Inr vs \<Longrightarrow> length args = length ms \<Longrightarrow>
    length vs = length (filter (\<lambda>a. a \<noteq> JNull) args)"
  by (induction lib i ms args arbitrary: vs rule: convert_args.induct) (auto split: if_splits sum.splits)

lemma nil_argument_never_called:
  assumes "JNull \<in> set args"
  shows "CallFunction lib (TFunc params, f) args static \<noteq> Inr r"
proof
  assume "CallFunction lib (TFunc params, f) args static = Inr r"
  then obtain tvs :: "(go_type \<times> go_value) list" and metas vs where s: "GetStructByFunctionType (TFunc params) (map fst tvs) = Inr metas"
    "ConvertArgs lib (drop (length tvs) metas) args = Inr vs" "list_all2 has_type vs (drop (length tvs) params)"
    by (simp add: CallFunction_def reflect_call_def split: sum.splits if_splits)
  then have "parse_params (length tvs) (drop (length tvs) params) = Inr (drop (length tvs) metas)"
    by (auto simp: GetStructByFunctionType_def Let_def split: if_splits sum.splits)
  from list_all2_lengthD [OF parse_params_describes [OF this]] list_all2_lengthD [OF s(3)] s(2)
  have "length vs = length args" "length vs = length (filter (\<lambda>a. a \<noteq> JNull) args)"
    by (auto simp: ConvertArgs_def dest: convert_args_length split: if_splits)
  with assms show False
    by (metis (mono_tags, lifting) length_filter_less less_irrefl)
qed

section \<open>Properties\<close>



text \<open>C26: What is sent arrives. Booleans, strings and integers of any width (within the 64-bit signed
  range numbers are read in), encoded as JSON and parsed for parameters of their types, come back
  unchanged and in order.\<close>

theorem payload_roundtrip:
  assumes "list_all2 basic_value vs (drop (length statics) ps)" and "length statics \<le> length ps"
    and "parse_params (length statics) (drop (length statics) ps) = Inr ms"
  shows "ParseJsonPayload lib (TFunc ps) (Some (JArr (map (json_Marshal lib) vs))) statics = Inr vs"
proof -
  have "list_all2 describes ms (drop (length statics) ps)" by (rule parse_params_describes [OF assms(3)])
  with assms show ?thesis
    by (auto simp: ParseJsonPayload_def GetStructByFunctionType_def Let_def decode_raws_def
        decode_args_marshal [OF assms(1)] dest!: list_all2_lengthD)
qed

theorem payload_roundtrip_witness:
  "ParseJsonPayload sample_lib (TFunc [TPointer (TStruct ''IPCFramework'' []), TUint ''uint8'' 8, TString ''string''])
     (Some (JArr (map (json_Marshal sample_lib) [VUint 3, VString ''rndis.1'']))) [TPointer (TStruct ''IPCFramework'' [])]
   = Inr [VUint 3, VString ''rndis.1'']"
  by (rule payload_roundtrip) (simp_all add: basic_value_def int_max_def)

end
