(* ===== verification/Ipc_Core.thy ===== *)
theory Ipc_Core
  imports Typeinject
begin

text \<open>
  \<open>core/daemonipc/core.go\<close>: the request framework both ends of the control connection use. A
  framework is a table of handlers by package type; the descriptions of their payloads are in
  a table all frameworks of a process share (\<open>handler_structs\<close>, here the argument \<open>structs\<close>).

  A handler is any Go value: nothing, something that is no function, or a function given by its
  parameter types and by what it does to the state \<open>'s\<close> behind it. The bytes of a message are the JSON
  value they denote; \<open>ipc_lib\<close> adds the texts the sources print into error messages. \<open>Write\<close>
  of the connection is not modelled: sending ends with what is handed to it. The decoder \<open>SendRaw\<close> reads all its texts with
  is an argument: from the bytes it still holds and the text of its reader it gives the next value and the bytes it holds then.
\<close>

section \<open>Data\<close>

record ipc_package =
  pkg_Type :: int
  pkg_Payload :: "go_value list"

datatype handler_status =
    HANDLER_STATUS_PAYLOAD_STRUCT_NOT_FOUND
  | HANDLER_STATUS_INVALID_PAYLOAD
  | HANDLER_STATUS_INVALID_HANDLER
  | HANDLER_STATUS_INVALID_HANDLER_RESULT

text \<open>The results of a call: none, a package and an error, some other number of them, or a panic.\<close>

datatype handler_result =
    NoResults
  | PackageAndError "ipc_package option" "string option"
  | OtherResults
  | HandlerPanics

datatype 's ipc_handler =
    HandlerNil
  | HandlerNotFunc
  | HandlerFunc (h_params: "go_type list") (h_call: "go_value list \<Rightarrow> 's \<Rightarrow> handler_result \<times> 's")

datatype ipc_error =
    AlreadyRunning
  | FunctionIsNil
  | FunctionIsNotFunc
  | FirstArgNotFramework
  | InIndexPanic
  | BadSignature inject_error
  | NoPayloadStruct int
  | BadPayload int inject_error
  | InvalidHandlerFor int
  | InvalidResultFor int
  | FallbackError string
  | HandlerError string
  | TypeNotPositive int
  | HandlerExists int
  | IndexPanic nat
  | BadText nat

record ipc_lib = inject_lib +
  raw_text :: "json option \<Rightarrow> string"
  error_text :: "inject_error \<Rightarrow> string"

type_synonym structs = "int \<rightharpoonup> metadata list"

type_synonym fallback =
  "handler_status \<Rightarrow> inject_error option \<Rightarrow> int \<Rightarrow> json option \<Rightarrow> ipc_package option \<times> string option"

record 's ipc_framework =
  handlers :: "int \<rightharpoonup> 's ipc_handler"
  running :: bool
  fallback_handler :: "fallback option"
  pre_package_handler :: "(int \<Rightarrow> go_value list \<Rightarrow> go_value list option \<times> string option) option"
  post_package_handler :: "(ipc_package option \<Rightarrow> string option \<Rightarrow> ipc_package option \<times> string option) option"

definition NewIPCFramework :: "'s ipc_framework" where
  "NewIPCFramework = \<lparr>handlers = Map.empty, running = False, fallback_handler = None,
     pre_package_handler = None, post_package_handler = None\<rparr>"

definition ipc_Start :: "'s ipc_framework \<Rightarrow> (ipc_error, 's ipc_framework) result" where
  "ipc_Start this = (if running this then Inl AlreadyRunning else Inr (this\<lparr>running := True\<rparr>))"

definition ipc_Stop :: "'s ipc_framework \<Rightarrow> 's ipc_framework" where
  "ipc_Stop this = this\<lparr>running := False\<rparr>"

definition framework_type :: go_type where
  "framework_type = TPointer (TStruct ''IPCFramework'' [])"

section \<open>Registering handlers\<close>

definition get_payload_struct_by_handler :: "'s ipc_handler \<Rightarrow> (ipc_error, metadata list) result" where
  "get_payload_struct_by_handler function =
     (case function of
        HandlerNil \<Rightarrow> Inl FunctionIsNil
      | HandlerNotFunc \<Rightarrow> Inl FunctionIsNotFunc
      | HandlerFunc [] _ \<Rightarrow> Inl InIndexPanic
      | HandlerFunc (p # ps) _ \<Rightarrow>
          if p \<noteq> framework_type then Inl FirstArgNotFramework
          else (case GetStructByFunctionType (TFunc (p # ps)) [framework_type] of
                  Inl e \<Rightarrow> Inl (BadSignature e)
                | Inr metas \<Rightarrow> Inr (drop 1 metas)))"

text \<open>The handler is stored first; its description only when it has one.\<close>

definition RegisterHandlerReplace ::
  "int \<Rightarrow> 's ipc_handler \<Rightarrow> structs \<times> 's ipc_framework \<Rightarrow> ipc_error option \<times> structs \<times> 's ipc_framework" where
  "RegisterHandlerReplace package_type handler = (\<lambda>(structs, this).
     if package_type \<le> 0 then (Some (TypeNotPositive package_type), structs, this)
     else
       (let this = this\<lparr>handlers := (handlers this)(package_type \<mapsto> handler)\<rparr> in
        case get_payload_struct_by_handler handler of
          Inl e \<Rightarrow> (Some e, structs, this)
        | Inr payload_struct \<Rightarrow> (None, structs(package_type \<mapsto> payload_struct), this)))"

definition RegisterHandler ::
  "int \<Rightarrow> 's ipc_handler \<Rightarrow> structs \<times> 's ipc_framework \<Rightarrow> ipc_error option \<times> structs \<times> 's ipc_framework" where
  "RegisterHandler package_type handler = (\<lambda>(structs, this).
     if package_type \<le> 0 then (Some (TypeNotPositive package_type), structs, this)
     else if handlers this package_type \<noteq> None then (Some (HandlerExists package_type), structs, this)
     else RegisterHandlerReplace package_type handler (structs, this))"

definition RemoveHandler ::
  "int \<Rightarrow> structs \<times> 's ipc_framework \<Rightarrow> ipc_error option \<times> structs \<times> 's ipc_framework" where
  "RemoveHandler package_type = (\<lambda>(structs, this).
     if package_type \<le> 0 then (Some (TypeNotPositive package_type), structs, this)
     else (None, structs(package_type := None), this\<lparr>handlers := (handlers this)(package_type := None)\<rparr>))"

definition GetHandler :: "int \<Rightarrow> 's ipc_framework \<Rightarrow> 's ipc_handler" where
  "GetHandler package_type this = (case handlers this package_type of None \<Rightarrow> HandlerNil | Some h \<Rightarrow> h)"

definition GetPayloadStruct :: "int \<Rightarrow> structs \<Rightarrow> metadata list option" where
  "GetPayloadStruct package_type structs = structs package_type"

definition SetFallbackHandler :: "fallback option \<Rightarrow> 's ipc_framework \<Rightarrow> 's ipc_framework" where
  "SetFallbackHandler handler this = this\<lparr>fallback_handler := handler\<rparr>"

definition SetPrePackageHandler ::
  "(int \<Rightarrow> go_value list \<Rightarrow> go_value list option \<times> string option) option \<Rightarrow> 's ipc_framework \<Rightarrow> 's ipc_framework" where
  "SetPrePackageHandler handler this = this\<lparr>pre_package_handler := handler\<rparr>"

definition SetPostPackageHandler ::
  "(ipc_package option \<Rightarrow> string option \<Rightarrow> ipc_package option \<times> string option) option \<Rightarrow> 's ipc_framework \<Rightarrow> 's ipc_framework" where
  "SetPostPackageHandler handler this = this\<lparr>post_package_handler := handler\<rparr>"

section \<open>Handling a request\<close>

definition parse_data ::
  "ipc_lib \<Rightarrow> metadata list \<Rightarrow> json option \<Rightarrow> (inject_error, go_value list) result" where
  "parse_data lib metas data = ParseJsonPayloadWithMetas (inject_lib.truncate lib) metas data"

definition check_data :: "ipc_lib \<Rightarrow> structs \<Rightarrow> int \<Rightarrow> json option \<Rightarrow> ipc_error option" where
  "check_data lib structs package_type data =
     (case GetPayloadStruct package_type structs of
        None \<Rightarrow> Some (NoPayloadStruct package_type)
      | Some metas \<Rightarrow>
          (case parse_data lib metas data of Inl e \<Rightarrow> Some (BadPayload package_type e) | Inr _ \<Rightarrow> None))"

fun is_panic :: "inject_error \<Rightarrow> bool" where
  "is_panic (ArgInvalid _ e) = is_panic e"
| "is_panic e = (e = Panicked)"

text \<open>\<open>handler.Call\<close>: arguments of another number or type than the parameters panic.\<close>

definition call_handler ::
  "go_type list \<Rightarrow> (go_value list \<Rightarrow> 's \<Rightarrow> handler_result \<times> 's) \<Rightarrow> go_value list \<Rightarrow> 's \<Rightarrow> handler_result \<times> 's" where
  "call_handler params f payload s =
     (case params of
        [] \<Rightarrow> (HandlerPanics, s)
      | p # ps \<Rightarrow>
          if p = framework_type \<and> list_all2 has_type payload ps then f payload s else (HandlerPanics, s))"

text \<open>One use of the fallback handler, with the error when there is none or it fails.\<close>

definition use_fallback ::
  "fallback option \<Rightarrow> handler_status \<Rightarrow> inject_error option \<Rightarrow> int \<Rightarrow> json option \<Rightarrow> ipc_error \<Rightarrow>
     (ipc_error, ipc_package option) result" where
  "use_fallback fallback code err package_type data failure =
     (case fallback of
        None \<Rightarrow> Inl failure
      | Some f \<Rightarrow>
          (case f code err package_type data of
             (resp, None) \<Rightarrow> Inr resp
           | (_, Some e) \<Rightarrow> Inl failure))"

text \<open>A panic is recovered and leaves the zero results: no response and no error.\<close>

definition HandleRequest ::
  "ipc_lib \<Rightarrow> structs \<Rightarrow> 's ipc_framework \<Rightarrow> int \<Rightarrow> json option \<Rightarrow> 's \<Rightarrow> (ipc_error, ipc_package option) result \<times> 's" where
  "HandleRequest lib structs this package_type data s =
     (let fallback = fallback_handler this in
      case GetPayloadStruct package_type structs of
        None \<Rightarrow>
          (use_fallback fallback HANDLER_STATUS_PAYLOAD_STRUCT_NOT_FOUND None package_type data
             (NoPayloadStruct package_type), s)
      | Some metas \<Rightarrow>
          (case parse_data lib metas data of
             Inl e \<Rightarrow>
               if is_panic e then (Inr None, s)
               else (use_fallback fallback HANDLER_STATUS_INVALID_PAYLOAD (Some e) package_type data
                       (BadPayload package_type e), s)
           | Inr payload \<Rightarrow>
               (case GetHandler package_type this of
                  HandlerFunc params f \<Rightarrow>
                    (let (payload, pre_err) =
                       (case pre_package_handler this of
                          None \<Rightarrow> (payload, None)
                        | Some pre \<Rightarrow>
                            (case pre package_type payload of
                               (_, Some e) \<Rightarrow> (payload, Some e)
                             | (Some p, None) \<Rightarrow> (p, None)
                             | (None, None) \<Rightarrow> (payload, None))) in
                     case pre_err of
                       Some e \<Rightarrow> (Inl (HandlerError e), s)
                     | None \<Rightarrow>
                         (case call_handler params f payload s of
                            (HandlerPanics, s) \<Rightarrow> (Inr None, s)
                          | (OtherResults, s) \<Rightarrow>
                              (use_fallback fallback HANDLER_STATUS_INVALID_HANDLER_RESULT None package_type data
                                 (InvalidResultFor package_type), s)
                          | (result, s) \<Rightarrow>
                              (let (resp, err) =
                                 (case result of PackageAndError resp err \<Rightarrow> (resp, err) | _ \<Rightarrow> (None, None));
                                   (resp, err) =
                                 (case post_package_handler this of
                                    None \<Rightarrow> (resp, err)
                                  | Some post \<Rightarrow>
                                      (case post resp err of
                                         (post_resp, post_err) \<Rightarrow>
                                           (if post_resp \<noteq> None then post_resp else resp,
                                            if post_err \<noteq> None then post_err else err)))
                               in (case err of Some e \<Rightarrow> Inl (HandlerError e) | None \<Rightarrow> Inr resp, s))))
                | _ \<Rightarrow>
                    (use_fallback fallback HANDLER_STATUS_INVALID_HANDLER None package_type data
                       (InvalidHandlerFor package_type), s))))"

section \<open>Sending\<close>

definition payload2json :: "ipc_lib \<Rightarrow> go_value list \<Rightarrow> json option" where
  "payload2json lib payload = Some (JArr (map (json_Marshal (inject_lib.truncate lib)) payload))"

text \<open>What is handed to the connection's \<open>Write\<close>.\<close>

definition SendPackage :: "ipc_lib \<Rightarrow> structs \<Rightarrow> ipc_package \<Rightarrow> (ipc_error, int \<times> json option) result" where
  "SendPackage lib structs pkg =
     (let data = payload2json lib (pkg_Payload pkg) in
      case check_data lib structs (pkg_Type pkg) data of
        Some e \<Rightarrow> Inl e
      | None \<Rightarrow> Inr (pkg_Type pkg, data))"

text \<open>\<open>SendRaw\<close>: a text for a string parameter is the string, any other is read as JSON. There must be a description for every
  text; the decoder is one for all of them, so what it still holds after a value comes before the next text.\<close>

fun raw_values ::
  "(string \<Rightarrow> string \<Rightarrow> (json \<times> string) option) \<Rightarrow> nat \<Rightarrow> metadata list \<Rightarrow> string list \<Rightarrow> string \<Rightarrow> (ipc_error, json list) result" where
  "raw_values decode i ms [] held = Inr []"
| "raw_values decode i [] (raw # raws) held = Inl (IndexPanic i)"
| "raw_values decode i (m # ms) (raw # raws) held =
     (case (case md_Type m of TString _ \<Rightarrow> Some (JStr raw, held) | _ \<Rightarrow> decode held raw) of
        None \<Rightarrow> Inl (BadText i)
      | Some (j, held) \<Rightarrow>
          (case raw_values decode (Suc i) ms raws held of Inl e \<Rightarrow> Inl e | Inr js \<Rightarrow> Inr (j # js)))"

definition SendRaw ::
  "ipc_lib \<Rightarrow> (string \<Rightarrow> string \<Rightarrow> (json \<times> string) option) \<Rightarrow> structs \<Rightarrow> int \<Rightarrow> string list \<Rightarrow> (ipc_error, int \<times> json option) result" where
  "SendRaw lib decode structs package_type raws =
     (let metas = (case GetPayloadStruct package_type structs of None \<Rightarrow> [] | Some metas \<Rightarrow> metas) in
      case raw_values decode 0 metas raws [] of
        Inl e \<Rightarrow> Inl e
      | Inr payload \<Rightarrow>
          (let data = payload2json lib (map VJson payload) in
           case check_data lib structs package_type data of
             Some e \<Rightarrow> Inl e
           | None \<Rightarrow> Inr (package_type, data)))"

text \<open>Texts are sent as the package of the values they denote, when each denotes one value and nothing is held back.\<close>

definition denotes :: "ipc_lib \<Rightarrow> (string \<Rightarrow> string \<Rightarrow> (json \<times> string) option) \<Rightarrow> metadata \<Rightarrow> string \<times> go_value \<Rightarrow> bool" where
  "denotes lib decode m rv =
     (case md_Type m of
        TString _ \<Rightarrow> snd rv = VString (fst rv)
      | _ \<Rightarrow> decode [] (fst rv) = Some (json_Marshal (inject_lib.truncate lib) (snd rv), []))"

lemma raw_values_decoded:
  assumes "list_all2 (denotes lib decode) ms rvs"
  shows "raw_values decode i ms (map fst rvs) [] = Inr (map (json_Marshal (inject_lib.truncate lib) \<circ> snd) rvs)"
  using assms
proof (induction ms rvs arbitrary: i rule: list_all2_induct)
  case (Cons m ms rv rvs)
  have "(case md_Type m of TString _ \<Rightarrow> Some (JStr (fst rv), []) | _ \<Rightarrow> decode [] (fst rv)) =
      Some (json_Marshal (inject_lib.truncate lib) (snd rv), [])"
    using Cons.hyps(1) by (simp add: denotes_def split: go_type.splits)
  with Cons.IH show ?case by simp
qed simp

lemma SendRaw_SendPackage:
  assumes "structs package_type = Some ms" and "list_all2 (denotes lib decode) ms rvs"
  shows "SendRaw lib decode structs package_type (map fst rvs) =
    SendPackage lib structs \<lparr>pkg_Type = package_type, pkg_Payload = map snd rvs\<rparr>"
proof -
  have "raw_values decode 0 ms (map fst rvs) [] = Inr (map (json_Marshal (inject_lib.truncate lib) \<circ> snd) rvs)"
    by (rule raw_values_decoded [OF assms(2)])
  then show ?thesis using assms(1)
    by (simp add: SendRaw_def SendPackage_def GetPayloadStruct_def payload2json_def comp_def Let_def split: option.split)
qed

text \<open>\<open>handle_data\<close>: \<open>None\<close> when nothing has to be sent.\<close>

definition handle_data ::
  "ipc_lib \<Rightarrow> structs \<Rightarrow> 's ipc_framework \<Rightarrow> int \<Rightarrow> json option \<Rightarrow> 's \<Rightarrow>
     (ipc_error, (int \<times> json option) option) result \<times> 's" where
  "handle_data lib structs this package_type data s =
     (case HandleRequest lib structs this package_type data s of
        (Inl e, s) \<Rightarrow> (Inl e, s)
      | (Inr None, s) \<Rightarrow> (Inr None, s)
      | (Inr (Some resp), s) \<Rightarrow>
          (case SendPackage lib structs resp of Inl e \<Rightarrow> (Inl e, s) | Inr msg \<Rightarrow> (Inr (Some msg), s)))"

text \<open>The loop over the messages that arrive before the first read error: what it writes, and the state.\<close>

fun ipc_mainloop ::
  "ipc_lib \<Rightarrow> structs \<Rightarrow> 's ipc_framework \<Rightarrow> (int \<times> json option) list \<Rightarrow> 's \<Rightarrow> (int \<times> json option) list \<times> 's" where
  "ipc_mainloop lib structs this [] s = ([], s)"
| "ipc_mainloop lib structs this ((msg_type, data) # msgs) s =
     (if msg_type \<le> 0 then ipc_mainloop lib structs this msgs s
      else
        (case HandleRequest lib structs this msg_type data s of
           (Inl _, s) \<Rightarrow> ipc_mainloop lib structs this msgs s
         | (Inr None, s) \<Rightarrow> ipc_mainloop lib structs this msgs s
         | (Inr (Some resp), s) \<Rightarrow>
             (case SendPackage lib structs resp of
                Inl _ \<Rightarrow> ipc_mainloop lib structs this msgs s
              | Inr msg \<Rightarrow> (case ipc_mainloop lib structs this msgs s of (out, s) \<Rightarrow> (msg # out, s)))))"

section \<open>An endpoint\<close>

text \<open>
  What a client of the framework relies on: an endpoint knows the payload types of a set of
  packages (\<open>wire\<close>) and handles some of them (\<open>sig\<close>). Then what is sent is what was meant, and
  a well-typed request reaches its handler.
\<close>

lemma parse_data_basic:
  assumes "list_all2 basic_value vs ps" "list_all2 describes ms ps"
  shows "parse_data lib ms (payload2json lib vs) = Inr vs"
  using assms
  by (auto simp: parse_data_def payload2json_def ParseJsonPayloadWithMetas_def decode_raws_def
      decode_args_marshal dest!: list_all2_lengthD)

lemma basic_has_type: "basic_value v t \<Longrightarrow> has_type v t"
  by (simp add: basic_value_def)

locale ipc_endpoint =
  fixes lib :: ipc_lib and structs :: structs and fw :: "'s ipc_framework"
    and wire :: "int \<Rightarrow> go_type list option"
    and sig :: "int \<Rightarrow> (go_value list \<Rightarrow> 's \<Rightarrow> handler_result \<times> 's) option"
  assumes known: "wire t = Some ps \<Longrightarrow> \<exists>ms. structs t = Some ms \<and> list_all2 describes ms ps"
    and unknown: "wire t = None \<Longrightarrow> structs t = None"
    and handled: "sig t = Some f \<Longrightarrow> wire t = Some ps \<Longrightarrow> handlers fw t = Some (HandlerFunc (framework_type # ps) f)"
    and hooks: "pre_package_handler fw = None" "post_package_handler fw = None"
begin

lemma send_ok:
  assumes "wire (pkg_Type pkg) = Some ps" "list_all2 basic_value (pkg_Payload pkg) ps"
  shows "SendPackage lib structs pkg = Inr (pkg_Type pkg, payload2json lib (pkg_Payload pkg))"
  using known [OF assms(1)] parse_data_basic [OF assms(2)]
  by (auto simp: SendPackage_def check_data_def GetPayloadStruct_def Let_def)

lemma send_unknown: "wire (pkg_Type pkg) = None \<Longrightarrow> SendPackage lib structs pkg = Inl (NoPayloadStruct (pkg_Type pkg))"
  by (simp add: unknown SendPackage_def check_data_def GetPayloadStruct_def Let_def)

lemma request_ok:
  assumes "wire t = Some ps" "sig t = Some f" "list_all2 basic_value vs ps"
  shows "HandleRequest lib structs fw t (payload2json lib vs) s =
    (case f vs s of
       (HandlerPanics, s) \<Rightarrow> (Inr None, s)
     | (NoResults, s) \<Rightarrow> (Inr None, s)
     | (PackageAndError resp err, s) \<Rightarrow> (case err of Some e \<Rightarrow> Inl (HandlerError e) | None \<Rightarrow> Inr resp, s)
     | (OtherResults, s) \<Rightarrow> (use_fallback (fallback_handler fw) HANDLER_STATUS_INVALID_HANDLER_RESULT None t
         (payload2json lib vs) (InvalidResultFor t), s))"
proof -
  obtain ms where ms: "structs t = Some ms" "list_all2 describes ms ps" using known [OF assms(1)] by blast
  have "list_all2 has_type vs ps" using assms(3) by (rule list_all2_mono) (rule basic_has_type)
  then have "call_handler (framework_type # ps) f vs s = f vs s" by (simp add: call_handler_def)
  with ms handled [OF assms(2,1)] parse_data_basic [OF assms(3) ms(2)] hooks show ?thesis
    by (cases "f vs s") (simp add: HandleRequest_def GetPayloadStruct_def GetHandler_def Let_def split: handler_result.splits)
qed

lemma request_unknown:
  assumes "wire t = None"
  shows "HandleRequest lib structs fw t data s =
    (use_fallback (fallback_handler fw) HANDLER_STATUS_PAYLOAD_STRUCT_NOT_FOUND None t data (NoPayloadStruct t), s)"
  using unknown [OF assms] by (simp add: HandleRequest_def GetPayloadStruct_def Let_def)

end

lemma RegisterHandler_ok:
  assumes "0 < t" "handlers fw t = None" "parse_params 1 ps = Inr ms"
  shows "RegisterHandler t (HandlerFunc (framework_type # ps) f) (structs, fw) =
    (None, structs(t \<mapsto> ms), fw\<lparr>handlers := (handlers fw)(t \<mapsto> HandlerFunc (framework_type # ps) f)\<rparr>)"
  using assms
  by (simp add: RegisterHandler_def RegisterHandlerReplace_def get_payload_struct_by_handler_def
      GetStructByFunctionType_def Let_def)

end
