(* ===== verification/Ipc_Protocol.thy ===== *)
theory Ipc_Protocol
  imports Ipc_Core
begin

text \<open>
  \<open>core/daemonipc/shared.go\<close>, \<open>server.go\<close> and \<open>client.go\<close>: the package types, the handlers of the
  daemon over the operations it offers (\<open>daemonInterface\<close>, the record \<open>daemon_ops\<close>), and the handlers of
  the command-line client, whose state is the contents of its response channel.
\<close>

section \<open>Packages\<close>

definition PACKAGE_INTERNAL_SERVER_ERROR :: int where "PACKAGE_INTERNAL_SERVER_ERROR = 1"
definition PACKAGE_INVALID_PAYLOAD :: int where "PACKAGE_INVALID_PAYLOAD = 3"
definition PACKAGE_TOGGLE_LED :: int where "PACKAGE_TOGGLE_LED = 1024"
definition PACKAGE_TOGGLE_LED_RESP :: int where "PACKAGE_TOGGLE_LED_RESP = 1025"
definition PACKAGE_SIMULATE_BUTTON :: int where "PACKAGE_SIMULATE_BUTTON = 1026"
definition PACKAGE_SIMULATE_BUTTON_RESP :: int where "PACKAGE_SIMULATE_BUTTON_RESP = 1027"
definition PACKAGE_GADGET :: int where "PACKAGE_GADGET = 1028"
definition PACKAGE_GADGET_RESP :: int where "PACKAGE_GADGET_RESP = 1029"
definition PACKAGE_STATUS :: int where "PACKAGE_STATUS = 1030"
definition PACKAGE_STATUS_RESP :: int where "PACKAGE_STATUS_RESP = 1031"

lemmas package_defs = PACKAGE_INTERNAL_SERVER_ERROR_def PACKAGE_INVALID_PAYLOAD_def PACKAGE_TOGGLE_LED_def
  PACKAGE_TOGGLE_LED_RESP_def PACKAGE_SIMULATE_BUTTON_def PACKAGE_SIMULATE_BUTTON_RESP_def PACKAGE_GADGET_def
  PACKAGE_GADGET_RESP_def PACKAGE_STATUS_def PACKAGE_STATUS_RESP_def

definition TOGGLE_LED_NONE :: nat where "TOGGLE_LED_NONE = 0"
definition TOGGLE_LED_OFF :: nat where "TOGGLE_LED_OFF = 1"
definition TOGGLE_LED_ON :: nat where "TOGGLE_LED_ON = 2"

lemmas toggle_defs = TOGGLE_LED_NONE_def TOGGLE_LED_OFF_def TOGGLE_LED_ON_def

text \<open>The codes of \<open>SimulateButtonTarget\<close>.\<close>

definition BUTTON_TAP :: nat where "BUTTON_TAP = 0"
definition BUTTON_LONG :: nat where "BUTTON_LONG = 1"
definition BUTTON_SHUTDOWN :: nat where "BUTTON_SHUTDOWN = 2"
definition BUTTON_MULTI :: nat where "BUTTON_MULTI = 3"

lemmas button_defs = BUTTON_TAP_def BUTTON_LONG_def BUTTON_SHUTDOWN_def BUTTON_MULTI_def

definition SimulateButtonActionName :: "nat \<Rightarrow> string" where
  "SimulateButtonActionName target =
     (if target = BUTTON_TAP then ''tap''
      else if target = BUTTON_LONG then ''long''
      else if target = BUTTON_SHUTDOWN then ''shutdown''
      else if target = BUTTON_MULTI then ''multi''
      else ''unknown'')"

definition ToggleLEDTarget :: go_type where
  "ToggleLEDTarget = TUint ''ToggleLEDTarget'' 8"

definition SimulateButtonTarget :: go_type where
  "SimulateButtonTarget = TUint ''SimulateButtonTarget'' 8"

definition package :: "int \<Rightarrow> go_value \<Rightarrow> ipc_package" where
  "package t v = \<lparr>pkg_Type = t, pkg_Payload = [v]\<rparr>"

section \<open>The daemon's side\<close>

text \<open>\<open>daemonInterface\<close>; an error is its message.\<close>

record 's daemon_ops =
  GetTurnOffLeds :: "'s \<Rightarrow> bool"
  SetTurnOffLeds_op :: "bool \<Rightarrow> 's \<Rightarrow> 's"
  SimulateButton_op :: "nat \<Rightarrow> int \<Rightarrow> 's \<Rightarrow> string option \<times> 's"
  RequestGadget_op :: "string \<Rightarrow> 's \<Rightarrow> (string, string) result \<times> 's"
  RequestStatus_op :: "'s \<Rightarrow> string"

definition server_fallback :: "ipc_lib \<Rightarrow> fallback" where
  "server_fallback lib code err package_type data =
     (case code of
        HANDLER_STATUS_PAYLOAD_STRUCT_NOT_FOUND \<Rightarrow>
          (Some (package PACKAGE_INTERNAL_SERVER_ERROR
             (VString (''no such payload struct for package `'' @ Itoa package_type @ ''`, payload: '' @ raw_text lib data))), None)
      | HANDLER_STATUS_INVALID_PAYLOAD \<Rightarrow>
          (Some (package PACKAGE_INVALID_PAYLOAD
             (VString (case err of Some e \<Rightarrow> error_text lib e | None \<Rightarrow> []))), None)
      | _ \<Rightarrow>
          (Some (package PACKAGE_INTERNAL_SERVER_ERROR
             (VString (''invalid handler (or its result) for package `'' @ Itoa package_type @ ''`, payload: '' @ raw_text lib data))), None))"

definition handle_toggle_led :: "'s daemon_ops \<Rightarrow> go_value list \<Rightarrow> 's \<Rightarrow> handler_result \<times> 's" where
  "handle_toggle_led ops args s =
     (case args of
        [VUint target] \<Rightarrow>
          (let s = (if target = TOGGLE_LED_OFF then SetTurnOffLeds_op ops True s
                    else if target = TOGGLE_LED_ON then SetTurnOffLeds_op ops False s
                    else s)
           in (PackageAndError (Some (package PACKAGE_TOGGLE_LED_RESP (VBool (GetTurnOffLeds ops s)))) None, s))
      | _ \<Rightarrow> (HandlerPanics, s))"

definition handle_gadget :: "'s daemon_ops \<Rightarrow> go_value list \<Rightarrow> 's \<Rightarrow> handler_result \<times> 's" where
  "handle_gadget ops args s =
     (case args of
        [VString spec] \<Rightarrow>
          (case RequestGadget_op ops spec s of
             (Inl err, s) \<Rightarrow> (PackageAndError (Some (package PACKAGE_GADGET_RESP (VString (''error: '' @ err)))) None, s)
           | (Inr gadget, s) \<Rightarrow> (PackageAndError (Some (package PACKAGE_GADGET_RESP (VString gadget))) None, s))
      | _ \<Rightarrow> (HandlerPanics, s))"

definition handle_status :: "'s daemon_ops \<Rightarrow> go_value list \<Rightarrow> 's \<Rightarrow> handler_result \<times> 's" where
  "handle_status ops args s =
     (PackageAndError (Some (package PACKAGE_STATUS_RESP (VString (RequestStatus_op ops s)))) None, s)"

definition handle_simulate_button :: "'s daemon_ops \<Rightarrow> go_value list \<Rightarrow> 's \<Rightarrow> handler_result \<times> 's" where
  "handle_simulate_button ops args s =
     (case args of
        [VUint target, VInt count] \<Rightarrow>
          (case SimulateButton_op ops target count s of
             (Some err, s) \<Rightarrow>
               (PackageAndError (Some (package PACKAGE_SIMULATE_BUTTON_RESP (VString (''error: '' @ err)))) None, s)
           | (None, s) \<Rightarrow>
               (PackageAndError (Some (package PACKAGE_SIMULATE_BUTTON_RESP
                  (VString (SimulateButtonActionName target)))) None, s))
      | _ \<Rightarrow> (HandlerPanics, s))"

text \<open>Registering ignores the error, as the code does.\<close>

definition register :: "int \<Rightarrow> 's ipc_handler \<Rightarrow> structs \<times> 's ipc_framework \<Rightarrow> structs \<times> 's ipc_framework" where
  "register t h = (\<lambda>st. snd (RegisterHandler t h st))"

definition InitServer :: "ipc_lib \<Rightarrow> 's daemon_ops \<Rightarrow> structs \<Rightarrow> structs \<times> 's ipc_framework" where
  "InitServer lib ops structs =
     register PACKAGE_SIMULATE_BUTTON
       (HandlerFunc [framework_type, SimulateButtonTarget, TInt ''int'' 64] (handle_simulate_button ops))
     (register PACKAGE_STATUS (HandlerFunc [framework_type, TString ''string''] (handle_status ops))
     (register PACKAGE_GADGET (HandlerFunc [framework_type, TString ''string''] (handle_gadget ops))
     (register PACKAGE_TOGGLE_LED (HandlerFunc [framework_type, ToggleLEDTarget] (handle_toggle_led ops))
     (structs, NewIPCFramework\<lparr>fallback_handler := Some (server_fallback lib)\<rparr>))))"

section \<open>The client's side\<close>

type_synonym responses = "string list"

text \<open>The fallback only logs.\<close>

definition client_fallback :: fallback where
  "client_fallback code err package_type data = (None, None)"

definition resp_led :: "go_value list \<Rightarrow> responses \<Rightarrow> handler_result \<times> responses" where
  "resp_led args channel =
     (case args of
        [VBool turn_off_led] \<Rightarrow> (NoResults, channel @ [if turn_off_led then ''led: off'' else ''led: on''])
      | _ \<Rightarrow> (HandlerPanics, channel))"

definition resp_text :: "string \<Rightarrow> go_value list \<Rightarrow> responses \<Rightarrow> handler_result \<times> responses" where
  "resp_text prompt args channel =
     (case args of
        [VString s] \<Rightarrow> (NoResults, channel @ [prompt @ s])
      | _ \<Rightarrow> (HandlerPanics, channel))"

definition InitClient :: "structs \<Rightarrow> structs \<times> responses ipc_framework" where
  "InitClient structs =
     register PACKAGE_SIMULATE_BUTTON_RESP (HandlerFunc [framework_type, TString ''string''] (resp_text ''button: ''))
     (register PACKAGE_GADGET_RESP (HandlerFunc [framework_type, TString ''string''] (resp_text ''gadget: ''))
     (register PACKAGE_STATUS_RESP (HandlerFunc [framework_type, TString ''string''] (resp_text ''status: ''))
     (register PACKAGE_TOGGLE_LED_RESP (HandlerFunc [framework_type, TBool ''bool''] resp_led)
     (structs, NewIPCFramework\<lparr>fallback_handler := Some client_fallback\<rparr>))))"

section \<open>The two processes\<close>

text \<open>
  In the daemon \<open>init_ipc\<close> has called \<open>InitClient\<close> before \<open>InitServer\<close>, and the client calls \<open>InitServer\<close>
  before \<open>InitClient\<close>: each side knows the payloads of both directions.
\<close>

definition server_side :: "ipc_lib \<Rightarrow> 's daemon_ops \<Rightarrow> structs \<times> 's ipc_framework" where
  "server_side lib ops = InitServer lib ops (fst (InitClient Map.empty))"

text \<open>\<open>InitServer(nil)\<close>: only the payload descriptions it leaves behind are used.\<close>

definition nil_ops :: "unit daemon_ops" where
  "nil_ops = \<lparr>GetTurnOffLeds = (\<lambda>s. False), SetTurnOffLeds_op = (\<lambda>b s. s), SimulateButton_op = (\<lambda>t c s. (None, s)),
     RequestGadget_op = (\<lambda>spec s. (Inr [], s)), RequestStatus_op = (\<lambda>s. [])\<rparr>"

definition client_side :: "ipc_lib \<Rightarrow> structs \<times> responses ipc_framework" where
  "client_side lib = InitClient (fst (InitServer lib nil_ops Map.empty))"

section \<open>What each side knows and handles\<close>

text \<open>The packages that have a payload description, with their payload types.\<close>

definition wire_types :: "int \<Rightarrow> go_type list option" where
  "wire_types = [PACKAGE_TOGGLE_LED \<mapsto> [ToggleLEDTarget], PACKAGE_TOGGLE_LED_RESP \<mapsto> [TBool ''bool''],
     PACKAGE_SIMULATE_BUTTON \<mapsto> [SimulateButtonTarget, TInt ''int'' 64], PACKAGE_SIMULATE_BUTTON_RESP \<mapsto> [TString ''string''],
     PACKAGE_GADGET \<mapsto> [TString ''string''], PACKAGE_GADGET_RESP \<mapsto> [TString ''string''],
     PACKAGE_STATUS \<mapsto> [TString ''string''], PACKAGE_STATUS_RESP \<mapsto> [TString ''string'']]"

definition server_handles :: "'s daemon_ops \<Rightarrow> int \<Rightarrow> (go_value list \<Rightarrow> 's \<Rightarrow> handler_result \<times> 's) option" where
  "server_handles ops = [PACKAGE_TOGGLE_LED \<mapsto> handle_toggle_led ops, PACKAGE_GADGET \<mapsto> handle_gadget ops,
     PACKAGE_STATUS \<mapsto> handle_status ops, PACKAGE_SIMULATE_BUTTON \<mapsto> handle_simulate_button ops]"

definition client_handles :: "int \<Rightarrow> (go_value list \<Rightarrow> responses \<Rightarrow> handler_result \<times> responses) option" where
  "client_handles = [PACKAGE_TOGGLE_LED_RESP \<mapsto> resp_led, PACKAGE_STATUS_RESP \<mapsto> resp_text ''status: '',
     PACKAGE_GADGET_RESP \<mapsto> resp_text ''gadget: '', PACKAGE_SIMULATE_BUTTON_RESP \<mapsto> resp_text ''button: '']"

lemma register_func:
  assumes "0 < t" "handlers fw t = None" "parse_params 1 ps = Inr ms"
  shows "register t (HandlerFunc (framework_type # ps) f) (structs, fw) =
    (structs(t \<mapsto> ms), fw\<lparr>handlers := (handlers fw)(t \<mapsto> HandlerFunc (framework_type # ps) f)\<rparr>)"
  by (simp add: register_def RegisterHandler_ok [OF assms])

definition metas_of :: "go_type list \<Rightarrow> metadata list" where
  "metas_of ps = map2 (\<lambda>i t. Metadata i FIELD_TYPE_CHECK False t None []) [1..<Suc (length ps)] ps"

lemma metas_of_params:
  "parse_params 1 [ToggleLEDTarget] = Inr (metas_of [ToggleLEDTarget])"
  "parse_params 1 [TBool ''bool''] = Inr (metas_of [TBool ''bool''])"
  "parse_params 1 [TString ''string''] = Inr (metas_of [TString ''string''])"
  "parse_params 1 [SimulateButtonTarget, TInt ''int'' 64] = Inr (metas_of [SimulateButtonTarget, TInt ''int'' 64])"
  by (simp_all add: metas_of_def ToggleLEDTarget_def SimulateButtonTarget_def upt_rec)

lemma InitServer_eq:
  "InitServer lib ops structs =
    (structs(PACKAGE_TOGGLE_LED \<mapsto> metas_of [ToggleLEDTarget], PACKAGE_GADGET \<mapsto> metas_of [TString ''string''],
       PACKAGE_STATUS \<mapsto> metas_of [TString ''string''], PACKAGE_SIMULATE_BUTTON \<mapsto> metas_of [SimulateButtonTarget, TInt ''int'' 64]),
     NewIPCFramework\<lparr>fallback_handler := Some (server_fallback lib), handlers := [
       PACKAGE_TOGGLE_LED \<mapsto> HandlerFunc [framework_type, ToggleLEDTarget] (handle_toggle_led ops),
       PACKAGE_GADGET \<mapsto> HandlerFunc [framework_type, TString ''string''] (handle_gadget ops),
       PACKAGE_STATUS \<mapsto> HandlerFunc [framework_type, TString ''string''] (handle_status ops),
       PACKAGE_SIMULATE_BUTTON \<mapsto> HandlerFunc [framework_type, SimulateButtonTarget, TInt ''int'' 64] (handle_simulate_button ops)]\<rparr>)"
  unfolding InitServer_def
  by (simp add: register_func [OF _ _ metas_of_params(1)] register_func [OF _ _ metas_of_params(3)]
      register_func [OF _ _ metas_of_params(4)] package_defs NewIPCFramework_def)

lemma InitClient_eq:
  "InitClient structs =
    (structs(PACKAGE_TOGGLE_LED_RESP \<mapsto> metas_of [TBool ''bool''], PACKAGE_STATUS_RESP \<mapsto> metas_of [TString ''string''],
       PACKAGE_GADGET_RESP \<mapsto> metas_of [TString ''string''], PACKAGE_SIMULATE_BUTTON_RESP \<mapsto> metas_of [TString ''string'']),
     NewIPCFramework\<lparr>fallback_handler := Some client_fallback, handlers := [
       PACKAGE_TOGGLE_LED_RESP \<mapsto> HandlerFunc [framework_type, TBool ''bool''] resp_led,
       PACKAGE_STATUS_RESP \<mapsto> HandlerFunc [framework_type, TString ''string''] (resp_text ''status: ''),
       PACKAGE_GADGET_RESP \<mapsto> HandlerFunc [framework_type, TString ''string''] (resp_text ''gadget: ''),
       PACKAGE_SIMULATE_BUTTON_RESP \<mapsto> HandlerFunc [framework_type, TString ''string''] (resp_text ''button: '')]\<rparr>)"
  unfolding InitClient_def
  by (simp add: register_func [OF _ _ metas_of_params(2)] register_func [OF _ _ metas_of_params(3)]
      package_defs NewIPCFramework_def)

lemma metas_of_describes:
  assumes "wire_types t = Some ps"
  shows "list_all2 describes (metas_of ps) ps"
proof -
  have "ps \<in> {[ToggleLEDTarget], [TBool ''bool''], [TString ''string''], [SimulateButtonTarget, TInt ''int'' 64]}"
    using assms by (auto simp: wire_types_def split: if_splits)
  then show ?thesis using metas_of_params [THEN parse_params_describes] by auto
qed

lemma structs_both:
  "fst (server_side lib ops) = map_option metas_of \<circ> wire_types"
  "fst (client_side lib) = map_option metas_of \<circ> wire_types"
  by (auto simp: server_side_def client_side_def InitServer_eq InitClient_eq wire_types_def package_defs fun_eq_iff)

lemma sides_fields:
  "pre_package_handler (snd (server_side lib ops)) = None" "post_package_handler (snd (server_side lib ops)) = None"
  "pre_package_handler (snd (client_side lib)) = None" "post_package_handler (snd (client_side lib)) = None"
  "fallback_handler (snd (server_side lib ops)) = Some (server_fallback lib)"
  "fallback_handler (snd (client_side lib)) = Some client_fallback"
  by (simp_all add: server_side_def client_side_def InitServer_eq InitClient_eq NewIPCFramework_def)

interpretation server: ipc_endpoint lib "fst (server_side lib ops)" "snd (server_side lib ops)" wire_types "server_handles ops"
  for lib ops
proof unfold_locales
  fix t ps f
  assume "server_handles ops t = Some f" "wire_types t = Some ps"
  then show "handlers (snd (server_side lib ops)) t = Some (HandlerFunc (framework_type # ps) f)"
    by (auto simp: server_side_def InitServer_eq server_handles_def wire_types_def package_defs NewIPCFramework_def split: if_splits)
qed (use metas_of_describes in \<open>auto simp: structs_both sides_fields\<close>)

interpretation client: ipc_endpoint lib "fst (client_side lib)" "snd (client_side lib)" wire_types client_handles
  for lib
proof unfold_locales
  fix t ps f
  assume "client_handles t = Some f" "wire_types t = Some ps"
  then show "handlers (snd (client_side lib)) t = Some (HandlerFunc (framework_type # ps) f)"
    by (auto simp: client_side_def InitClient_eq client_handles_def wire_types_def package_defs NewIPCFramework_def split: if_splits)
qed (use metas_of_describes in \<open>auto simp: structs_both sides_fields\<close>)

end
