(* ===== verification/Ipc_Client.thy ===== *)
theory Ipc_Client
  imports Ipc_Protocol "HOL-Library.Multiset" "HOL-Library.Char_ord" "HOL-Library.List_Lexorder"
begin

text \<open>
  \<open>core/ipc/ipc.go\<close> and the two transports: how a command line becomes a package (\<open>build_payload\<close>
  through the \<open>typeinject\<close> library), how the package travels over the stream connection
  (\<open>streamClient.Call\<close> against the daemon's loop) or over D-Bus (\<open>dbusClient.Call\<close> against
  \<open>dbusService.Request\<close>), and which text comes back. Both are shown to do what \<open>cli_spec\<close> says, which
  mentions neither packages nor JSON. Connecting, and the waiting itself, are not
  modelled: a call for which no response arrives times out.
\<close>

section \<open>Commands\<close>

definition ipc_mapping :: "(string \<times> int) list" where
  "ipc_mapping = [(''led'', PACKAGE_TOGGLE_LED), (''tap'', PACKAGE_SIMULATE_BUTTON), (''gadget'', PACKAGE_GADGET),
     (''status'', PACKAGE_STATUS)]"

datatype dbus_error = CannotIdentifyCaller | AccessDenied nat | RequestFailed ipc_error

datatype call_error =
    NoSuchCommand string
  | MultiRequiresCount
  | InvalidMultiCount string
  | MultiCountTooSmall
  | InvalidTapAction string
  | InvalidLedState string
  | BuildFailed inject_error
  | SendFailed ipc_error
  | TimedOut
  | DbusFailed dbus_error
  | NoResponse
  | CannotDecode
  | EmptyPayload
  | UnexpectedResponse int

definition build_status :: "go_value list \<Rightarrow> (call_error, go_value list) result" where
  "build_status args = Inr [VString []]"

definition arg_string :: "nat \<Rightarrow> go_value list \<Rightarrow> string" where
  "arg_string i args = (case args ! i of VString s \<Rightarrow> s | _ \<Rightarrow> [])"

definition build_gadget :: "go_value list \<Rightarrow> (call_error, go_value list) result" where
  "build_gadget args = Inr [VString (TrimSpace (arg_string 0 args))]"

definition build_tap :: "go_value list \<Rightarrow> (call_error, go_value list) result" where
  "build_tap args =
     (let action = ToLower (TrimSpace (arg_string 0 args)); cnt = arg_string 1 args in
      if action \<in> {[], ''-'', ''tap''} then Inr [VUint BUTTON_TAP, VInt 0]
      else if action = ''long'' then Inr [VUint BUTTON_LONG, VInt 0]
      else if action = ''shutdown'' then Inr [VUint BUTTON_SHUTDOWN, VInt 0]
      else if action = ''multi'' then
        (if TrimSpace cnt = [] then Inl MultiRequiresCount
         else (case Atoi (TrimSpace cnt) of
                 None \<Rightarrow> Inl (InvalidMultiCount cnt)
               | Some n \<Rightarrow> if n < 2 then Inl MultiCountTooSmall else Inr [VUint BUTTON_MULTI, VInt n]))
      else Inl (InvalidTapAction action))"

definition build_toggle_led :: "go_value list \<Rightarrow> (call_error, go_value list) result" where
  "build_toggle_led args =
     (let state = ToLower (TrimSpace (arg_string 0 args)) in
      if state \<in> {[], ''get'', ''state'', ''query''} then Inr [VUint TOGGLE_LED_NONE]
      else if state \<in> {''on'', ''true'', ''1''} then Inr [VUint TOGGLE_LED_ON]
      else if state \<in> {''off'', ''false'', ''0''} then Inr [VUint TOGGLE_LED_OFF]
      else Inl (InvalidLedState state))"

text \<open>The table \<open>init\<close> fills: the parameter types of a builder and what it does.\<close>

definition ipc_builders :: "int \<Rightarrow> (go_type list \<times> (go_value list \<Rightarrow> (call_error, go_value list) result)) option" where
  "ipc_builders = [PACKAGE_TOGGLE_LED \<mapsto> ([TString ''string''], build_toggle_led),
     PACKAGE_SIMULATE_BUTTON \<mapsto> ([TString ''string'', TString ''string''], build_tap),
     PACKAGE_GADGET \<mapsto> ([TString ''string''], build_gadget),
     PACKAGE_STATUS \<mapsto> ([TString ''string''], build_status)]"

definition pad_args :: "nat \<Rightarrow> string list \<Rightarrow> string list" where
  "pad_args arity args = map (\<lambda>i. if i < length args then args ! i else []) [0..<arity]"

definition build_payload :: "inject_lib \<Rightarrow> int \<Rightarrow> string list \<Rightarrow> (call_error, go_value list) result" where
  "build_payload lib package_type args =
     (case ipc_builders package_type of
        None \<Rightarrow> Inr (map VString args)
      | Some (params, builder) \<Rightarrow>
          (case CallFunctionJSON lib (TFunc params, builder) (Some (JArr (map JStr (pad_args (length params) args)))) [] of
             Inl e \<Rightarrow> Inl (BuildFailed e)
           | Inr result \<Rightarrow> result))"

text \<open>\<open>CallIPC\<close> over a client's \<open>Call\<close>.\<close>

definition CallIPC ::
  "ipc_lib \<Rightarrow> (int \<Rightarrow> go_value list \<Rightarrow> 's \<Rightarrow> (call_error, string) result \<times> 's) \<Rightarrow> string \<Rightarrow> string list \<Rightarrow> 's \<Rightarrow>
     (call_error, string) result \<times> 's" where
  "CallIPC lib call command args s =
     (let ipc_command = TrimSpace command in
      case map_of ipc_mapping ipc_command of
        None \<Rightarrow> (Inl (NoSuchCommand ipc_command), s)
      | Some package_type \<Rightarrow>
          (case build_payload (inject_lib.truncate lib) package_type args of
             Inl e \<Rightarrow> (Inl e, s)
           | Inr payload \<Rightarrow> call package_type payload s))"

section \<open>Listing the commands\<close>

record command_desc =
  desc_Name :: string
  desc_PackageType :: int
  desc_Args :: "string list"

primrec type_String :: "go_type \<Rightarrow> string"
and field_String :: "struct_field \<Rightarrow> string" where
  "type_String (TBool n) = n"
| "type_String (TInt n _) = n"
| "type_String (TUint n _) = n"
| "type_String (TFloat n _) = n"
| "type_String (TString n) = n"
| "type_String TInterface = ''interface {}''"
| "type_String (TFunc ps) = ''func('' @ Join '', '' (map type_String ps) @ '')''"
| "type_String (TPointer t) = ''*'' @ type_String t"
| "type_String (TSlice t) = ''[]'' @ type_String t"
| "type_String (TMap k v) = ''map['' @ type_String k @ '']'' @ type_String v"
| "type_String (TStruct n fs) = n"
| "field_String (Field n ex v tag t) = n @ '' '' @ type_String t"

fun elem_of :: "go_type \<Rightarrow> go_type" where
  "elem_of (TPointer t) = elem_of t"
| "elem_of t = t"

definition describe_type :: "go_type \<Rightarrow> string" where
  "describe_type t =
     (case elem_of t of
        TStruct _ fs \<Rightarrow> ''struct{'' @ Join ''; '' (map field_String fs) @ ''}''
      | _ \<Rightarrow> type_String t)"

definition describe_command :: "string \<times> int \<Rightarrow> command_desc" where
  "describe_command = (\<lambda>(name, pkg_type).
     (let args = (case ipc_builders pkg_type of
            None \<Rightarrow> []
          | Some (params, _) \<Rightarrow>
              (case GetStructByFunctionType (TFunc params) [] of
                 Inl _ \<Rightarrow> []
               | Inr metas \<Rightarrow> map (describe_type \<circ> md_Type) metas)) in
      \<lparr>desc_Name = name, desc_PackageType = pkg_type,
       desc_Args = (if args = [] then [''<raw string args>''] else args)\<rparr>))"

text \<open>\<open>order\<close> is the order in which the map's entries come; the result is sorted by name.\<close>

definition ListCommands :: "(string \<times> int) list \<Rightarrow> command_desc list" where
  "ListCommands order = sort_key desc_Name (map describe_command order)"

definition command_example :: "string \<Rightarrow> string" where
  "command_example name =
     (if name = ''led'' then ''ipc led [on|off]''
      else if name = ''tap'' then ''ipc tap [tap|long|shutdown|multi <count>]''
      else if name = ''gadget'' then ''ipc gadget [name[.submode]]''
      else if name = ''status'' then ''ipc status''
      else [])"

definition newline :: string where
  "newline = [char_of (10 :: nat)]"

definition ListCommandsString :: "(string \<times> int) list \<Rightarrow> string" where
  "ListCommandsString order =
     concat (map (\<lambda>d. desc_Name d @ replicate (7 - length (desc_Name d)) CHR '' '' @ '' args: ['' @ Join '', '' (desc_Args d) @ '']''
         @ newline @ ''        '' @ command_example (desc_Name d) @ newline) (ListCommands order))
     @ newline @ ''Examples:'' @ newline @ ''  ipc led off'' @ newline @ ''  ipc tap multi 3'' @ newline
     @ ''  ipc gadget rndis.1'' @ newline @ ''  ipc status'' @ newline"

section \<open>The stream transport\<close>

definition stream_call ::
  "ipc_lib \<Rightarrow> 's daemon_ops \<Rightarrow> int \<Rightarrow> go_value list \<Rightarrow> 's \<Rightarrow> (call_error, string) result \<times> 's" where
  "stream_call lib ops package_type payload s =
     (let (client_structs, client) = client_side lib; (server_structs, server) = server_side lib ops in
      case SendPackage lib client_structs \<lparr>pkg_Type = package_type, pkg_Payload = payload\<rparr> of
        Inl e \<Rightarrow> (Inl (SendFailed e), s)
      | Inr msg \<Rightarrow>
          (case ipc_mainloop lib server_structs server [msg] s of
             (replies, s) \<Rightarrow>
               (case snd (ipc_mainloop lib client_structs client replies []) of
                  [] \<Rightarrow> (Inl TimedOut, s)
                | response # _ \<Rightarrow> (Inr response, s))))"

section \<open>The D-Bus transport\<close>

text \<open>
  The bus's answer to \<open>GetConnectionUnixUser\<close> and the daemon's own user are arguments. In a
  D-Bus build the daemon has only the server's payload descriptions.
\<close>

definition dbus_side :: "ipc_lib \<Rightarrow> 's daemon_ops \<Rightarrow> structs \<times> 's ipc_framework" where
  "dbus_side lib ops = InitServer lib ops Map.empty"

definition dbus_Request ::
  "ipc_lib \<Rightarrow> 's daemon_ops \<Rightarrow> bool \<Rightarrow> nat option \<Rightarrow> nat \<Rightarrow> int \<Rightarrow> json option \<Rightarrow> 's \<Rightarrow>
     (dbus_error, int \<times> json option) result \<times> 's" where
  "dbus_Request lib ops allow_other_user caller_uid own_uid package_type payload_json s =
     (let (structs, framework) = dbus_side lib ops;
          go = (case HandleRequest lib structs framework package_type payload_json s of
                  (Inl e, s) \<Rightarrow> (Inl (RequestFailed e), s)
                | (Inr None, s) \<Rightarrow> (Inr (0, None), s)
                | (Inr (Some response), s) \<Rightarrow> (Inr (pkg_Type response, payload2json lib (pkg_Payload response)), s)) in
      if \<not> allow_other_user then
        (case caller_uid of
           None \<Rightarrow> (Inl CannotIdentifyCaller, s)
         | Some uid \<Rightarrow> if own_uid \<noteq> uid then (Inl (AccessDenied uid), s) else go)
      else go)"

text \<open>\<open>json.Unmarshal\<close> into a \<open>[]bool\<close> and a \<open>[]string\<close>: \<open>null\<close> leaves the zero value.\<close>

fun unmarshal_bools :: "json list \<Rightarrow> bool list option" where
  "unmarshal_bools [] = Some []"
| "unmarshal_bools (JBool b # js) = map_option ((#) b) (unmarshal_bools js)"
| "unmarshal_bools (JNull # js) = map_option ((#) False) (unmarshal_bools js)"
| "unmarshal_bools _ = None"

fun unmarshal_strings :: "json list \<Rightarrow> string list option" where
  "unmarshal_strings [] = Some []"
| "unmarshal_strings (JStr s # js) = map_option ((#) s) (unmarshal_strings js)"
| "unmarshal_strings (JNull # js) = map_option ((#) []) (unmarshal_strings js)"
| "unmarshal_strings _ = None"

definition dbus_text :: "int \<Rightarrow> json option \<Rightarrow> (call_error, string) result" where
  "dbus_text response_type response_json =
     (if response_type = 0 then Inl NoResponse
      else if response_type = PACKAGE_TOGGLE_LED_RESP then
        (case Option.bind (decode_raws response_json) unmarshal_bools of
           None \<Rightarrow> Inl CannotDecode
         | Some [] \<Rightarrow> Inl EmptyPayload
         | Some (v # _) \<Rightarrow> Inr (if v then ''led: off'' else ''led: on''))
      else if response_type \<in> {PACKAGE_STATUS_RESP, PACKAGE_GADGET_RESP, PACKAGE_SIMULATE_BUTTON_RESP} then
        (case Option.bind (decode_raws response_json) unmarshal_strings of
           None \<Rightarrow> Inl CannotDecode
         | Some [] \<Rightarrow> Inl EmptyPayload
         | Some (v # _) \<Rightarrow>
             Inr ((if response_type = PACKAGE_STATUS_RESP then ''status: ''
                   else if response_type = PACKAGE_GADGET_RESP then ''gadget: ''
                   else ''button: '') @ v))
      else Inl (UnexpectedResponse response_type))"

definition dbus_call ::
  "ipc_lib \<Rightarrow> 's daemon_ops \<Rightarrow> bool \<Rightarrow> nat option \<Rightarrow> nat \<Rightarrow> int \<Rightarrow> go_value list \<Rightarrow> 's \<Rightarrow>
     (call_error, string) result \<times> 's" where
  "dbus_call lib ops allow_other_user caller_uid own_uid package_type payload s =
     (case dbus_Request lib ops allow_other_user caller_uid own_uid package_type (payload2json lib payload) s of
        (Inl e, s) \<Rightarrow> (Inl (DbusFailed e), s)
      | (Inr (response_type, response_json), s) \<Rightarrow> (dbus_text response_type response_json, s))"

section \<open>What the commands mean\<close>

definition led_text :: "bool \<Rightarrow> string" where
  "led_text off = (if off then ''led: off'' else ''led: on'')"

definition cli_arg :: "nat \<Rightarrow> string list \<Rightarrow> string" where
  "cli_arg i args = (if i < length args then args ! i else [])"

definition cli_led :: "'s daemon_ops \<Rightarrow> string \<Rightarrow> 's \<Rightarrow> (call_error, string) result \<times> 's" where
  "cli_led ops state s =
     (if state \<in> {[], ''get'', ''state'', ''query''} then (Inr (led_text (GetTurnOffLeds ops s)), s)
      else if state \<in> {''on'', ''true'', ''1''} then
        (let s' = SetTurnOffLeds_op ops False s in (Inr (led_text (GetTurnOffLeds ops s')), s'))
      else if state \<in> {''off'', ''false'', ''0''} then
        (let s' = SetTurnOffLeds_op ops True s in (Inr (led_text (GetTurnOffLeds ops s')), s'))
      else (Inl (InvalidLedState state), s))"

definition cli_press :: "'s daemon_ops \<Rightarrow> nat \<Rightarrow> int \<Rightarrow> 's \<Rightarrow> (call_error, string) result \<times> 's" where
  "cli_press ops target cnt s =
     (case SimulateButton_op ops target cnt s of
        (Some err, s) \<Rightarrow> (Inr (''button: error: '' @ err), s)
      | (None, s) \<Rightarrow> (Inr (''button: '' @ SimulateButtonActionName target), s))"

definition cli_tap :: "'s daemon_ops \<Rightarrow> string \<Rightarrow> string \<Rightarrow> 's \<Rightarrow> (call_error, string) result \<times> 's" where
  "cli_tap ops action cnt s =
     (if action \<in> {[], ''-'', ''tap''} then cli_press ops BUTTON_TAP 0 s
      else if action = ''long'' then cli_press ops BUTTON_LONG 0 s
      else if action = ''shutdown'' then cli_press ops BUTTON_SHUTDOWN 0 s
      else if action \<noteq> ''multi'' then (Inl (InvalidTapAction action), s)
      else if TrimSpace cnt = [] then (Inl MultiRequiresCount, s)
      else (case Atoi (TrimSpace cnt) of
              None \<Rightarrow> (Inl (InvalidMultiCount cnt), s)
            | Some n \<Rightarrow> if n < 2 then (Inl MultiCountTooSmall, s) else cli_press ops BUTTON_MULTI n s))"

definition cli_gadget :: "'s daemon_ops \<Rightarrow> string \<Rightarrow> 's \<Rightarrow> (call_error, string) result \<times> 's" where
  "cli_gadget ops spec s =
     (case RequestGadget_op ops spec s of
        (Inl err, s) \<Rightarrow> (Inr (''gadget: error: '' @ err), s)
      | (Inr gadget, s) \<Rightarrow> (Inr (''gadget: '' @ gadget), s))"

definition cli_spec :: "'s daemon_ops \<Rightarrow> string \<Rightarrow> string list \<Rightarrow> 's \<Rightarrow> (call_error, string) result \<times> 's" where
  "cli_spec ops command args s =
     (let command = TrimSpace command in
      if command = ''led'' then cli_led ops (ToLower (TrimSpace (cli_arg 0 args))) s
      else if command = ''tap'' then cli_tap ops (ToLower (TrimSpace (cli_arg 0 args))) (cli_arg 1 args) s
      else if command = ''gadget'' then cli_gadget ops (TrimSpace (cli_arg 0 args)) s
      else if command = ''status'' then (Inr (''status: '' @ RequestStatus_op ops s), s)
      else (Inl (NoSuchCommand command), s))"

section \<open>Building the payload\<close>

lemma call_strings:
  "CallFunctionJSON lib (TFunc [TString n], b) (Some (JArr [JStr x])) [] = Inr (b [VString x])"
  "CallFunctionJSON lib (TFunc [TString n, TString m], b) (Some (JArr [JStr x, JStr y])) [] = Inr (b [VString x, VString y])"
  by (simp_all add: CallFunctionJSON_def reflect_call_def ParseJsonPayload_def GetStructByFunctionType_def decode_raws_def Let_def
      decode_json_argv_def ConvertArgv_def convert_json_def is_func_def)

lemma pad_args_eq: "pad_args (Suc 0) args = [cli_arg 0 args]" "pad_args 2 args = [cli_arg 0 args, cli_arg 1 args]"
  by (simp_all add: pad_args_def cli_arg_def numeral_2_eq_2)

lemma build_payload_eq:
  "build_payload lib PACKAGE_TOGGLE_LED args = build_toggle_led [VString (cli_arg 0 args)]"
  "build_payload lib PACKAGE_SIMULATE_BUTTON args = build_tap [VString (cli_arg 0 args), VString (cli_arg 1 args)]"
  "build_payload lib PACKAGE_GADGET args = Inr [VString (TrimSpace (cli_arg 0 args))]"
  "build_payload lib PACKAGE_STATUS args = Inr [VString []]"
  by (simp_all add: build_payload_def ipc_builders_def package_defs pad_args_eq call_strings build_gadget_def
      build_status_def arg_string_def flip: numeral_2_eq_2)

section \<open>A request and its answer\<close>

text \<open>The text the client makes of a response.\<close>

definition reply_text :: "ipc_package \<Rightarrow> string" where
  "reply_text r =
     (case pkg_Payload r of
        [VBool off] \<Rightarrow> led_text off
      | [VString msg] \<Rightarrow>
          (if pkg_Type r = PACKAGE_STATUS_RESP then ''status: ''
           else if pkg_Type r = PACKAGE_GADGET_RESP then ''gadget: ''
           else ''button: '') @ msg
      | _ \<Rightarrow> [])"

definition good_reply :: "ipc_package \<Rightarrow> bool" where
  "good_reply r \<longleftrightarrow>
     (\<exists>b. r = package PACKAGE_TOGGLE_LED_RESP (VBool b)) \<or>
     (\<exists>t msg. t \<in> {PACKAGE_STATUS_RESP, PACKAGE_GADGET_RESP, PACKAGE_SIMULATE_BUTTON_RESP} \<and> r = package t (VString msg))"

lemma good_replyE:
  assumes "good_reply r"
  obtains ps g where "0 < pkg_Type r" "wire_types (pkg_Type r) = Some ps" "list_all2 basic_value (pkg_Payload r) ps"
    "client_handles (pkg_Type r) = Some g" "g (pkg_Payload r) [] = (NoResults, [reply_text r])"
  using assms
  by (auto simp: good_reply_def package_def wire_types_def client_handles_def package_defs basic_value_def
      resp_led_def resp_text_def reply_text_def led_text_def)

lemma dbus_text_good: "good_reply r \<Longrightarrow> dbus_text (pkg_Type r) (payload2json lib (pkg_Payload r)) = Inr (reply_text r)"
  by (auto simp: good_reply_def package_def dbus_text_def package_defs payload2json_def decode_raws_def reply_text_def led_text_def)

lemma stream_reply:
  assumes "wire_types t = Some ps" "server_handles ops t = Some f" "list_all2 basic_value vs ps"
    "f vs s = (PackageAndError (Some r) None, s')" "good_reply r"
  shows "stream_call lib ops t vs s = (Inr (reply_text r), s')"
proof -
  obtain cs client ss server where sides: "client_side lib = (cs, client)" "server_side lib ops = (ss, server)"
    by (metis surj_pair)
  obtain qs g where r: "0 < pkg_Type r" "wire_types (pkg_Type r) = Some qs" "list_all2 basic_value (pkg_Payload r) qs"
    "client_handles (pkg_Type r) = Some g" "g (pkg_Payload r) [] = (NoResults, [reply_text r])"
    using assms(5) by (rule good_replyE)
  have "0 < t" using assms(1) by (auto simp: wire_types_def package_defs split: if_splits)
  have req: "SendPackage lib cs \<lparr>pkg_Type = t, pkg_Payload = vs\<rparr> = Inr (t, payload2json lib vs)"
    using client.send_ok [of "\<lparr>pkg_Type = t, pkg_Payload = vs\<rparr>" ps lib] assms(1,3) by (simp add: sides)
  have ans: "HandleRequest lib ss server t (payload2json lib vs) s = (Inr (Some r), s')"
    using server.request_ok [OF assms(1-3), of lib s] assms(4) by (simp add: sides)
  have resp: "SendPackage lib ss r = Inr (pkg_Type r, payload2json lib (pkg_Payload r))"
    using server.send_ok [OF r(2,3), of lib ops] by (simp add: sides)
  have got: "HandleRequest lib cs client (pkg_Type r) (payload2json lib (pkg_Payload r)) [] = (Inr None, [reply_text r])"
    using client.request_ok [OF r(2,4,3), of lib "[]"] r(5) by (simp add: sides)
  show ?thesis using \<open>0 < t\<close> r(1) by (simp add: stream_call_def sides req ans resp got)
qed

text \<open>The D-Bus side knows the requests only.\<close>

definition request_types :: "int \<Rightarrow> go_type list option" where
  "request_types = [PACKAGE_TOGGLE_LED \<mapsto> [ToggleLEDTarget], PACKAGE_SIMULATE_BUTTON \<mapsto> [SimulateButtonTarget, TInt ''int'' 64],
     PACKAGE_GADGET \<mapsto> [TString ''string''], PACKAGE_STATUS \<mapsto> [TString ''string'']]"

lemma request_wire: "request_types t = Some ps \<Longrightarrow> wire_types t = Some ps"
  by (auto simp: request_types_def wire_types_def package_defs split: if_splits)

interpretation bus: ipc_endpoint lib "fst (dbus_side lib ops)" "snd (dbus_side lib ops)" request_types "server_handles ops"
  for lib ops
proof unfold_locales
  fix t ps f
  assume "server_handles ops t = Some f" "request_types t = Some ps"
  then show "handlers (snd (dbus_side lib ops)) t = Some (HandlerFunc (framework_type # ps) f)"
    by (auto simp: dbus_side_def InitServer_eq server_handles_def request_types_def package_defs NewIPCFramework_def split: if_splits)
next
  fix t ps
  assume t: "request_types t = Some ps"
  then have "fst (dbus_side lib ops) t = Some (metas_of ps)"
    by (auto simp: dbus_side_def InitServer_eq request_types_def package_defs split: if_splits)
  with metas_of_describes [OF request_wire [OF t]] show "\<exists>ms. fst (dbus_side lib ops) t = Some ms \<and> list_all2 describes ms ps"
    by blast
qed (auto simp: dbus_side_def InitServer_eq NewIPCFramework_def request_types_def package_defs split: if_splits)

lemma dbus_reply:
  assumes "request_types t = Some ps" "server_handles ops t = Some f" "list_all2 basic_value vs ps"
    "f vs s = (PackageAndError (Some r) None, s')" "good_reply r" "allow \<or> caller = Some own"
  shows "dbus_call lib ops allow caller own t vs s = (Inr (reply_text r), s')"
proof -
  obtain ss fw where side: "dbus_side lib ops = (ss, fw)" by (metis surj_pair)
  have "HandleRequest lib ss fw t (payload2json lib vs) s = (Inr (Some r), s')"
    using bus.request_ok [OF assms(1-3), of lib s] assms(4) by (simp add: side)
  with assms(6) dbus_text_good [OF assms(5)] show ?thesis
    by (auto simp: dbus_call_def dbus_Request_def side Let_def)
qed

section \<open>The commands over any faithful transport\<close>

text \<open>
  What a client's \<open>Call\<close> must do for \<open>CallIPC\<close> to mean \<open>cli_spec\<close>: take a well-typed request to its
  handler and bring the reply back as text.
\<close>

locale transport =
  fixes ops :: "'s daemon_ops" and call :: "int \<Rightarrow> go_value list \<Rightarrow> 's \<Rightarrow> (call_error, string) result \<times> 's"
  assumes call_reply: "request_types t = Some ps \<Longrightarrow> server_handles ops t = Some f \<Longrightarrow> list_all2 basic_value vs ps \<Longrightarrow>
    f vs s = (PackageAndError (Some r) None, s') \<Longrightarrow> good_reply r \<Longrightarrow> call t vs s = (Inr (reply_text r), s')"
begin

lemma call_led:
  assumes "k < 256"
  shows "call PACKAGE_TOGGLE_LED [VUint k] s =
    (let s' = (if k = TOGGLE_LED_OFF then SetTurnOffLeds_op ops True s
               else if k = TOGGLE_LED_ON then SetTurnOffLeds_op ops False s else s)
     in (Inr (led_text (GetTurnOffLeds ops s')), s'))"
proof -
  define s' where "s' = (if k = TOGGLE_LED_OFF then SetTurnOffLeds_op ops True s
    else if k = TOGGLE_LED_ON then SetTurnOffLeds_op ops False s else s)"
  have "call PACKAGE_TOGGLE_LED [VUint k] s =
      (Inr (reply_text (package PACKAGE_TOGGLE_LED_RESP (VBool (GetTurnOffLeds ops s')))), s')"
    by (rule call_reply [where f = "handle_toggle_led ops" and ps = "[ToggleLEDTarget]"])
      (use assms in \<open>auto simp: request_types_def server_handles_def package_defs ToggleLEDTarget_def basic_value_def
        int_max_def handle_toggle_led_def s'_def good_reply_def Let_def\<close>)
  then show ?thesis by (simp add: s'_def reply_text_def package_def Let_def)
qed

lemma call_press:
  assumes "k < 256" "int_min \<le> n" "n \<le> int_max"
  shows "call PACKAGE_SIMULATE_BUTTON [VUint k, VInt n] s = cli_press ops k n s"
proof -
  obtain err s' where sim: "SimulateButton_op ops k n s = (err, s')" by (metis surj_pair)
  define msg where "msg = (case err of Some e \<Rightarrow> ''error: '' @ e | None \<Rightarrow> SimulateButtonActionName k)"
  have "call PACKAGE_SIMULATE_BUTTON [VUint k, VInt n] s =
      (Inr (reply_text (package PACKAGE_SIMULATE_BUTTON_RESP (VString msg))), s')"
    by (rule call_reply [where f = "handle_simulate_button ops" and ps = "[SimulateButtonTarget, TInt ''int'' 64]"])
      (use assms sim in \<open>auto simp: request_types_def server_handles_def package_defs SimulateButtonTarget_def basic_value_def
        int_max_def int_min_def handle_simulate_button_def msg_def good_reply_def split: option.splits\<close>)
  then show ?thesis
    by (auto simp: cli_press_def sim reply_text_def package_def msg_def package_defs split: option.splits)
qed

lemma call_gadget: "call PACKAGE_GADGET [VString spec] s = cli_gadget ops spec s"
proof -
  obtain res s' where req: "RequestGadget_op ops spec s = (res, s')" by (metis surj_pair)
  define msg where "msg = (case res of Inl e \<Rightarrow> ''error: '' @ e | Inr g \<Rightarrow> g)"
  have "call PACKAGE_GADGET [VString spec] s = (Inr (reply_text (package PACKAGE_GADGET_RESP (VString msg))), s')"
    by (rule call_reply [where f = "handle_gadget ops" and ps = "[TString ''string'']"])
      (use req in \<open>auto simp: request_types_def server_handles_def package_defs basic_value_def
        handle_gadget_def msg_def good_reply_def split: sum.splits\<close>)
  then show ?thesis
    by (auto simp: cli_gadget_def req reply_text_def package_def msg_def package_defs split: sum.splits)
qed

lemma call_status: "call PACKAGE_STATUS [VString x] s = (Inr (''status: '' @ RequestStatus_op ops s), s)"
proof -
  have "call PACKAGE_STATUS [VString x] s = (Inr (reply_text (package PACKAGE_STATUS_RESP (VString (RequestStatus_op ops s)))), s)"
    by (rule call_reply [where f = "handle_status ops" and ps = "[TString ''string'']"])
      (auto simp: request_types_def server_handles_def package_defs basic_value_def handle_status_def good_reply_def)
  then show ?thesis by (simp add: reply_text_def package_def)
qed

lemma Atoi_bounds: "Atoi s = Some n \<Longrightarrow> int_min \<le> n \<and> n \<le> int_max"
  by (auto simp: Atoi_def Let_def split: prod.splits option.splits if_splits)

lemma meaning: "CallIPC lib call command args s = cli_spec ops command args s"
proof -
  consider (led) "TrimSpace command = ''led''" | (tap) "TrimSpace command = ''tap''"
    | (gadget) "TrimSpace command = ''gadget''" | (stat) "TrimSpace command = ''status''"
    | (none) "TrimSpace command \<notin> {''led'', ''tap'', ''gadget'', ''status''}" by blast
  then show ?thesis
  proof cases
    case led
    then show ?thesis
      by (auto simp: CallIPC_def cli_spec_def ipc_mapping_def build_payload_eq build_toggle_led_def arg_string_def
          cli_led_def call_led toggle_defs Let_def)
  next
    case tap
    then show ?thesis
      by (auto simp: CallIPC_def cli_spec_def ipc_mapping_def build_payload_eq build_tap_def arg_string_def
          cli_tap_def call_press button_defs Let_def int_min_def int_max_def split: option.splits dest!: Atoi_bounds)
  next
    case gadget
    then show ?thesis by (simp add: CallIPC_def cli_spec_def ipc_mapping_def build_payload_eq call_gadget)
  next
    case stat
    then show ?thesis by (simp add: CallIPC_def cli_spec_def ipc_mapping_def build_payload_eq call_status)
  next
    case none
    then show ?thesis by (simp add: CallIPC_def cli_spec_def ipc_mapping_def)
  qed
qed

end

interpretation stream: transport ops "stream_call lib ops" for ops lib
  by unfold_locales (rule stream_reply [OF request_wire])

lemma dbus_transport: "allow \<or> caller = Some own \<Longrightarrow> transport ops (dbus_call lib ops allow caller own)"
  by unfold_locales (rule dbus_reply)

interpretation bus_open: transport ops "dbus_call lib ops True caller own" for ops lib caller own
  by (rule dbus_transport) simp

section \<open>Every request is answered, not every answer is sent\<close>

lemma parse_data_typed:
  assumes "wire_types t = Some ps" "parse_data lib (metas_of ps) data = Inr vs"
  shows "list_all2 has_type vs ps"
proof -
  have "ps \<in> {[ToggleLEDTarget], [TBool ''bool''], [TString ''string''], [SimulateButtonTarget, TInt ''int'' 64]}"
    using assms(1) by (auto simp: wire_types_def split: if_splits)
  then have "list_all json_param ps" "\<not> list_ex struct_param ps"
    by (auto simp: json_param_def struct_param_def elem_type_def ToggleLEDTarget_def SimulateButtonTarget_def)
  with assms(2) metas_of_describes [OF assms(1)] show ?thesis
    by (auto simp: parse_data_def ParseJsonPayloadWithMetas_def split: option.splits if_splits dest: decode_args_typed [rotated])
qed

text \<open>No parameter of a package is a pointer or a function, so parsing never panics.\<close>

definition scalar_type :: "go_type \<Rightarrow> bool" where
  "scalar_type t = (case t of TBool _ \<Rightarrow> True | TString _ \<Rightarrow> True | TUint _ _ \<Rightarrow> True | TInt _ _ \<Rightarrow> True | _ \<Rightarrow> False)"

lemma decode_no_panic:
  assumes "describes m t" "scalar_type t" "decode_json_argv lib m raw = Inl e"
  shows "\<not> is_panic e"
proof -
  have m: "md_Type m = t" "md_FieldType m = FIELD_TYPE_CHECK"
    using assms(1,2) by (auto simp: describes_def scalar_type_def is_func_def split: if_splits go_type.splits)
  have "\<not> is_panic e'" if "ConvertJsonNumber lib x t = Inl e'" for x e'
    using that by (auto simp: ConvertJsonNumber_def Let_def split: go_type.splits option.splits if_splits)
  moreover have "decode_json_argv lib m raw = ConvertArgv lib m raw" "\<not> is_func t"
    using assms(2) m(1) by (auto simp: decode_json_argv_def scalar_type_def is_func_def split: go_type.splits)
  ultimately show ?thesis using assms(3) m
    by (auto simp: ConvertArgv_def split: if_splits json.splits option.splits sum.splits)
qed

lemma decode_args_no_panic:
  "list_all2 describes ms ts \<Longrightarrow> list_all scalar_type ts \<Longrightarrow> decode_args lib i ms raws = Inl e \<Longrightarrow> \<not> is_panic e"
  by (induction lib i ms raws arbitrary: ts rule: decode_args.induct)
    (auto simp: list_all2_Cons1 split: sum.splits dest: decode_no_panic)

lemma wire_scalar: "wire_types t = Some ps \<Longrightarrow> list_all scalar_type ps"
  by (auto simp: wire_types_def scalar_type_def ToggleLEDTarget_def SimulateButtonTarget_def split: if_splits)

lemma parse_no_panic:
  assumes "wire_types t = Some ps" "parse_data lib (metas_of ps) data = Inl e"
  shows "\<not> is_panic e"
  using assms(2) decode_args_no_panic [OF metas_of_describes [OF assms(1)] wire_scalar [OF assms(1)]]
  by (auto simp: parse_data_def ParseJsonPayloadWithMetas_def split: option.splits if_splits)

lemma has_type_scalar:
  "has_type v (TUint n w) \<Longrightarrow> \<exists>k. v = VUint k"
  "has_type v (TInt n w) \<Longrightarrow> \<exists>i. v = VInt i"
  "has_type v (TString n) \<Longrightarrow> \<exists>x. v = VString x"
  by (cases v; simp)+

lemma handlers_reply:
  assumes "server_handles ops t = Some f" "wire_types t = Some ps" "list_all2 has_type vs ps"
  shows "\<exists>r s'. f vs s = (PackageAndError (Some r) None, s') \<and> good_reply r"
proof -
  from assms consider k where "f = handle_toggle_led ops" "vs = [VUint k]"
    | k n where "f = handle_simulate_button ops" "vs = [VUint k, VInt n]"
    | x where "f = handle_gadget ops" "vs = [VString x]" | "f = handle_status ops"
    by (auto simp: server_handles_def wire_types_def package_defs ToggleLEDTarget_def SimulateButtonTarget_def
        list_all2_Cons2 split: if_splits dest!: has_type_scalar)
  then show ?thesis
    by cases (auto simp: handle_toggle_led_def handle_simulate_button_def handle_gadget_def handle_status_def good_reply_def Let_def
        split: prod.splits option.splits sum.splits)
qed

lemma server_handles_types: "server_handles ops t = Some f \<Longrightarrow> \<exists>ps. wire_types t = Some ps"
  by (auto simp: server_handles_def wire_types_def split: if_splits)

text \<open>The three ways a request ends on the server.\<close>

lemma server_request_cases:
  fixes lib :: ipc_lib and ops :: "'s daemon_ops"
  defines "run \<equiv> HandleRequest lib (fst (server_side lib ops)) (snd (server_side lib ops))"
  obtains (unhandled) r where "server_handles ops t = None \<or> wire_types t = None" "run t data s = (Inr (Some r), s)"
      "pkg_Type r \<in> {PACKAGE_INTERNAL_SERVER_ERROR, PACKAGE_INVALID_PAYLOAD}"
  | (invalid) ps e r where "wire_types t = Some ps" "parse_data lib (metas_of ps) data = Inl e" "run t data s = (Inr (Some r), s)"
      "pkg_Type r = PACKAGE_INVALID_PAYLOAD"
  | (handled) ps vs f r s' where "wire_types t = Some ps" "server_handles ops t = Some f"
      "parse_data lib (metas_of ps) data = Inr vs" "f vs s = (PackageAndError (Some r) None, s')"
      "run t data s = (Inr (Some r), s')" "good_reply r"
proof (cases "wire_types t")
  case None
  then have "run t data s = (Inr (Some (the (fst (server_fallback lib HANDLER_STATUS_PAYLOAD_STRUCT_NOT_FOUND None t data)))), s)"
    unfolding run_def by (simp add: server.request_unknown sides_fields use_fallback_def server_fallback_def)
  with None unhandled show thesis by (simp add: server_fallback_def package_def)
next
  case (Some ps)
  have st: "fst (server_side lib ops) t = Some (metas_of ps)" by (simp add: structs_both Some)
  show thesis
  proof (cases "parse_data lib (metas_of ps) data")
    case (Inl e)
    with parse_no_panic [OF Some Inl] st invalid [OF Some Inl] show thesis
      by (simp add: run_def HandleRequest_def GetPayloadStruct_def sides_fields use_fallback_def server_fallback_def package_def Let_def)
  next
    case (Inr vs)
    show thesis
    proof (cases "server_handles ops t")
      case None
      then have "handlers (snd (server_side lib ops)) t = None"
        by (auto simp: server_side_def InitServer_eq server_handles_def NewIPCFramework_def split: if_splits)
      with st Inr unhandled None show thesis
        by (simp add: run_def HandleRequest_def GetPayloadStruct_def GetHandler_def sides_fields use_fallback_def server_fallback_def
            package_def Let_def)
    next
      case f: (Some f)
      have typed: "list_all2 has_type vs ps" by (rule parse_data_typed [OF Some Inr])
      obtain r s' where r: "f vs s = (PackageAndError (Some r) None, s')" "good_reply r"
        using handlers_reply [OF f Some typed, of s] by blast
      have "run t data s = (Inr (Some r), s')"
        using st Inr server.handled [OF f Some, of lib] typed r(1)
        by (simp add: run_def HandleRequest_def GetPayloadStruct_def GetHandler_def sides_fields call_handler_def Let_def)
      with handled [OF Some f Inr r(1)] r(2) show thesis by blast
    qed
  qed
qed

definition sample_ipc_lib :: ipc_lib where
  "sample_ipc_lib = inject_lib.extend sample_lib \<lparr>raw_text = (\<lambda>d. []), error_text = (\<lambda>e. [])\<rparr>"

section \<open>Properties\<close>

text \<open>C11: A command does what it says, over the stream connection. For every command line, what the client prints
  and what becomes of the daemon is what the commands mean (\<open>cli_spec\<close>): typed payload
  building, encoding, checking, dispatch and the way back add no behaviour and lose none.\<close>

theorem ipc_refines_spec: "CallIPC lib (stream_call lib ops) command args s = cli_spec ops command args s"
  by (rule stream.meaning)

text \<open>C19: The two transports are interchangeable. For a caller that D-Bus access is open to, a command
  over D-Bus prints the same text and changes the daemon in the same way as over the stream connection.\<close>

theorem transports_agree:
  assumes "allow_other_user \<or> caller_uid = Some own_uid"
  shows "CallIPC lib (dbus_call lib ops allow_other_user caller_uid own_uid) command args s =
    CallIPC lib (stream_call lib ops) command args s"
  using transport.meaning [OF dbus_transport [OF assms]] stream.meaning by metis

theorem transports_agree_witness:
  "CallIPC sample_ipc_lib (dbus_call sample_ipc_lib nil_ops False (Some 0) 0) '' led'' [''OFF''] () = (Inr ''led: on'', ())"
proof -
  have "cli_spec nil_ops '' led'' [''OFF''] () = (Inr ''led: on'', ())" by code_simp
  then show ?thesis
    using transports_agree [of False "Some 0" 0 sample_ipc_lib nil_ops "'' led''" "[''OFF'']" "()"] by (simp add: stream.meaning)
qed

text \<open>Other users are kept out. Unless other users are allowed, a D-Bus request from a caller whose
  user the bus does not know or that is not the daemon's own user is refused before anything is
  decoded or handled, whatever it asks for.\<close>

theorem dbus_denies_others:
  assumes "caller_uid \<noteq> Some own_uid"
  shows "\<exists>e. e \<in> {CannotIdentifyCaller, AccessDenied (the caller_uid)} \<and>
    dbus_Request lib ops False caller_uid own_uid package_type payload_json s = (Inl e, s)"
  using assms by (cases caller_uid) (auto simp: dbus_Request_def split: prod.splits)

theorem dbus_denies_others_witness:
  "\<exists>e. e \<in> {CannotIdentifyCaller, AccessDenied 1000} \<and>
    dbus_Request sample_ipc_lib nil_ops False (Some 1000) 0 1024 (Some (JArr [JNum ''1''])) () = (Inl e, ())"
  using dbus_denies_others [of "Some 1000" 0 sample_ipc_lib nil_ops 1024 "Some (JArr [JNum ''1''])" "()"] by simp

text \<open>C18: No message breaks the server. Whatever type and whatever bytes a message has, handling it
  neither panics nor fails: it always yields a response package, and the daemon's state changes only
  when a registered handler took a payload of exactly its parameter types.\<close>

theorem server_always_responds:
  "\<exists>r s'. HandleRequest lib (fst (server_side lib ops)) (snd (server_side lib ops)) t data s = (Inr (Some r), s') \<and>
    (s' = s \<or> (\<exists>f ps vs. server_handles ops t = Some f \<and> wire_types t = Some ps \<and> list_all2 has_type vs ps \<and>
       s' = snd (f vs s)))"
proof (cases rule: server_request_cases [where lib = lib and ops = ops and t = t and data = data and s = s])
  case (handled ps vs f r s')
  with parse_data_typed [OF handled(1,3)] show ?thesis by force
qed blast+

text \<open>C20: Error responses are never sent. For an unknown package type, a package the daemon does not
  handle or a payload that does not parse, the server builds an error package, but that package's own type
  has no payload description, so sending it fails its check: nothing is written, and a client of the
  stream connection waits until it times out.\<close>

theorem error_replies_never_sent:
  assumes "0 < t"
    and "server_handles ops t = None \<or> (\<exists>ps e. wire_types t = Some ps \<and> parse_data lib (metas_of ps) data = Inl e)"
  shows "\<exists>r. HandleRequest lib (fst (server_side lib ops)) (snd (server_side lib ops)) t data s = (Inr (Some r), s) \<and>
      pkg_Type r \<in> {PACKAGE_INTERNAL_SERVER_ERROR, PACKAGE_INVALID_PAYLOAD} \<and>
      ipc_mainloop lib (fst (server_side lib ops)) (snd (server_side lib ops)) [(t, data)] s = ([], s)"
proof -
  obtain r where r: "HandleRequest lib (fst (server_side lib ops)) (snd (server_side lib ops)) t data s = (Inr (Some r), s)"
    "pkg_Type r \<in> {PACKAGE_INTERNAL_SERVER_ERROR, PACKAGE_INVALID_PAYLOAD}"
    using assms(2)
    by (cases rule: server_request_cases [where lib = lib and ops = ops and t = t and data = data and s = s]) auto
  then have "wire_types (pkg_Type r) = None" by (auto simp: wire_types_def package_defs)
  with r assms(1) show ?thesis by (simp add: server.send_unknown)
qed

theorem error_replies_never_sent_witness:
  "ipc_mainloop sample_ipc_lib (fst (server_side sample_ipc_lib nil_ops)) (snd (server_side sample_ipc_lib nil_ops))
     [(PACKAGE_TOGGLE_LED, Some (JArr [JNum ''1'', JNum ''3'']))] () = ([], ())"
proof -
  have "\<exists>e. parse_data sample_ipc_lib (metas_of [ToggleLEDTarget]) (Some (JArr [JNum ''1'', JNum ''3''])) = Inl e"
    by (simp add: parse_data_def ParseJsonPayloadWithMetas_def decode_raws_def metas_of_def)
  moreover have "wire_types PACKAGE_TOGGLE_LED = Some [ToggleLEDTarget]" by (simp add: wire_types_def package_defs)
  ultimately show ?thesis
    using error_replies_never_sent [of PACKAGE_TOGGLE_LED nil_ops sample_ipc_lib "Some (JArr [JNum ''1'', JNum ''3''])" "()"]
    by (auto simp: package_defs)
qed

text \<open>The listing does not depend on the order in which Go walks its map.\<close>

lemma listing_order_irrelevant:
  assumes "mset order = mset ipc_mapping"
  shows "ListCommands order = ListCommands ipc_mapping"
proof -
  have "inj_on desc_Name (set (map describe_command order))"
    using mset_eq_setD [OF assms] by (auto simp: inj_on_def ipc_mapping_def describe_command_def Let_def)
  moreover have "mset (map describe_command order) = mset (ListCommands ipc_mapping)"
    using assms by (simp add: ListCommands_def)
  ultimately show ?thesis
    unfolding ListCommands_def [of order] by (intro sort_key_inj_key_eq) (simp_all add: ListCommands_def)
qed

end
