(* ===== verification/Daemon_Ipc.thy ===== *)
theory Daemon_Ipc
  imports Daemon_Requests Daemon_Correct Ipc_Client
begin

text \<open>
  The daemon behind the control connection: its operations as the server calls them
  (\<open>daemonInterface\<close>), what a client may rely on of them, and what commands do to the daemon.

  \<open>RequestGadget\<close> posts a request and waits for the main loop; here the main loop's next step is to
  answer the waiting requests, so the call returns (\<open>RequestGadget_answered\<close>). When the main loop takes longer than five
  seconds the call gives up (\<open>RequestGadget_called\<close> with \<open>served\<close> false), and the request stays where it is.
\<close>

section \<open>The operations\<close>

definition gadget_error_text :: "gadget_error \<Rightarrow> string" where
  "gadget_error_text e =
     (case e of
        EmptyGadgetName spec \<Rightarrow> ''empty gadget name in `'' @ spec @ ''`''
      | InvalidSubmode spec \<Rightarrow> ''invalid submode in `'' @ spec @ ''`''
      | NoSuchGadget name \<Rightarrow> ''no gadget `'' @ name @ ''` in the configured sequence''
      | SubmodeTooLarge name submode m \<Rightarrow>
          ''gadget `'' @ name @ ''` has no submode '' @ Itoa submode @ '' (max '' @ Itoa m @ '')'')"

definition simulate_error_text :: "simulate_error \<Rightarrow> string" where
  "simulate_error_text e =
     (case e of
        CountTooSmall \<Rightarrow> ''multi-tap count must be >= 2''
      | CountTooLarge n m \<Rightarrow> ''multi-tap count '' @ Itoa n @ '' exceeds maximum '' @ Utoa m)"

definition simulate_target_of :: "nat \<Rightarrow> simulate_target" where
  "simulate_target_of k =
     (if k = BUTTON_TAP then SIMULATE_BUTTON_TAP
      else if k = BUTTON_LONG then SIMULATE_BUTTON_LONG
      else if k = BUTTON_SHUTDOWN then SIMULATE_BUTTON_SHUTDOWN
      else if k = BUTTON_MULTI then SIMULATE_BUTTON_MULTI
      else SIMULATE_BUTTON_OTHER k)"

definition RequestGadget_answered :: "string \<Rightarrow> daemon \<Rightarrow> (string, string) result \<times> daemon" where
  "RequestGadget_answered spec d =
     (case RequestGadget spec d of
        None \<Rightarrow> (Inl ''gadget request not accepted (daemon busy)'', d)
      | Some d1 \<Rightarrow>
          (let d2 = handle_gadget_requests d1; resp = last (gadget_resps d2) in
           (case resp_err resp of Some e \<Rightarrow> Inl (gadget_error_text e) | None \<Rightarrow> Inr (resp_gadget resp), d2)))"

text \<open>The whole of \<open>RequestGadget\<close>; \<open>served\<close> says whether the main loop answers in time.\<close>

definition RequestGadget_called :: "bool \<Rightarrow> string \<Rightarrow> daemon \<Rightarrow> (string, string) result \<times> daemon" where
  "RequestGadget_called served spec d =
     (if served then RequestGadget_answered spec d
      else (case RequestGadget spec d of
              None \<Rightarrow> (Inl ''gadget request not accepted (daemon busy)'', d)
            | Some d1 \<Rightarrow> (Inl ''gadget request timed out'', d1)))"

text \<open>A call that timed out is not undone: the next time the main loop serves the requests, the daemon comes to where the
  call would have brought it.\<close>

lemma timed_out_request_still_acts:
  assumes "length (gadget_reqs d) < 4"
  shows "handle_gadget_requests (snd (RequestGadget_called False spec d)) = snd (RequestGadget_called True spec d)"
  using assms by (simp add: RequestGadget_called_def RequestGadget_answered_def RequestGadget_def Let_def)

text \<open>The operations when the clock shows \<open>t\<close>.\<close>

definition daemon_ops_at :: "int \<Rightarrow> daemon daemon_ops" where
  "daemon_ops_at t =
     \<lparr>GetTurnOffLeds = turn_off_leds,
      SetTurnOffLeds_op = SetTurnOffLeds,
      SimulateButton_op = (\<lambda>k n d. case SimulateButton t (simulate_target_of k) n d of
        (err, d') \<Rightarrow> (map_option simulate_error_text err, d')),
      RequestGadget_op = RequestGadget_answered,
      RequestStatus_op = RequestStatus\<rparr>"

section \<open>What a client may rely on\<close>

locale daemon_interface =
  fixes ops :: "'s daemon_ops"
  assumes get_set: "GetTurnOffLeds ops (SetTurnOffLeds_op ops b s) = b"
    and read_back: "RequestGadget_op ops spec s = (Inr g, s') \<Longrightarrow> fst (RequestGadget_op ops [] s') = Inr g"
begin

lemma led_command:
  "state \<in> {''on'', ''true'', ''1''} \<Longrightarrow> cli_led ops state s = (Inr ''led: on'', SetTurnOffLeds_op ops False s)"
  "state \<in> {''off'', ''false'', ''0''} \<Longrightarrow> cli_led ops state s = (Inr ''led: off'', SetTurnOffLeds_op ops True s)"
  by (auto simp: cli_led_def get_set led_text_def)

lemma gadget_command:
  assumes "RequestGadget_op ops spec s = (Inr g, s')"
  shows "cli_gadget ops spec s = (Inr (''gadget: '' @ g), s')" "fst (cli_gadget ops [] s') = Inr (''gadget: '' @ g)"
  using assms read_back [OF assms] by (auto simp: cli_gadget_def split: prod.splits sum.splits)

end

lemma handle_requests_snoc:
  "handle_requests (specs @ [spec]) d =
    (case handle_gadget_request spec (handle_requests specs d) of
       (resp, d') \<Rightarrow> d'\<lparr>gadget_resps := gadget_resps d' @ [resp]\<rparr>)"
  by (induction specs arbitrary: d) (auto split: prod.splits)

lemma handle_gadget_request_reqs:
  "handle_gadget_request spec d = (resp, d') \<Longrightarrow> gadget_reqs d' = gadget_reqs d"
  by (auto simp: handle_gadget_request_def Let_def set_mode_submode_def set_current_mode_def
      split: if_splits sum.splits prod.splits option.splits)

lemma handle_requests_reqs: "gadget_reqs (handle_requests specs d) = gadget_reqs d"
  by (induction specs arbitrary: d) (auto split: prod.splits dest: handle_gadget_request_reqs)

lemma request_gives_current:
  assumes "handle_gadget_request spec d = (resp, d')" "resp_err resp = None"
  shows "resp_gadget resp = current_gadget_spec d'"
  using assms by (auto simp: handle_gadget_request_def Let_def split: if_splits sum.splits prod.splits option.splits)

lemma answered_current:
  assumes "RequestGadget_answered spec d = (Inr g, d')"
  shows "g = current_gadget_spec d' \<and> gadget_reqs d' = []"
proof -
  obtain d1 where d1: "RequestGadget spec d = Some d1" using assms by (auto simp: RequestGadget_answered_def split: option.splits)
  then have reqs: "gadget_reqs d1 = gadget_reqs d @ [spec]"
    by (auto simp: RequestGadget_def daemon_signal_wake_def split: if_splits)
  obtain resp d2 where last: "handle_gadget_request spec (handle_requests (gadget_reqs d) (d1\<lparr>gadget_reqs := []\<rparr>)) = (resp, d2)"
    by (metis surj_pair)
  then have all: "handle_gadget_requests d1 = d2\<lparr>gadget_resps := gadget_resps d2 @ [resp]\<rparr>"
    by (simp add: handle_gadget_requests_def reqs handle_requests_snoc)
  with assms d1 have "resp_err resp = None" "g = resp_gadget resp" "d' = d2\<lparr>gadget_resps := gadget_resps d2 @ [resp]\<rparr>"
    by (auto simp: RequestGadget_answered_def split: option.splits)
  moreover have "gadget_reqs d2 = []" using handle_gadget_request_reqs [OF last] by (simp add: handle_requests_reqs)
  ultimately show ?thesis using request_gives_current [OF last] by (simp add: current_gadget_spec_def)
qed

lemma answered_query: "gadget_reqs d = [] \<Longrightarrow> fst (RequestGadget_answered [] d) = Inr (current_gadget_spec d)"
  by (simp add: RequestGadget_answered_def RequestGadget_def daemon_signal_wake_def handle_gadget_requests_def
      handle_gadget_request_def current_gadget_spec_def TrimSpace_def)

interpretation daemon_ipc: daemon_interface "daemon_ops_at t" for t
proof unfold_locales
  show "GetTurnOffLeds (daemon_ops_at t) (SetTurnOffLeds_op (daemon_ops_at t) b s) = b" for b s
    by (simp add: daemon_ops_at_def SetTurnOffLeds_def)
next
  fix spec s g s'
  assume "RequestGadget_op (daemon_ops_at t) spec s = (Inr g, s')"
  then show "fst (RequestGadget_op (daemon_ops_at t) [] s') = Inr g"
    using answered_current [of spec s g s'] answered_query [of s'] by (simp add: daemon_ops_at_def)
qed

section \<open>Commands leave applies alone\<close>

lemma round_keeps_quiet: "wf_daemon d \<Longrightarrow> round_keeps d d' \<Longrightarrow> quiet d d'"
  by (simp add: round_keeps_def quiet_def)

lemma answered_quiet:
  assumes "wf_daemon d" "RequestGadget_answered spec d = (res, d')"
  shows "quiet d d'"
proof (cases "RequestGadget spec d")
  case None
  with assms show ?thesis by (simp add: RequestGadget_answered_def quiet_def)
next
  case (Some d1)
  then have "round_keeps d d1" using assms(1)
    by (auto simp: RequestGadget_def daemon_signal_wake_def split: if_splits intro!: round_keeps_flags round_keeps_refl)
  moreover from this have "round_keeps d1 (handle_gadget_requests d1)"
    by (intro handle_gadget_requests_keeps) (simp add: round_keeps_def)
  ultimately have "round_keeps d d'" using assms(2) Some round_keeps_trans by (auto simp: RequestGadget_answered_def Let_def)
  with assms(1) show ?thesis by (rule round_keeps_quiet)
qed

lemma leds_quiet: "quiet d (SetTurnOffLeds off d)"
  by (simp add: SetTurnOffLeds_def quiet_def)

lemma press_quiet: "quiet d (snd (cli_press (daemon_ops_at t) k n d))"
proof -
  obtain err d' where "SimulateButton t (simulate_target_of k) n d = (err, d')" by (metis surj_pair)
  with simulate_quiet [OF this] show ?thesis by (auto simp: cli_press_def daemon_ops_at_def split: option.splits)
qed

lemma quiet_refl [simp]: "quiet d d"
  by (simp add: quiet_def)

lemma spec_quiet:
  assumes "wf_daemon d"
  shows "quiet d (snd (cli_spec (daemon_ops_at t) command args d))"
proof -
  have "quiet d (snd (cli_led (daemon_ops_at t) x d))" for x
    using leds_quiet by (simp add: cli_led_def daemon_ops_at_def Let_def)
  moreover have "quiet d (snd (cli_tap (daemon_ops_at t) x y d))" for x y
    using press_quiet by (simp add: cli_tap_def split: option.splits)
  moreover have "quiet d (snd (cli_gadget (daemon_ops_at t) x d))" for x
    using answered_quiet [OF assms] by (auto simp: cli_gadget_def daemon_ops_at_def split: prod.splits sum.splits)
  ultimately show ?thesis by (simp add: cli_spec_def Let_def)
qed

section \<open>Properties\<close>

text \<open>C22: What is switched to is what is reported. When \<open>ipc gadget spec\<close> prints a gadget and not an
  error, asking again with \<open>ipc gadget\<close> prints the same one, whatever other requests were waiting, and it is
  the daemon's current mode and submode.\<close>

theorem gadget_command_reads_back:
  assumes "CallIPC lib (stream_call lib (daemon_ops_at t)) ''gadget'' [spec] d = (Inr (''gadget: '' @ g), d')"
    and "\<not> HasPrefix g ''error: ''"
  shows "fst (CallIPC lib (stream_call lib (daemon_ops_at t)) ''gadget'' [] d') = Inr (''gadget: '' @ g)
    \<and> g = current_gadget_spec d'"
proof -
  have trim: "TrimSpace ''gadget'' = ''gadget''" by code_simp
  have cli: "CallIPC lib (stream_call lib (daemon_ops_at t)) ''gadget'' args x = cli_gadget (daemon_ops_at t) (TrimSpace (cli_arg 0 args)) x"
    for args x
    by (simp add: stream.meaning cli_spec_def trim)
  obtain res d1 where req: "RequestGadget_op (daemon_ops_at t) (TrimSpace spec) d = (res, d1)" by (metis surj_pair)
  have "cli_gadget (daemon_ops_at t) (TrimSpace spec) d = (Inr (''gadget: '' @ g), d')"
    using assms(1) by (simp add: cli cli_arg_def)
  with req assms(2) have req': "RequestGadget_op (daemon_ops_at t) (TrimSpace spec) d = (Inr g, d')"
    by (auto simp: cli_gadget_def HasPrefix_def split: sum.splits)
  have "RequestGadget_answered (TrimSpace spec) d = (Inr g, d')" using req' by (simp add: daemon_ops_at_def)
  from answered_current [OF this] daemon_ipc.gadget_command(2) [OF req'] show ?thesis
    by (simp add: cli cli_arg_def TrimSpace_def)
qed

theorem gadget_command_reads_back_witness:
  "fst (CallIPC sample_ipc_lib (stream_call sample_ipc_lib (daemon_ops_at 7)) ''gadget'' []
     (snd (cli_gadget (daemon_ops_at 7) ''rndis.0'' sample_daemon))) = Inr ''gadget: rndis.0''"
proof -
  let ?d = "snd (cli_gadget (daemon_ops_at 7) ''rndis.0'' sample_daemon)"
  have "cli_spec (daemon_ops_at 7) ''gadget'' [''rndis.0''] sample_daemon = cli_gadget (daemon_ops_at 7) ''rndis.0'' sample_daemon"
    by code_simp
  moreover have "fst (cli_gadget (daemon_ops_at 7) ''rndis.0'' sample_daemon) = Inr (''gadget: '' @ ''rndis.0'')" by code_simp
  ultimately have run: "CallIPC sample_ipc_lib (stream_call sample_ipc_lib (daemon_ops_at 7)) ''gadget'' [''rndis.0''] sample_daemon =
      (Inr (''gadget: '' @ ''rndis.0''), ?d)"
    by (simp only: stream.meaning) (metis prod.collapse)
  have "\<not> HasPrefix ''rndis.0'' ''error: ''" by code_simp
  from gadget_command_reads_back [OF run this] show ?thesis by simp
qed

text \<open>C21: Commands never disturb an apply. Whatever command line a client sends, a well-formed daemon stays
  well-formed with the same configured functions, and the controller, the apply in flight and its
  target are untouched: a command only records wishes for the main loop.\<close>

theorem commands_leave_applies_alone:
  assumes "wf_daemon d" and "CallIPC lib (stream_call lib (daemon_ops_at t)) command args d = (res, d')"
  shows "wf_daemon d' \<and> map GetName (modes d') = map GetName (modes d) \<and> controller d' = controller d
    \<and> mode_changing d' = mode_changing d \<and> pending_apply d' = pending_apply d \<and> pending_enable d' = pending_enable d
    \<and> rebind_chan d' = rebind_chan d"
proof -
  have "quiet d d'" using spec_quiet [OF assms(1), of t command args] assms(2) by (simp add: stream.meaning)
  moreover have "map GetName ms = map (fst \<circ> fst) (shape ms)" for ms by (simp add: shape_def fn_ident_def)
  ultimately show ?thesis using assms(1) by (simp add: quiet_def)
qed

theorem commands_leave_applies_alone_witness:
  "wf_daemon (snd (CallIPC sample_ipc_lib (stream_call sample_ipc_lib (daemon_ops_at 7)) ''tap'' [''multi'', ''3''] sample_daemon))"
  using commands_leave_applies_alone [OF sample_daemon_wf, of sample_ipc_lib 7 "''tap''" "[''multi'', ''3'']"]
  by (cases "CallIPC sample_ipc_lib (stream_call sample_ipc_lib (daemon_ops_at 7)) ''tap'' [''multi'', ''3''] sample_daemon") simp

end
