(* ===== verification/Cli.thy ===== *)
theory Cli
  imports Daemon_Ipc
begin

text \<open>
  The processes around the components: \<open>main\<close> of \<open>cmd/cli.go\<close> with its exit statuses, the client's way to
  a connection (\<open>InitIPCClient\<close> of both transports) and the daemon's loop that keeps the
  stream server up (\<open>run_ipc_server\<close>). What the connection library answers, the clock and the time a
  sleep takes beyond what was asked are arguments. Times are in nanoseconds.
\<close>

section \<open>The client's connection\<close>

datatype connect_error = CannotConnect | CannotStart ipc_error | ConnectTimedOut

definition poll_pause :: int where
  "poll_pause = 20000000"

text \<open>
  The loop that waits for the connection: \<open>connected\<close> is its status by time, \<open>lag t\<close> what the sleep begun at
  \<open>t\<close> takes beyond its 20 ms. The result says whether it is connected, and when the loop ended.
\<close>

function wait_connected :: "(int \<Rightarrow> bool) \<Rightarrow> (int \<Rightarrow> nat) \<Rightarrow> int \<Rightarrow> int \<Rightarrow> bool \<times> int" where
  "wait_connected connected lag deadline t0 =
     (if connected t0 then (True, t0)
      else if deadline < t0 then (False, t0)
      else wait_connected connected lag deadline (t0 + poll_pause + int (lag t0)))"
  by auto

termination
  by (relation "measure (\<lambda>(_, _, deadline, t0). nat (deadline + 1 - t0))") (auto simp: poll_pause_def)

declare wait_connected.simps [simp del]

text \<open>\<open>InitIPCClient\<close> of \<open>transport_ipc.go\<close>; \<open>dialled\<close> says whether \<open>StartClient\<close> succeeds.\<close>

definition InitIPCClient ::
  "ipc_lib \<Rightarrow> bool \<Rightarrow> (int \<Rightarrow> bool) \<Rightarrow> (int \<Rightarrow> nat) \<Rightarrow> int \<Rightarrow> int \<Rightarrow>
     (connect_error, structs \<times> responses ipc_framework) result" where
  "InitIPCClient lib dialled connected lag connect_timeout t0 =
     (let (structs, framework) = client_side lib in
      if \<not> dialled then Inl CannotConnect
      else
        (case ipc_Start framework of
           Inl e \<Rightarrow> Inl (CannotStart e)
         | Inr framework \<Rightarrow>
             if fst (wait_connected connected lag (t0 + connect_timeout) t0) then Inr (structs, framework)
             else Inl ConnectTimedOut))"

text \<open>\<open>InitIPCClient\<close> of \<open>transport_dbus.go\<close>; \<open>bus\<close> says whether \<open>ConnectSystemBus\<close> succeeds.\<close>

definition InitIPCClient_dbus :: "bool \<Rightarrow> (connect_error, unit) result" where
  "InitIPCClient_dbus bus = (if bus then Inr () else Inl CannotConnect)"

text \<open>The \<open>select\<close> in \<open>Call\<close>: a response that is \<open>overdue\<close> is not waited for.\<close>

definition with_timeout ::
  "bool \<Rightarrow> (int \<Rightarrow> go_value list \<Rightarrow> 's \<Rightarrow> (call_error, string) result \<times> 's) \<Rightarrow>
     int \<Rightarrow> go_value list \<Rightarrow> 's \<Rightarrow> (call_error, string) result \<times> 's" where
  "with_timeout overdue call package_type payload s =
     (case call package_type payload s of
        (Inr response, s) \<Rightarrow> (if overdue then Inl TimedOut else Inr response, s)
      | (Inl e, s) \<Rightarrow> (Inl e, s))"

section \<open>The daemon's stream server\<close>

text \<open>One pass of the loop: the server cannot be started, or it serves these messages until it is disconnected.\<close>

datatype session = ServerStartFailed | Session "(int \<times> json option) list"

definition init_ipc :: structs where
  "init_ipc = fst (InitClient Map.empty :: structs \<times> responses ipc_framework)"

text \<open>
  \<open>run_ipc_server\<close> over the passes its surroundings give it, each with whether the daemon is stopped before the
  second after it is over: whether the loop has returned, the replies of each session, and the state.
\<close>

fun run_ipc_server ::
  "ipc_lib \<Rightarrow> 's daemon_ops \<Rightarrow> structs \<Rightarrow> (session \<times> bool) list \<Rightarrow> 's \<Rightarrow> bool \<times> (int \<times> json option) list list \<times> 's" where
  "run_ipc_server lib ops structs [] s = (False, [], s)"
| "run_ipc_server lib ops structs ((session, is_stopped) # rounds) s =
     (let (structs, replies, s) =
        (case session of
           ServerStartFailed \<Rightarrow> (structs, [], s)
         | Session msgs \<Rightarrow>
             (let (structs, framework) = InitServer lib ops structs in
              case ipc_Start framework of
                Inl _ \<Rightarrow> (structs, [], s)
              | Inr framework \<Rightarrow>
                  (case ipc_mainloop lib structs framework msgs s of (out, s) \<Rightarrow> (structs, [out], s)))) in
      if is_stopped then (True, replies, s)
      else (case run_ipc_server lib ops structs rounds s of
              (returned, more_replies, s) \<Rightarrow> (returned, replies @ more_replies, s)))"

section \<open>The program\<close>

record ipc_cmd =
  ic_Command :: string
  ic_ConnectTimeout :: int
  ic_List :: bool
  ic_Args :: "string list"

record cli_args =
  args_Daemon :: "daemon_cmd option"
  args_Version :: bool
  args_IPC :: "ipc_cmd option"

record build_info =
  CommitHash :: string
  BuildTime :: string

text \<open>The \<open>ipc\<close> subcommand, over the client \<open>InitIPCClient\<close> gave and its \<open>Call\<close>: exit status, what is printed, and the daemon.\<close>

definition main_ipc ::
  "ipc_lib \<Rightarrow> (string \<times> int) list \<Rightarrow> (connect_error, 'c) result \<Rightarrow>
     (int \<Rightarrow> go_value list \<Rightarrow> 's \<Rightarrow> (call_error, string) result \<times> 's) \<Rightarrow> ipc_cmd \<Rightarrow> 's \<Rightarrow> nat \<times> string \<times> 's" where
  "main_ipc lib order client call cmd s =
     (if ic_List cmd then (0, ListCommandsString order, s)
      else
        (case client of
           Inl _ \<Rightarrow> (65, [], s)
         | Inr _ \<Rightarrow>
             (case CallIPC lib call (ic_Command cmd) (ic_Args cmd) s of
                (Inl _, s) \<Rightarrow> (66, [], s)
              | (Inr msg, s) \<Rightarrow> (0, msg @ newline, s))))"

text \<open>The \<open>daemon\<close> subcommand up to \<open>Mainloop\<close>; \<open>locked\<close> says whether \<open>SchedSetaffinity\<close> succeeds.\<close>

definition main_daemon :: "bool \<Rightarrow> platform \<Rightarrow> daemon_cmd \<Rightarrow> (nat, daemon) result io" where
  "main_daemon locked plat cmd =
     (if \<not> locked then return (Inl 1)
      else do {
        d \<leftarrow> NewDaemon plat cmd;
        case d of Inl _ \<Rightarrow> return (Inl 2) | Inr d \<Rightarrow> return (Inr d)
      })"

datatype dispatch = RunVersion string | RunIPC ipc_cmd | RunDaemon daemon_cmd | RunHelp nat

definition main_dispatch :: "build_info \<Rightarrow> cli_args \<Rightarrow> dispatch" where
  "main_dispatch info args =
     (if args_Version args
      then RunVersion (''Version: '' @ CommitHash info @ newline @ ''Built: '' @ BuildTime info @ newline)
      else (case args_IPC args of
              Some cmd \<Rightarrow> RunIPC cmd
            | None \<Rightarrow> (case args_Daemon args of Some cmd \<Rightarrow> RunDaemon cmd | None \<Rightarrow> RunHelp 127)))"

section \<open>Waiting\<close>

lemma wait_connected_at_once: "connected t0 \<Longrightarrow> wait_connected connected lag deadline t0 = (True, t0)"
  by (subst wait_connected.simps) simp

lemma wait_connected_result:
  "wait_connected connected lag deadline t0 = (b, t) \<Longrightarrow>
    connected t = b \<and> (b \<or> deadline < t) \<and> t0 \<le> t"
proof (induction connected lag deadline t0 rule: wait_connected.induct)
  case (1 connected lag deadline t0)
  then show ?case
    by (subst (asm) wait_connected.simps) (fastforce simp: poll_pause_def split: if_splits)
qed

lemma wait_connected_end:
  assumes "\<And>t. lag t \<le> L" and "wait_connected connected lag deadline t0 = (b, t)"
  shows "t \<le> max t0 (deadline + poll_pause + int L)"
  using assms
proof (induction connected lag deadline t0 rule: wait_connected.induct)
  case (1 connected lag deadline t0)
  show ?case
  proof (cases "connected t0 \<or> deadline < t0")
    case True
    with "1.prems"(2) show ?thesis by (subst (asm) wait_connected.simps) (auto split: if_splits)
  next
    case False
    with "1.prems"(2) have "wait_connected connected lag deadline (t0 + poll_pause + int (lag t0)) = (b, t)"
      by (subst (asm) wait_connected.simps) simp
    with "1.IH" False "1.prems"(1) have "t \<le> max (t0 + poll_pause + int (lag t0)) (deadline + poll_pause + int L)" by blast
    moreover have "int (lag t0) \<le> int L" using "1.prems"(1) by simp
    ultimately show ?thesis using False by linarith
  qed
qed

lemma wait_connected_notices:
  assumes "\<And>t. lag t \<le> L" and "\<And>t. c \<le> t \<Longrightarrow> connected t" and "c \<le> deadline"
    and "wait_connected connected lag deadline t0 = (b, t)"
  shows "b \<and> t \<le> max t0 (c + poll_pause + int L)"
  using assms
proof (induction connected lag deadline t0 rule: wait_connected.induct)
  case (1 connected lag deadline t0)
  show ?case
  proof (cases "connected t0")
    case True
    with "1.prems"(4) show ?thesis by (subst (asm) wait_connected.simps) auto
  next
    case False
    with "1.prems"(2) have "t0 < c" by (meson not_le)
    with False "1.prems"(3,4) have "wait_connected connected lag deadline (t0 + poll_pause + int (lag t0)) = (b, t)"
      by (subst (asm) wait_connected.simps) simp
    with "1.IH" False "1.prems"(1-3) \<open>t0 < c\<close>
    have "b \<and> t \<le> max (t0 + poll_pause + int (lag t0)) (c + poll_pause + int L)" by auto
    moreover have "int (lag t0) \<le> int L" using "1.prems"(1) by simp
    ultimately show ?thesis using \<open>t0 < c\<close> by linarith
  qed
qed

section \<open>Sessions\<close>

text \<open>Restarting the server registers the same payloads again, so every session finds the tables of the first.\<close>

lemma server_again: "InitServer lib ops (fst (server_side lib ops)) = server_side lib ops"
  by (simp add: server_side_def InitServer_eq)

lemma start_new: "ipc_Start (snd (InitServer lib ops structs)) = Inr ((snd (InitServer lib ops structs))\<lparr>running := True\<rparr>)"
  by (simp add: ipc_Start_def InitServer_eq NewIPCFramework_def)

lemma HandleRequest_running: "HandleRequest lib structs (fw\<lparr>running := b\<rparr>) t x s = HandleRequest lib structs fw t x s"
  by (cases fw, hypsubst)
    (unfold HandleRequest_def GetHandler_def ipc_framework.select_convs ipc_framework.update_convs, rule refl)

lemma mainloop_running: "ipc_mainloop lib structs (fw\<lparr>running := b\<rparr>) msgs s = ipc_mainloop lib structs fw msgs s"
  by (induction lib structs fw msgs s rule: ipc_mainloop.induct)
    (auto simp: HandleRequest_running split: prod.splits sum.splits option.splits)

text \<open>What the sessions amount to: each is served by the server as it is first set up.\<close>

fun serve_sessions :: "ipc_lib \<Rightarrow> 's daemon_ops \<Rightarrow> session list \<Rightarrow> 's \<Rightarrow> (int \<times> json option) list list \<times> 's" where
  "serve_sessions lib ops [] s = ([], s)"
| "serve_sessions lib ops (ServerStartFailed # ss) s = serve_sessions lib ops ss s"
| "serve_sessions lib ops (Session msgs # ss) s =
     (case ipc_mainloop lib (fst (server_side lib ops)) (snd (server_side lib ops)) msgs s of
        (out, s) \<Rightarrow> (case serve_sessions lib ops ss s of (outs, s) \<Rightarrow> (out # outs, s)))"

lemma run_ipc_server_serves:
  assumes "structs = init_ipc \<or> structs = fst (server_side lib ops)"
  shows "run_ipc_server lib ops structs (map (\<lambda>r. (r, False)) rs @ (r, True) # rounds) s =
    (case serve_sessions lib ops (rs @ [r]) s of (outs, s) \<Rightarrow> (True, outs, s))"
  using assms
proof (induction rs arbitrary: structs s)
  have init: "InitServer lib ops st = server_side lib ops" if "st = init_ipc \<or> st = fst (server_side lib ops)" for st
    using that server_again by (auto simp: server_side_def init_ipc_def)
  obtain st fw where side: "server_side lib ops = (st, fw)" by (metis surj_pair)
  have start: "ipc_Start fw = Inr (fw\<lparr>running := True\<rparr>)"
    using start_new [of lib ops "init_ipc"] by (simp add: init side)
  note step = init side start mainloop_running
  {
    case Nil
    then show ?case by (cases r) (simp_all add: step split: prod.splits)
  next
    case (Cons q rs)
    show ?case
    proof (cases q)
      case ServerStartFailed
      then show ?thesis using Cons.IH [OF Cons.prems] by (simp split: prod.splits)
    next
      case (Session msgs)
      obtain out s' where "ipc_mainloop lib st fw msgs s = (out, s')" by (metis surj_pair)
      with Session Cons.IH [of st s'] Cons.prems show ?thesis by (simp add: step split: prod.splits)
    qed
  }
qed

section \<open>Commands that fail\<close>

lemma call_timeout:
  "CallIPC lib (with_timeout overdue call) command args s =
    (case CallIPC lib call command args s of
       (Inr msg, s') \<Rightarrow> if map_of ipc_mapping (TrimSpace command) \<noteq> None \<and> overdue then (Inl TimedOut, s') else (Inr msg, s')
     | (Inl e, s') \<Rightarrow> (Inl e, s'))"
  by (auto simp: CallIPC_def with_timeout_def Let_def split: option.splits sum.splits prod.splits)

lemma answered_is_known: "cli_spec ops command args s = (Inr msg, s') \<Longrightarrow> map_of ipc_mapping (TrimSpace command) \<noteq> None"
  by (auto simp: cli_spec_def ipc_mapping_def Let_def split: if_splits)

lemma refused_unchanged: "cli_spec ops command args s = (Inl e, s') \<Longrightarrow> s' = s"
  by (auto simp: cli_spec_def cli_led_def cli_tap_def cli_press_def cli_gadget_def Let_def
      split: if_splits option.splits prod.splits sum.splits)

section \<open>Properties\<close>



text \<open>C23: The exit status of \<open>ipc\<close>. Without a connection it is 65 and nothing is done. Otherwise, when the command
  means something, the daemon does exactly what it means; the status is 0 and the daemon's answer is
  printed, unless the answer came too late, which gives 66. A command that means nothing gives 66, prints nothing
  and leaves the daemon as it was.\<close>

theorem cli_exit_status:
  assumes "\<not> ic_List cmd"
  shows "main_ipc lib order (InitIPCClient lib dialled connected lag (ic_ConnectTimeout cmd) t0)
      (with_timeout overdue (stream_call lib ops)) cmd s =
    (if dialled \<and> fst (wait_connected connected lag (t0 + ic_ConnectTimeout cmd) t0) then
       (case cli_spec ops (ic_Command cmd) (ic_Args cmd) s of
          (Inl e, _) \<Rightarrow> (66, [], s)
        | (Inr msg, s') \<Rightarrow> if overdue then (66, [], s') else (0, msg @ newline, s'))
     else (65, [], s))"
proof -
  obtain st fw where side: "client_side lib = (st, fw)" by (metis surj_pair)
  have "running fw = False" using side by (auto simp: client_side_def InitClient_eq NewIPCFramework_def)
  then have client: "isl (InitIPCClient lib dialled connected lag (ic_ConnectTimeout cmd) t0) \<longleftrightarrow>
      \<not> (dialled \<and> fst (wait_connected connected lag (t0 + ic_ConnectTimeout cmd) t0))"
    by (simp add: InitIPCClient_def side ipc_Start_def)
  show ?thesis
    using assms client
    by (auto simp: main_ipc_def call_timeout stream.meaning split: sum.splits prod.splits
        dest: answered_is_known refused_unchanged)
qed

theorem cli_exit_status_witness:
  "main_ipc sample_ipc_lib ipc_mapping
     (InitIPCClient sample_ipc_lib True (\<lambda>_. True) (\<lambda>_. 0) 5000000000 0)
     (with_timeout False (stream_call sample_ipc_lib (daemon_ops_at 0)))
     \<lparr>ic_Command = ''led'', ic_ConnectTimeout = 5000000000, ic_List = False, ic_Args = [''sideways'']\<rparr> sample_daemon =
   (66, [], sample_daemon)"
proof -
  have trim: "TrimSpace ''led'' = ''led''" "ToLower (TrimSpace (cli_arg 0 [''sideways''])) = ''sideways''"
    by code_simp+
  have "cli_spec (daemon_ops_at 0) ''led'' [''sideways''] sample_daemon = (Inl (InvalidLedState ''sideways''), sample_daemon)"
    unfolding cli_spec_def trim Let_def by (simp add: cli_led_def)
  with cli_exit_status [of "\<lparr>ic_Command = ''led'', ic_ConnectTimeout = 5000000000, ic_List = False, ic_Args = [''sideways'']\<rparr>"
      sample_ipc_lib ipc_mapping True "\<lambda>_. True" "\<lambda>_. 0" 0 False "daemon_ops_at 0" sample_daemon]
  show ?thesis by (simp add: wait_connected_at_once)
qed

end
