(* ===== verification/Dbus_Service.thy ===== *)
theory Dbus_Service
  imports File_Model Netip
begin

text \<open>
  \<open>core/daemon/transport_dbus.go\<close> without the request handler: installing the bus policy
  (\<open>ensure_dbus_policy\<close>) and bringing the service up (\<open>serve_dbus\<close>, up to the wait for the stop
  signal). The bus answers through the world.
\<close>

section \<open>Constants\<close>

definition DBUS_OBJECT_PATH :: string where
  "DBUS_OBJECT_PATH = ''/io/github/lovemilk2333/wifi_stick_usb_switcher/go/Control''"

definition DBUS_INTERFACE :: string where
  "DBUS_INTERFACE = ''io.github.lovemilk2333.wifi_stick_usb_switcher.go.Control''"

definition DBUS_BUS_NAME :: string where
  "DBUS_BUS_NAME = ''io.github.lovemilk2333.wifi-stick-usb-switcher.go''"

definition DBUS_POLICY_PATH :: string where
  "DBUS_POLICY_PATH = ''/etc/dbus-1/system.d/io.github.lovemilk2333.wifi-stick-usb-switcher.go.conf''"

text \<open>The embedded file.\<close>

definition dbus_policy :: string where
  \<open>dbus_policy = concat (map (\<lambda>l. l @ [char_of (10 :: nat)])
    [''<!DOCTYPE busconfig PUBLIC'',
     '' "-//freedesktop//DTD D-BUS Bus Configuration 1.0//EN"'',
     '' "http://www.freedesktop.org/standards/dbus/1.0/busconfig.dtd">'',
     ''<busconfig>'',
     ''  <policy user="root">'',
     ''    <allow own="io.github.lovemilk2333.wifi-stick-usb-switcher.go"/>'',
     ''  </policy>'',
     '''',
     ''  <policy context="default">'',
     ''    <allow send_destination="io.github.lovemilk2333.wifi-stick-usb-switcher.go"'',
     ''           send_interface="io.github.lovemilk2333.wifi_stick_usb_switcher.go.Control"/>'',
     ''    <allow receive_sender="io.github.lovemilk2333.wifi-stick-usb-switcher.go"/>'',
     ''  </policy>'',
     ''</busconfig>''])\<close>

definition expected_rule :: string where
  \<open>expected_rule = ''<allow own="'' @ DBUS_BUS_NAME @ ''"/>''\<close>

section \<open>The policy\<close>

text \<open>\<open>filepath.Dir\<close> of a clean path.\<close>

definition path_Dir :: "string \<Rightarrow> string" where
  "path_Dir p = (case last_slash p of None \<Rightarrow> ''.'' | Some (d, _) \<Rightarrow> if d = [] then ''/'' else d)"

datatype policy_error = PolicyIO oserr

definition io_error :: "os_reply \<Rightarrow> policy_error" where
  "io_error r = PolicyIO (case r of Fail e \<Rightarrow> e | Done _ \<Rightarrow> OtherErr)"

text \<open>The steps on the open temporary file; a failed one closes it. Closing twice is not done.\<close>

definition fill_temporary :: "string \<Rightarrow> string \<Rightarrow> string \<Rightarrow> (policy_error, unit) result io" where
  "fill_temporary policy tmp path = do {
     r \<leftarrow> sys (FileChmod tmp 420);
     if \<not> ok r then do { _ \<leftarrow> sys (FileClose tmp); return (Inl (io_error r)) }
     else do {
       r \<leftarrow> sys (FileWriteString tmp policy);
       if \<not> ok r then do { _ \<leftarrow> sys (FileClose tmp); return (Inl (io_error r)) }
       else do {
         r \<leftarrow> sys (FileSync tmp);
         if \<not> ok r then do { _ \<leftarrow> sys (FileClose tmp); return (Inl (io_error r)) }
         else do {
           r \<leftarrow> sys (FileClose tmp);
           if \<not> ok r then return (Inl (io_error r))
           else do {
             r \<leftarrow> sys (Rename tmp path);
             return (if \<not> ok r then Inl (io_error r) else Inr ())
           }
         }
       }
     }
   }"

text \<open>\<open>Inr changed\<close>; the deferred \<open>Remove\<close> runs on every way out once the temporary file exists.\<close>

definition ensure_dbus_policy :: "string \<Rightarrow> (policy_error, bool) result io" where
  "ensure_dbus_policy path = do {
     existing \<leftarrow> sys (ReadFile path);
     if ok existing \<and> Contains (data existing) expected_rule then return (Inr False)
     else if \<not> ok existing \<and> existing \<noteq> Fail NotExist then return (Inl (io_error existing))
     else do {
       let directory = path_Dir path;
       r \<leftarrow> sys (MkdirAll directory);
       if \<not> ok r then return (Inl (io_error r))
       else do {
         temporary \<leftarrow> sys (CreateTemp directory ''.wifi-stick-dbus-policy-*'');
         if \<not> ok temporary then return (Inl (io_error temporary))
         else do {
           let temporary_path = data temporary;
           res \<leftarrow> fill_temporary dbus_policy temporary_path path;
           _ \<leftarrow> sys (Remove temporary_path);
           return (case res of Inl e \<Rightarrow> Inl e | Inr _ \<Rightarrow> Inr True)
         }
       }
     }
   }"

section \<open>The service\<close>

datatype serve_error =
    PolicyFailed policy_error
  | ConnectFailed
  | ReloadFailed
  | RequestNameFailed
  | NameTaken
  | ExportFailed

text \<open>
  \<open>serve_dbus\<close> up to \<open><-this.stop_chan\<close>: \<open>Inr ()\<close> means that it serves. The reply to \<open>RequestName\<close> is \<open>''1''\<close>
  for the primary owner. The deferred \<open>Close\<close> of the connection runs on every later way out.
\<close>

definition serve_on_connection :: "bool \<Rightarrow> (serve_error, unit) result io" where
  "serve_on_connection policy_changed = do {
     reload \<leftarrow> (if policy_changed then sys DbusReloadConfig else return (Done []));
     if \<not> ok reload then return (Inl ReloadFailed)
     else do {
       reply \<leftarrow> sys (DbusRequestName DBUS_BUS_NAME);
       if \<not> ok reply then return (Inl RequestNameFailed)
       else if data reply \<noteq> ''1'' then return (Inl NameTaken)
       else do {
         r \<leftarrow> sys (DbusExport DBUS_OBJECT_PATH DBUS_INTERFACE);
         return (if \<not> ok r then Inl ExportFailed else Inr ())
       }
     }
   }"

definition serve_dbus :: "(serve_error, unit) result io" where
  "serve_dbus = do {
     policy_changed \<leftarrow> ensure_dbus_policy DBUS_POLICY_PATH;
     (case policy_changed of
        Inl e \<Rightarrow> return (Inl (PolicyFailed e))
      | Inr changed \<Rightarrow> do {
          connection \<leftarrow> sys DbusConnectSystemBus;
          if \<not> ok connection then return (Inl ConnectFailed)
          else do {
            res \<leftarrow> serve_on_connection changed;
            (case res of
               Inl e \<Rightarrow> do { _ \<leftarrow> sys DbusClose; return (Inl e) }
             | Inr _ \<Rightarrow> return (Inr ()))
          }
        })
   }"

text \<open>
  \<open>run_ipc_server\<close>, over whether the daemon is stopped before the second after each failed attempt is over; the
  result says whether the loop has returned. An attempt that serves does so until the daemon is stopped, closes
  the connection and is the last one.
\<close>

fun run_ipc_server_dbus :: "bool list \<Rightarrow> bool io" where
  "run_ipc_server_dbus [] = return False"
| "run_ipc_server_dbus (is_stopped # rounds) = do {
     served \<leftarrow> serve_dbus;
     (case served of
        Inr _ \<Rightarrow> do { _ \<leftarrow> sys DbusClose; return True }
      | Inl _ \<Rightarrow>
          if is_stopped then return True
          else do { _ \<leftarrow> sys (Sleep 1000000000); run_ipc_server_dbus rounds })
   }"

section \<open>On a machine whose files behave\<close>

definition fs_at :: "fs \<Rightarrow> os_call list \<Rightarrow> int \<Rightarrow> world" where
  "fs_at F tr t = \<lparr>env = fs_env F, clock = t, trace = tr, fuel = 1, adbd_process = None\<rparr>"

lemma fs_world_at: "fs_world F = fs_at F [] 1"
  by (simp add: fs_world_def fs_at_def)

lemma fs_at_trace [simp]: "trace (fs_at F tr t) = tr"
  by (simp add: fs_at_def)

lemma fs_at_step [simp]:
  "sys_step c (fs_at F tr t) = (fs_reply (fold fs_step tr F) c, fs_at F (tr @ [c]) (t + 1 + sleep_time c))"
  by (simp add: sys_step_def fs_at_def fs_env_def)

text \<open>The calls of an installation.\<close>

definition policy_temp :: "string \<Rightarrow> string" where
  "policy_temp path = temp_name (path_Dir path) ''.wifi-stick-dbus-policy-*''"

definition install_calls :: "string \<Rightarrow> os_call list" where
  "install_calls path =
     [ReadFile path, MkdirAll (path_Dir path), CreateTemp (path_Dir path) ''.wifi-stick-dbus-policy-*'',
      FileChmod (policy_temp path) 420, FileWriteString (policy_temp path) dbus_policy, FileSync (policy_temp path),
      FileClose (policy_temp path), Rename (policy_temp path) path, Remove (policy_temp path)]"

definition has_rule :: "fs \<Rightarrow> string \<Rightarrow> bool" where
  "has_rule F path \<longleftrightarrow> (\<exists>s. fs_read F path = Some s \<and> Contains s expected_rule)"

lemma policy_has_rule: "Contains dbus_policy expected_rule"
  by code_simp

lemma ensure_present:
  assumes "env w = fs_env F" "has_rule (fold fs_step (trace w) F) path"
  shows "fst (run_state (ensure_dbus_policy path) w) = Inr False \<and>
    trace (snd (run_state (ensure_dbus_policy path) w)) = trace w @ [ReadFile path] \<and>
    env (snd (run_state (ensure_dbus_policy path) w)) = fs_env F"
proof -
  obtain r w1 where step: "sys_step (ReadFile path) w = (r, w1)" by (metis surj_pair)
  then have "r = fs_reply (fold fs_step (trace w) F) (ReadFile path)" "trace w1 = trace w @ [ReadFile path]" "env w1 = fs_env F"
    using assms(1) fst_sys_step [of "ReadFile path" w] sys_step_world [of "ReadFile path" w] by (simp_all add: fs_env_def)
  with step assms(2) show ?thesis by (auto simp: has_rule_def ensure_dbus_policy_def)
qed

lemma ensure_missing:
  assumes "\<not> has_rule F path"
  shows "fst (run_state (ensure_dbus_policy path) (fs_at F [] t)) = Inr True \<and>
    trace (snd (run_state (ensure_dbus_policy path) (fs_at F [] t))) = install_calls path \<and>
    env (snd (run_state (ensure_dbus_policy path) (fs_at F [] t))) = fs_env F"
proof (cases "fs_read F path")
  case None
  then show ?thesis
    by (simp add: ensure_dbus_policy_def fill_temporary_def install_calls_def policy_temp_def Let_def fs_at_def [of F "[_, _, _, _, _, _, _, _, _]"])
next
  case (Some s)
  with assms show ?thesis
    by (simp add: has_rule_def ensure_dbus_policy_def fill_temporary_def install_calls_def policy_temp_def Let_def fs_at_def [of F "[_, _, _, _, _, _, _, _, _]"])
qed

lemma temp_not_path: "F (policy_temp path) = None \<Longrightarrow> F path \<noteq> None \<Longrightarrow> policy_temp path \<noteq> path"
  by metis

text \<open>The contents of the policy file after each of the calls of an installation.\<close>

lemma install_prefixes:
  assumes "policy_temp path \<noteq> path" "\<And>t. F path \<noteq> Some (SymLink t)" "F (policy_temp path) = None"
  shows "fs_read (fold fs_step (take k (install_calls path)) F) path =
      (if k \<le> 7 then fs_read F path else Some dbus_policy)"
    and "fold fs_step (install_calls path) F = F(path \<mapsto> Regular dbus_policy)"
proof -
  let ?tmp = "policy_temp path"
  have create: "temp_name (path_Dir path) ''.wifi-stick-dbus-policy-*'' = ?tmp"
    by (simp add: policy_temp_def)
  have keep: "fs_read (F(?tmp \<mapsto> Regular s)) path = fs_read F path" for s
    using assms(1,2) by (auto simp: fs_read_def split: option.splits fs_node.splits)
  show "fs_read (fold fs_step (take k (install_calls path)) F) path = (if k \<le> 7 then fs_read F path else Some dbus_policy)"
  proof -
    consider "k \<in> {0, 1, 2, 3, 4, 5, 6, 7}" | "k = 8" | "9 \<le> k" by fastforce
    then show ?thesis
    proof cases
      case 1
      then show ?thesis by (auto simp: install_calls_def create keep numeral_eq_Suc)
    next
      case 2
      then show ?thesis using assms(1) by (simp add: install_calls_def create numeral_eq_Suc fs_read_def)
    next
      case 3
      then have "take k (install_calls path) = install_calls path" by (simp add: install_calls_def)
      with 3 show ?thesis using assms(1) by (simp add: install_calls_def create fs_read_def)
    qed
  qed
  show "fold fs_step (install_calls path) F = F(path \<mapsto> Regular dbus_policy)"
    using assms by (auto simp: install_calls_def create fun_eq_iff)
qed

section \<open>Property\<close>



end
