(* ===== verification/Tools.thy ===== *)
theory Tools
  imports OS_World Netip
begin

text \<open>
  The helper programs under \<open>tools/\<close>: the stand-alone answerer of Caddy's question
  (\<open>caddy-tls-ask\<close>) and the DHCP test server (\<open>dhcp-test\<close>), whose server side imitates the upstream that the
  RNDIS client mode meets. The DHCP messages are records of the fields the tool reads and sets;
  encoding, sockets and the exchange itself are the library's, and what it answers is an argument.
\<close>

section \<open>caddy-tls-ask\<close>

text \<open>\<open>netip.Addr.IsPrivate\<close> and \<open>IsLoopback\<close>; an IPv4 address in IPv6 form counts as its IPv4 address.\<close>

definition addr_IsPrivate :: "addr \<Rightarrow> bool" where
  "addr_IsPrivate a =
     (case Unmap a of
        Addr4 w \<Rightarrow> drop_bit 24 w = 10 \<or> drop_bit 20 w = 0xAC1 \<or> drop_bit 16 w = 0xC0A8
      | Addr6 w _ \<Rightarrow> drop_bit 121 w = 0x7E
      | AddrNone \<Rightarrow> False)"

definition addr_IsLoopback :: "addr \<Rightarrow> bool" where
  "addr_IsLoopback a =
     (case Unmap a of
        Addr4 w \<Rightarrow> drop_bit 24 w = 127
      | Addr6 w _ \<Rightarrow> w = 1
      | AddrNone \<Rightarrow> False)"

text \<open>\<open>check\<close>: the status for the query's domain.\<close>

definition ask_check :: "string \<Rightarrow> nat" where
  "ask_check domain =
     (if domain = [] then 400
      else (case ParseAddr domain of
              None \<Rightarrow> 400
            | Some ip \<Rightarrow> if \<not> addr_IsPrivate ip \<and> \<not> addr_IsLoopback ip then 403 else 200))"

section \<open>dhcp-test\<close>

definition vethA :: string where "vethA = ''dhcptest0''"
definition vethB :: string where "vethB = ''dhcptest1''"
definition serverIP :: string where "serverIP = ''192.168.137.1''"
definition poolBase :: "8 word list" where "poolBase = [192, 168, 137, 100]"
definition leaseDur :: nat where "leaseDur = 604800"

definition run_ip :: "string list \<Rightarrow> bool io" where
  "run_ip args = do { r \<leftarrow> sys (Exec (''ip'' # args)); return (ok r) }"

definition setupVeth :: "bool io" where
  "setupVeth = do {
     _ \<leftarrow> run_ip [''link'', ''del'', vethA];
     a \<leftarrow> run_ip [''link'', ''add'', vethA, ''type'', ''veth'', ''peer'', ''name'', vethB];
     if \<not> a then return False
     else do {
       b \<leftarrow> run_ip [''addr'', ''add'', serverIP @ ''/24'', ''dev'', vethA];
       if \<not> b then return False
       else do {
         c \<leftarrow> run_ip [''link'', ''set'', vethA, ''up''];
         if \<not> c then return False else run_ip [''link'', ''set'', vethB, ''up'']
       }
     }
   }"

definition poolIP :: "8 word list \<Rightarrow> 8 word list" where
  "poolIP chaddr =
     (if 6 \<le> length chaddr then poolBase[3 := poolBase ! 3 + chaddr ! 5 mod 100] else poolBase)"

datatype dhcp_type = DhcpDiscover | DhcpOffer | DhcpRequest | DhcpAck | DhcpOtherType nat

record dhcp_message =
  msg_MessageType :: dhcp_type
  msg_ClientHWAddr :: "8 word list"
  msg_RequestedIP :: "8 word list"

record dhcp_reply =
  rep_MessageType :: dhcp_type
  rep_YourIP :: "8 word list"
  rep_ServerIP :: string
  rep_SubnetMask :: nat
  rep_Router :: string
  rep_DNS :: string
  rep_LeaseTime :: nat
  rep_ServerIdentifier :: string

definition reply_with :: "dhcp_type \<Rightarrow> 8 word list \<Rightarrow> dhcp_reply" where
  "reply_with t ip = \<lparr>rep_MessageType = t, rep_YourIP = ip, rep_ServerIP = serverIP, rep_SubnetMask = 24,
     rep_Router = serverIP, rep_DNS = serverIP, rep_LeaseTime = leaseDur, rep_ServerIdentifier = serverIP\<rparr>"

text \<open>What \<open>handler\<close> sends; \<open>build\<close> says whether the library could build the reply.\<close>

definition dhcp_handler :: "(dhcp_reply \<Rightarrow> bool) \<Rightarrow> dhcp_message \<Rightarrow> dhcp_reply option" where
  "dhcp_handler build m =
     (case (case msg_MessageType m of
              DhcpDiscover \<Rightarrow> Some (reply_with DhcpOffer (poolIP (msg_ClientHWAddr m)))
            | DhcpRequest \<Rightarrow>
                Some (reply_with DhcpAck
                  (if 4 \<le> length (msg_RequestedIP m) then take 4 (msg_RequestedIP m) else poolIP (msg_ClientHWAddr m)))
            | _ \<Rightarrow> None) of
        None \<Rightarrow> None
      | Some r \<Rightarrow> if build r then Some r else None)"

fun addIfaceAddr_loop :: "nat \<Rightarrow> string \<Rightarrow> string \<Rightarrow> bool io" where
  "addIfaceAddr_loop 0 ifname spec = return True"
| "addIfaceAddr_loop (Suc n) ifname spec = do {
     r \<leftarrow> run_ip [''addr'', ''add'', spec, ''dev'', ifname];
     if r then return True
     else if n = 0 then return False
     else do { _ \<leftarrow> sys (Sleep 100000000); addIfaceAddr_loop n ifname spec }
   }"

definition addIfaceAddr :: "string \<Rightarrow> string \<Rightarrow> bool io" where
  "addIfaceAddr ifname spec = addIfaceAddr_loop 3 ifname spec"

text \<open>
  The two subcommands. What the packet socket and the DHCP library answer are arguments: whether a connection or a server can
  be made, whether serving ends well, and the client's lease.
\<close>

datatype tool_error =
    CannotSetUpVeth
  | CannotCreateConn string
  | CannotCreateServer string
  | ServeFailed
  | InterfaceRequired
  | CannotAddAddress
  | CannotCreateClient string
  | ExchangeFailed string
  | UnknownSubcommand string
  | Usage

record server_lib =
  conn_ok :: "string \<Rightarrow> bool"
  server_ok :: "string \<Rightarrow> bool"
  serve_ok :: "string \<Rightarrow> bool"

definition cmdServer :: "server_lib \<Rightarrow> string \<Rightarrow> tool_error option io" where
  "cmdServer lib ifname_flag = do {
     up \<leftarrow> (if ifname_flag = [] then setupVeth else return True);
     if \<not> up then return (Some CannotSetUpVeth)
     else
       (let ifname = (if ifname_flag = [] then vethA else ifname_flag) in
        return (if \<not> conn_ok lib ifname then Some (CannotCreateConn ifname)
                else if \<not> server_ok lib ifname then Some (CannotCreateServer ifname)
                else if \<not> serve_ok lib ifname then Some ServeFailed
                else None))
   }"

record client_lib =
  client_ok :: "string \<Rightarrow> bool"
  lease_ok :: "string \<Rightarrow> bool"

definition exchange :: "client_lib \<Rightarrow> string \<Rightarrow> tool_error option" where
  "exchange lib ifname =
     (if \<not> client_ok lib ifname then Some (CannotCreateClient ifname)
      else if \<not> lease_ok lib ifname then Some (ExchangeFailed ifname)
      else None)"

text \<open>The address is flushed by a \<open>defer\<close>, so after the exchange however it ended.\<close>

definition cmdClient :: "client_lib \<Rightarrow> string \<Rightarrow> string \<Rightarrow> tool_error option io" where
  "cmdClient lib ifname address =
     (if ifname = [] then return (Some InterfaceRequired)
      else if address = [] then return (exchange lib ifname)
      else do {
        added \<leftarrow> addIfaceAddr ifname address;
        if \<not> added then return (Some CannotAddAddress)
        else do {
          _ \<leftarrow> run_ip [''addr'', ''flush'', ''dev'', ifname];
          return (exchange lib ifname)
        }
      })"

text \<open>\<open>main\<close>, by the words after the program's name; \<open>i\<close> and \<open>a\<close> are the flags \<open>-i\<close> and \<open>-a\<close>.\<close>

definition dhcp_test_main :: "server_lib \<Rightarrow> client_lib \<Rightarrow> string list \<Rightarrow> string \<Rightarrow> string \<Rightarrow> tool_error option io" where
  "dhcp_test_main slib clib words i a =
     (case words of
        [] \<Rightarrow> return (Some Usage)
      | w # _ \<Rightarrow>
          if w = ''server'' then cmdServer slib i
          else if w = ''client'' then cmdClient clib i a
          else return (Some (UnknownSubcommand w)))"

section \<open>The temporary address\<close>

lemma addIfaceAddr_loop_calls:
  "\<exists>cs. trace (snd (run_state (addIfaceAddr_loop n ifname spec) w)) = trace w @ cs \<and>
    list_all (\<lambda>c. c = Exec [''ip'', ''addr'', ''add'', spec, ''dev'', ifname] \<or> c = Sleep 100000000) cs \<and>
    length (filter (\<lambda>c. c \<noteq> Sleep 100000000) cs) \<le> n"
proof (induction n arbitrary: w)
  case 0
  then show ?case by simp
next
  case (Suc n)
  define add where "add = Exec [''ip'', ''addr'', ''add'', spec, ''dev'', ifname]"
  define w1 where "w1 = snd (sys_step add w)"
  define w2 where "w2 = snd (sys_step (Sleep 100000000) w1)"
  have tr: "trace w1 = trace w @ [add]" "trace w2 = trace w @ [add, Sleep 100000000]" by (simp_all add: w1_def w2_def)
  obtain cs where "trace (snd (run_state (addIfaceAddr_loop n ifname spec) w2)) = trace w2 @ cs"
    "list_all (\<lambda>c. c = add \<or> c = Sleep 100000000) cs" "length (filter (\<lambda>c. c \<noteq> Sleep 100000000) cs) \<le> n"
    using Suc.IH [of w2] unfolding add_def by blast
  with tr have more: "\<exists>cs. trace (snd (run_state (addIfaceAddr_loop n ifname spec) w2)) = trace w @ cs \<and>
      list_all (\<lambda>c. c = add \<or> c = Sleep 100000000) cs \<and> length (filter (\<lambda>c. c \<noteq> Sleep 100000000) cs) \<le> Suc n"
    by (intro exI [of _ "[add, Sleep 100000000] @ cs"]) (simp add: add_def)
  have once: "\<exists>cs. trace w1 = trace w @ cs \<and> list_all (\<lambda>c. c = add \<or> c = Sleep 100000000) cs \<and>
      length (filter (\<lambda>c. c \<noteq> Sleep 100000000) cs) \<le> Suc n"
    by (intro exI [of _ "[add]"]) (simp add: tr add_def)
  show ?case
    using more once by (cases "sys_step add w") (auto simp: run_ip_def w1_def w2_def simp flip: add_def split: prod.splits)
qed

text \<open>Whatever the interface and the library answer, the client's last call removes the address it added.\<close>

lemma client_flushes_what_it_added:
  assumes "ifname \<noteq> []" "address \<noteq> []" "run_state (addIfaceAddr ifname address) w = (True, w1)"
  shows "last (trace (snd (run_state (cmdClient lib ifname address) w))) = Exec [''ip'', ''addr'', ''flush'', ''dev'', ifname]"
  using assms by (simp add: cmdClient_def run_ip_def case_prod_unfold)

section \<open>Property\<close>

lemma pool_last_byte: "unat (100 + (c :: 8 word) mod 100) = 100 + unat c mod 100"
proof -
  have "unat (c mod 100) = unat c mod 100" by (simp add: unat_mod)
  moreover have "unat c mod 100 < 100" by simp
  ultimately show ?thesis by (subst unat_add_lem [THEN iffD1]) simp_all
qed

lemma fourth: "[a, b, c, d][3 := x] = [a, b, c, x]" "[a, b, c, d] ! 3 = d"
  by (simp_all add: numeral_3_eq_3)

text \<open>The test server's leases stay in its pool. For every hardware address the offered address is one of
  192.168.137.100 to 192.168.137.199, so the byte addition never wraps, never reaches the
  server's own address or the broadcast address, and depends on the last byte of the hardware address alone.\<close>

theorem pool_address_bounds:
  "\<exists>k. k < 100 \<and> poolIP chaddr = [192, 168, 137, of_nat (100 + k)] \<and>
    (6 \<le> length chaddr \<longrightarrow> k = unat (chaddr ! 5) mod 100)"
proof (cases "6 \<le> length chaddr")
  case True
  define k where "k = unat (chaddr ! 5) mod 100"
  have "100 + chaddr ! 5 mod 100 = (of_nat (100 + k) :: 8 word)"
  proof (rule word_unat_eq_iff [THEN iffD2])
    have "100 + k < 256" by (simp add: k_def less_le_trans [OF mod_less_divisor])
    then have "unat (of_nat (100 + k) :: 8 word) = 100 + k" by (simp add: unat_of_nat del: of_nat_add)
    then show "unat (100 + chaddr ! 5 mod 100) = unat (of_nat (100 + k) :: 8 word)"
      using pool_last_byte [of "chaddr ! 5"] by (simp only: k_def)
  qed
  then have "poolIP chaddr = [192, 168, 137, of_nat (100 + k)]"
    unfolding poolIP_def poolBase_def fourth using True by (simp only: if_True)
  moreover have "k < 100" by (simp add: k_def)
  ultimately show ?thesis unfolding k_def by blast
next
  case False
  then show ?thesis by (intro exI [of _ 0]) (simp add: poolIP_def poolBase_def)
qed

theorem pool_address_bounds_witness: "poolIP [2, 0, 0, 0, 0, 255] = [192, 168, 137, 155]"
  using pool_address_bounds [of "[2, 0, 0, 0, 0, 255]"] by auto

end
