(* ===== verification/Spec2Isabelle.thy ===== *)
theory Spec2Isabelle
  imports Input_Device Led Controller Daemon_Requests Daemon_Correct Daemon_Sync Tls_Service Cli Dbus_Service Tools
begin

text \<open>
  A verification development for the wifi-stick USB switcher (\<open>cmd/\<close>, \<open>core/\<close>, \<open>tools/\<close>): a daemon that makes a
  small Linux device one USB gadget or another (an RNDIS network card or an ADB device) at the press of a button or
  at the request of a control client, shows the choice with LEDs, and answers a web server that asks for
  certificates.

  \<^bold>\<open>The parts and how they interact.\<close>
  The main loop of the daemon (\<open>core/daemon/daemon.go\<close>) takes events from the button (\<open>core/input\<close>) and requests
  from the control connection (\<open>core/daemonipc\<close>, over a stream socket or D-Bus), and chooses a mode
  and a submode. An apply, in goroutines of its own, makes the USB controller (\<open>core/usb/controller.go\<close>)
  rebuild the gadget over libusbgx (\<open>core/usb/gadget\<close>) from the functions of the mode (\<open>rndis.go\<close>, \<open>adb.go\<close>), and
  sends the moment at which the gadget may be bound back to the main loop; a failed apply is
  rolled back to the last configuration that worked. LED interpreters (\<open>core/led\<close>) run small programs of
  actions. The TLS service (\<open>tls_service.go\<close>, \<open>domain_filter.go\<close>) serves certificates while the device is a network card.
  The command line (\<open>cmd/cli.go\<close>, \<open>core/ipc\<close>) starts the daemon or talks to it, building
  typed payloads with \<open>core/typeinject\<close>.

  \<^bold>\<open>Theories.\<close>
  \<^item> \<open>Prelude\<close>: results, Go's operators and the functions of \<open>strings\<close>, \<open>bytes\<close> and \<open>strconv\<close> the sources use;
    \<open>Netip\<close>: addresses and prefixes of \<open>net/netip\<close> over words.
  \<^item> \<open>OS_World\<close>: the machine. Every effect is an \<open>os_call\<close> of the state monad; the answers are an unknown
    function of the history, so theorems hold for every machine. \<open>emits\<close> and its rules compute which calls code can
    make. \<open>File_Model\<close>: a machine whose files behave, for what is left on disk.
  \<^item> \<open>Base_Files\<close> (\<open>core/base\<close>): \<open>IsValidPath\<close>, the reader and writer of attribute files.
  \<^item> \<open>Input_Device\<close> (\<open>core/input/handler.go\<close>): the record \<open>input_device\<close>, \<open>key_down\<close>, \<open>key_up\<close>, the timers, \<open>DrainEvents\<close>;
    one report per press, grouping of taps, the invariant of every reachable device.
  \<^item> \<open>Led\<close> (\<open>core/led\<close>): attributes, modes, the interpreter with a goroutine per mode; locale \<open>led_context\<close>.
  \<^item> \<open>Gadget_Ctx\<close> (\<open>c.go\<close>), \<open>Usb_Function\<close> (what every function promises: locale \<open>usb_function\<close>), \<open>Rndis\<close>, \<open>Adb\<close>,
    \<open>Controller\<close>: the gadget, its functions (both interpret the locale, and so does their sum), and the controller.
  \<^item> \<open>Daemon\<close>: the record \<open>daemon\<close> and one definition per method of \<open>daemon.go\<close>; \<open>Daemon_Init\<close>: \<open>NewDaemon\<close> and
    \<open>init\<close>; \<open>Daemon_Steps\<close>: the daemon as a step relation over a daemon and the goroutines still running,
    and that the pieces of a goroutine, run without a break, are the method they were cut from;
    \<open>Daemon_Inv\<close>, \<open>Daemon_Props\<close>: invariants by rule induction; \<open>Daemon_Requests\<close>, \<open>Daemon_Correct\<close>: what requests, taps
    and the shutdown press do, and what holds of every run; \<open>Daemon_Sync\<close>: what an idle daemon has on the bus, and the
    runs that lose it.
  \<^item> \<open>Domain_Filter\<close>, \<open>Tls_Service\<close>: the allow list against its meaning on labels; the endpoints, the
    cache (locale \<open>keyed_cache\<close>) and the certificates.
  \<^item> \<open>Typeinject\<close>, \<open>Ipc_Core\<close> (locale \<open>ipc_endpoint\<close>), \<open>Ipc_Protocol\<close> (both ends interpret it), \<open>Ipc_Client\<close> (locale
    \<open>transport\<close>, interpreted for the stream and for D-Bus), \<open>Daemon_Ipc\<close> (locale \<open>daemon_interface\<close>, interpreted on the daemon):
    from the command line to the daemon and back. \<open>Dbus_Service\<close>: policy file and service. \<open>Cli\<close>: \<open>main\<close>,
    connecting, the server loop. \<open>Tools\<close>: the programs under \<open>tools/\<close>.

  \<^bold>\<open>What is shown.\<close>
  In every interleaving of main loop, goroutines, button, LED loops and requests the daemon names only modes and
  submodes that exist; at most one apply is under way; what is committed is what was built; an apply can always
  come to its end and a failed one settles on the last good configuration or on a reported error; an idle daemon names the
  mode its gadget is built from, unless a change of submode overtook a change of mode. Presses are reported once,
  taps are grouped and cycle the modes; a press long enough shuts down before anything else happens. Certificates
  are issued only in RNDIS mode, for names the allow list admits or addresses the device owns. A command does exactly
  what the command language says (\<open>cli_spec\<close>, which knows neither packages nor JSON), over both transports, and its exit
  status tells what happened. Address arithmetic stays inside its subnet; only the daemon's own dnsmasq and adbd are
  killed; \<open>resolv.conf\<close> and the D-Bus policy survive intact. This theory holds the properties that span components.

  \<^bold>\<open>Conventions, bounds and fuel.\<close>
  Times are nanoseconds as integers, \<open>0\<close> Go's zero time; the clock moves in calls only, by amounts the machine chooses.
  A goroutine of the daemon is cut into pieces at every operation on the gadget (rebuild, bind, reconfigure), at every sleep
  of its own and at its message to the main loop. Pieces interleave with each other, with the rounds of the main loop, the requests,
  the button and the LED loops; the inside of one piece, which holds at most one whole operation on the gadget, does not. Words have their width where
  the sources compute bitwise; \<open>int\<close> values that come from \<open>Atoi\<close> are bounded by its range. Loops with a
  deadline are recursive on the time left and proved to end. \<open>fuel\<close> of the world bounds one loop,
  unmounting until it fails; any fuel above the number of stacked mounts gives the loop's result. A map whose iteration order matters
  is given with the order as an argument. JSON texts are the values they denote, numbers keeping
  their text; strings are lists of bytes that are valid UTF-8 where they pass through JSON.

  \<^bold>\<open>Parameters.\<close>
  Code outside the repository is an argument: evdev, libusbgx, external commands and the file system through the
  world; the crypto library's answers (\<open>crypto_answers\<close>); the validator, the decoding of structs and the reading of floating-point
  numbers (\<open>inject_lib\<close>); the texts of errors (\<open>ipc_lib\<close>); the connection library and the clock of the client (\<open>Cli\<close>).

  \<^bold>\<open>Not modelled.\<close>
  Log output. Parsing of the command line (a library), CPU pinning and signals. Starting and stopping \<open>net/http\<close>.
  The conversion of Go values that no JSON denotes (\<open>ConvertArgs\<close> and \<open>CallFunction\<close> are modelled on those it does); nothing in
  the program asks for it. Encoding of DHCP packets and packet sockets in
  \<open>tools/dhcp-test\<close>. Interleavings inside one piece of a goroutine, so data races while an operation on
  the gadget runs.
\<close>

section \<open>A sample run\<close>

text \<open>The daemon with its default modes starts in RNDIS mode.\<close>

definition default_cmd :: daemon_cmd where
  "default_cmd = sample_cmd\<lparr>cmd_Gadgets := []\<rparr>"

definition default_daemon :: daemon where
  "default_daemon = projr (fst (run_state (NewDaemon sample_platform default_cmd) dir_world))"

lemma new_default:
  "\<exists>w. run_state (NewDaemon sample_platform default_cmd) dir_world = (Inr default_daemon, w)"
proof -
  have "\<not> isl (fst (run_state (NewDaemon sample_platform default_cmd) dir_world))" by code_simp
  then have "fst (run_state (NewDaemon sample_platform default_cmd) dir_world) = Inr default_daemon"
    unfolding default_daemon_def by simp
  then show ?thesis by (metis prod.collapse)
qed

section \<open>Properties that span components\<close>

text \<open>C9: Certificates are issued in RNDIS mode only. Whatever button presses, requests, applies, failures
  and rollbacks the daemon went through since its start, when \<open>/generate\<close> answers 200 the
  function at its current mode is an RNDIS function.\<close>

theorem certificates_only_in_rndis_mode:
  assumes "run_state (NewDaemon plat cmd) w = (Inr d, w')" and "daemon_step\<^sup>*\<^sup>* (main_start d) (d', ts)"
    and "run_state (handle_generate cr r d' s) v = ((200, leaf, s'), v')"
  shows "current_mode d' < length (modes d') \<and> is_rndis (modes d' ! current_mode d')"
proof -
  have "sys_inv (shape (modes d)) (d', ts)"
    by (rule reachable_sys_inv [OF assms(2) main_start_inv [OF NewDaemon_wf(1) [OF assms(1)]]])
  then have wf: "wf_daemon d'" by (simp add: sys_inv_def)
  from assms(3) have "is_current_rndis_mode d'" by (cases rule: handle_generate_cases) simp_all
  with wf show ?thesis by (simp add: wf_daemon_def modes_ok_def is_current_rndis_mode_def)
qed

theorem certificates_only_in_rndis_mode_witness:
  "is_rndis (modes (start_led_interpreters default_daemon) ! current_mode (start_led_interpreters default_daemon))"
proof -
  let ?d = "start_led_interpreters default_daemon"
  obtain w where new: "run_state (NewDaemon sample_platform default_cmd) dir_world = (Inr default_daemon, w)"
    using new_default by blast
  have "fst (fst (run_state (handle_generate sample_crypto sample_request ?d sample_service) fine_world)) = 200"
    by code_simp
  then obtain leaf s' w' where
    run: "run_state (handle_generate sample_crypto sample_request ?d sample_service) fine_world = ((200, leaf, s'), w')"
    by (metis prod.collapse)
  have start: "daemon_step\<^sup>*\<^sup>* (main_start default_daemon) (?d, start_tasks)"
    by (simp add: main_start_def)
  from certificates_only_in_rndis_mode [OF new start run] show ?thesis by blast
qed

end
